theory Spec2Isabelle
  imports Complex_Main "HOL-Library.Word" "HOL-Library.Sublist"
begin

section \<open>The DAP server of service/dap/server.go\<close>

text \<open>
  The server is single-threaded per session: one request is read, dispatched to its
  handler and handled to completion. Each handler is modelled as a function from the
  session state to the session state. A Go panic is a value: a function that can panic
  returns \<open>Inl\<close> of the panic, together with the state as the panic left it.
\<close>

datatype panic = Panic string

subsection \<open>Handle registries\<close>

text \<open>
  Modelled from the spec: the types \<open>handlesMap\<close> and \<open>variablesHandlesMap\<close> with
  \<open>newHandlesMap\<close>, \<open>create\<close>, \<open>get\<close> and \<open>reset\<close> are declared in a file of the
  package that is not part of the sources at hand. Spec 4.1: create allocates a fresh
  unique positive integer, stores the payload and returns the handle; get is a pure
  lookup; reset discards all entries and resets the allocation counter. The registry is
  a counter and a map from handles to payloads. The spec fixes the first handle only as
  positive; nothing below depends on its value. Handles are Go ints; the counter is not
  wrapped at 64 bits (wrapping it takes 2^63 allocations between two resets).
\<close>

record 'a handlesMap =
  nextHandle :: int
  handleToVal :: "int \<rightharpoonup> 'a"

definition startHandle :: int where
  "startHandle = 1"

definition newHandlesMap :: "'a handlesMap" where
  "newHandlesMap = \<lparr>nextHandle = startHandle, handleToVal = Map.empty\<rparr>"

definition reset :: "'a handlesMap \<Rightarrow> 'a handlesMap" where
  "reset hs = hs\<lparr>nextHandle := startHandle, handleToVal := Map.empty\<rparr>"

definition create :: "'a \<Rightarrow> 'a handlesMap \<Rightarrow> int \<times> 'a handlesMap" where
  "create val hs =
     (let next = nextHandle hs
      in (next, hs\<lparr>nextHandle := next + 1, handleToVal := (handleToVal hs)(next \<mapsto> val)\<rparr>))"

definition get :: "'a handlesMap \<Rightarrow> int \<Rightarrow> 'a option" where
  "get hs handle = handleToVal hs handle"

text \<open>Every handle in use lies between the first handle and the counter.\<close>

definition handles_ok :: "'a handlesMap \<Rightarrow> bool" where
  "handles_ok hs \<longleftrightarrow>
     startHandle \<le> nextHandle hs \<and>
     (\<forall>h. handleToVal hs h \<noteq> None \<longrightarrow> startHandle \<le> h \<and> h < nextHandle hs)"

subsection \<open>Value snapshots\<close>

text \<open>The kinds of \<open>reflect.Kind\<close>, in the order of the Go declaration.\<close>

datatype reflect_Kind =
    reflect_Invalid | reflect_Bool
  | reflect_Int | reflect_Int8 | reflect_Int16 | reflect_Int32 | reflect_Int64
  | reflect_Uint | reflect_Uint8 | reflect_Uint16 | reflect_Uint32 | reflect_Uint64
  | reflect_Uintptr | reflect_Float32 | reflect_Float64
  | reflect_Complex64 | reflect_Complex128
  | reflect_Array | reflect_Chan | reflect_Func | reflect_Interface | reflect_Map
  | reflect_Ptr | reflect_Slice | reflect_String | reflect_Struct | reflect_UnsafePointer

text \<open>
  The values of \<open>go/constant\<close>. Integers of either representation are \<open>intVal\<close>,
  rationals and big floats are \<open>floatVal\<close>. Go's nil interface is \<open>None\<close> of
  \<open>constant_Value option\<close>.
\<close>

datatype constant_Value =
    unknownVal
  | boolVal bool
  | stringVal string
  | intVal int
  | floatVal rat
  | complexVal constant_Value constant_Value

text \<open>
  \<open>proc.Variable\<close>, with the fields the server reads. \<open>Addr\<close> and \<open>Base\<close> are
  uint64, \<open>Len\<close> and \<open>Cap\<close> are int64. \<open>Unreadable\<close> is an error, kept as its
  message; \<open>DwarfType\<close> is a type description, kept as its name; \<open>None\<close> is nil for both.
\<close>

datatype Variable = Variable
  (Name: string)
  (Addr: "64 word")
  (DwarfType: "string option")
  (Kind: reflect_Kind)
  (Value: "constant_Value option")
  (Len: "64 word")
  (Cap: "64 word")
  (Base: "64 word")
  (Children: "Variable list")
  (Unreadable: "string option")

text \<open>The zero value of the struct, as \<open>make([]proc.Variable, n)\<close> fills a slice with.\<close>

definition zeroVariable :: Variable where
  "zeroVariable = Variable [] 0 None reflect_Invalid None 0 0 0 [] None"

fun set_Name :: "string \<Rightarrow> Variable \<Rightarrow> Variable" where
  "set_Name n (Variable _ a t k v l c b cs u) = Variable n a t k v l c b cs u"

fun set_Kind :: "reflect_Kind \<Rightarrow> Variable \<Rightarrow> Variable" where
  "set_Kind k (Variable n a t _ v l c b cs u) = Variable n a t k v l c b cs u"

fun set_Value :: "constant_Value option \<Rightarrow> Variable \<Rightarrow> Variable" where
  "set_Value v (Variable n a t k _ l c b cs u) = Variable n a t k v l c b cs u"

fun set_Children :: "Variable list \<Rightarrow> Variable \<Rightarrow> Variable" where
  "set_Children cs (Variable n a t k v l c b _ u) = Variable n a t k v l c b cs u"

subsection \<open>Library functions the server calls\<close>

text \<open>
  \<open>constant.StringVal\<close>, \<open>constant.Real\<close> and \<open>constant.Imag\<close> of the Go library
  panic on a value of the wrong kind, nil included.
\<close>

fun constant_StringVal :: "constant_Value option \<Rightarrow> panic + string" where
  "constant_StringVal (Some (stringVal s)) = Inr s"
| "constant_StringVal (Some unknownVal) = Inr []"
| "constant_StringVal _ = Inl (Panic ''not a String'')"

fun constant_Real :: "constant_Value option \<Rightarrow> panic + constant_Value" where
  "constant_Real (Some unknownVal) = Inr unknownVal"
| "constant_Real (Some (intVal i)) = Inr (intVal i)"
| "constant_Real (Some (floatVal f)) = Inr (floatVal f)"
| "constant_Real (Some (complexVal re im)) = Inr re"
| "constant_Real _ = Inl (Panic ''not numeric'')"

fun constant_Imag :: "constant_Value option \<Rightarrow> panic + constant_Value" where
  "constant_Imag (Some unknownVal) = Inr unknownVal"
| "constant_Imag (Some (intVal i)) = Inr (intVal 0)"
| "constant_Imag (Some (floatVal f)) = Inr (intVal 0)"
| "constant_Imag (Some (complexVal re im)) = Inr im"
| "constant_Imag _ = Inl (Panic ''not numeric'')"

text \<open>The verbs \<open>%d\<close> and \<open>%#x\<close> of \<open>fmt.Sprintf\<close>.\<close>

fun decDigits :: "nat \<Rightarrow> string" where
  "decDigits n =
     (if n < 10 then [''0123456789'' ! n]
      else decDigits (n div 10) @ [''0123456789'' ! (n mod 10)])"

definition fmt_d :: "int \<Rightarrow> string" where
  "fmt_d i = (if i < 0 then ''-'' @ decDigits (nat (- i)) else decDigits (nat i))"

fun hexDigits :: "nat \<Rightarrow> string" where
  "hexDigits n =
     (if n < 16 then [''0123456789abcdef'' ! n]
      else hexDigits (n div 16) @ [''0123456789abcdef'' ! (n mod 16)])"

definition fmt_x :: "64 word \<Rightarrow> string" where
  "fmt_x w = ''0x'' @ hexDigits (unat w)"

text \<open>
  The functions of packages \<open>api\<close> and \<open>proc\<close> and the verb \<open>%q\<close>, whose code is
  not part of the sources at hand, are parameters of the model.
\<close>

record ext =
  PrettyTypeName :: "string option \<Rightarrow> string"
  VariableValueAsString :: "Variable \<Rightarrow> string"
  TypeString :: "Variable \<Rightarrow> string"
  fmt_q :: "string \<Rightarrow> string"

subsection \<open>convertVariable\<close>

text \<open>
  The registry stores a pointer to the snapshot in the source; the model stores the
  snapshot. The source updates a snapshot in place in one case only, when it gives a
  complex value its two children: the snapshot registered is the updated one. The same
  update is made again, with the same result, each time the value is converted.
\<close>

definition convertDefault ::
  "ext \<Rightarrow> string \<Rightarrow> Variable \<Rightarrow> Variable handlesMap
     \<Rightarrow> (panic + string \<times> int) \<times> Variable handlesMap" where
  "convertDefault x typeName v hs =
     (let vvalue = VariableValueAsString x v;
          val = (if vvalue \<noteq> [] then vvalue else ''<'' @ typeName @ ''>'')
      in if length (Children v) > 0
         then (let (h, hs') = create v hs in (Inr (val, h), hs'))
         else (Inr (val, 0), hs))"

definition convertVariable ::
  "ext \<Rightarrow> Variable \<Rightarrow> Variable handlesMap
     \<Rightarrow> (panic + string \<times> int) \<times> Variable handlesMap" where
  "convertVariable x v hs =
     (case Unreadable v of
        Some e \<Rightarrow> (Inr (''unreadable <'' @ e @ ''>'', 0), hs)
      | None \<Rightarrow>
     (let typeName = PrettyTypeName x (DwarfType v) in
      if Kind v = reflect_UnsafePointer then
        (if length (Children v) = 0 then (Inr (''unsafe.Pointer(nil)'', 0), hs)
         else (Inr (''unsafe.Pointer('' @ fmt_x (Addr (Children v ! 0)) @ '')'', 0), hs))
      else if Kind v = reflect_Ptr then
        (if DwarfType v = None \<or> length (Children v) = 0 then (Inr (''nil'', 0), hs)
         else if Addr (Children v ! 0) = 0 then (Inr (''nil <'' @ typeName @ ''>'', 0), hs)
         else if Kind (Children v ! 0) = reflect_Invalid then (Inr (''void'', 0), hs)
         else (let (h, hs') = create v hs
               in (Inr (''<'' @ typeName @ ''>('' @ fmt_x (Addr (Children v ! 0)) @ '')'', h),
                   hs')))
      else if Kind v = reflect_Array then
        (if length (Children v) > 0
         then (let (h, hs') = create v hs in (Inr (''<'' @ typeName @ ''>'', h), hs'))
         else (Inr (''<'' @ typeName @ ''>'', 0), hs))
      else if Kind v = reflect_Slice then
        (if Base v = 0 then (Inr (''nil <'' @ typeName @ ''>'', 0), hs)
         else (let val = ''<'' @ typeName @ ''> (length: '' @ fmt_d (sint (Len v))
                           @ '', cap: '' @ fmt_d (sint (Cap v)) @ '')''
               in if length (Children v) > 0
                  then (let (h, hs') = create v hs in (Inr (val, h), hs'))
                  else (Inr (val, 0), hs)))
      else if Kind v = reflect_Map then
        (if Base v = 0 then (Inr (''nil <'' @ typeName @ ''>'', 0), hs)
         else (let val = ''<'' @ typeName @ ''> (length: '' @ fmt_d (sint (Len v)) @ '')''
               in if length (Children v) > 0
                  then (let (h, hs') = create v hs in (Inr (val, h), hs'))
                  else (Inr (val, 0), hs)))
      else if Kind v = reflect_String then
        (case constant_StringVal (Value v) of
           Inl p \<Rightarrow> (Inl p, hs)
         | Inr vvalue \<Rightarrow>
             (let lenNotLoaded = Len v - word_of_nat (length vvalue);
                  vvalue' = (if 0 < sint lenNotLoaded
                             then vvalue @ ''...+'' @ fmt_d (sint lenNotLoaded) @ '' more''
                             else vvalue)
              in (Inr (fmt_q x vvalue', 0), hs)))
      else if Kind v = reflect_Chan then
        (if length (Children v) = 0 then (Inr (''nil <'' @ typeName @ ''>'', 0), hs)
         else (let (h, hs') = create v hs in (Inr (''<'' @ typeName @ ''>'', h), hs')))
      else if Kind v = reflect_Interface then
        (if Addr v = 0 then (Inr (''nil'', 0), hs)
         else if length (Children v) = 0
                 \<or> (Kind (Children v ! 0) = reflect_Invalid \<and> Addr (Children v ! 0) = 0)
         then (Inr (''nil <'' @ typeName @ ''>'', 0), hs)
         else (let (h, hs') = create v hs
               in (Inr (''<'' @ typeName @ ''('' @ TypeString x (Children v ! 0) @ '')'' @ ''>'', h),
                   hs')))
      else if Kind v = reflect_Complex64 \<or> Kind v = reflect_Complex128 then
        (case constant_Real (Value v) of
           Inl p \<Rightarrow> (Inl p, hs)
         | Inr re \<Rightarrow>
        (case constant_Imag (Value v) of
           Inl p \<Rightarrow> (Inl p, hs)
         | Inr im \<Rightarrow>
             (let fk = (if Kind v = reflect_Complex64 then reflect_Float32 else reflect_Float64);
                  c0 = set_Kind fk (set_Value (Some re) (set_Name ''real'' zeroVariable));
                  c1 = set_Kind fk (set_Value (Some im) (set_Name ''imaginary'' zeroVariable))
              in convertDefault x typeName (set_Children [c0, c1] v) hs)))
      else convertDefault x typeName v hs))"

subsection \<open>Protocol messages\<close>

text \<open>
  A request carries its sequence number and its command name; the arguments of each
  kind of request are in the datatype of requests below.
\<close>

record dap_Request =
  Seq :: int
  Command :: string

text \<open>
  The fields of \<open>dap.Response\<close> that vary: the sequence number of a message sent is
  always 0 and its type is response or event by its constructor.
\<close>

record dap_Response =
  resp_Command :: string
  RequestSeq :: int
  Success :: bool
  Message :: string

definition newResponse :: "dap_Request \<Rightarrow> dap_Response" where
  "newResponse request =
     \<lparr>resp_Command = Command request, RequestSeq = Seq request, Success = True, Message = []\<rparr>"

text \<open>
  Modelled from the spec: the error identifiers are constants of a file of the package
  that is not part of the sources at hand. Spec 6: their values are
  implementation-defined, stable and distinct from each other.
\<close>

datatype errorId =
    UnsupportedCommand | InternalError | NotYetImplemented | FailedToLaunch
  | UnableToSetBreakpoints | UnableToDisplayThreads | UnableToProduceStackTrace
  | UnableToListLocals | UnableToListArgs | UnableToListGlobals | UnableToLookupVariable

record Capabilities =
  SupportsConfigurationDoneRequest :: bool
  SupportsConditionalBreakpoints :: bool
  SupportsSetVariable :: bool
  SupportsTerminateRequest :: bool
  SupportsRestartRequest :: bool
  SupportsFunctionBreakpoints :: bool
  SupportsStepBack :: bool
  SupportsSetExpression :: bool
  SupportsLoadedSourcesRequest :: bool
  SupportsReadMemoryRequest :: bool
  SupportsDisassembleRequest :: bool
  SupportsCancelRequest :: bool

record StoppedEventBody =
  Reason :: string
  ThreadId :: int
  AllThreadsStopped :: bool
  Text :: string

record dap_Breakpoint =
  bp_Verified :: bool
  bp_Line :: int
  bp_Message :: string

record dap_Thread =
  th_Id :: int
  th_Name :: string

record dap_Source =
  src_Name :: string
  src_Path :: string

record dap_StackFrame =
  sf_Id :: int
  sf_Name :: string
  sf_Source :: dap_Source
  sf_Line :: int
  sf_Column :: int

record dap_Scope =
  sc_Name :: string
  sc_VariablesReference :: int

record dap_Variable =
  var_Name :: string
  var_Value :: string
  var_VariablesReference :: int

datatype message =
    InitializeResponse dap_Response Capabilities
  | LaunchResponse dap_Response
  | DisconnectResponse dap_Response
  | SetBreakpointsResponse dap_Response "dap_Breakpoint list"
  | SetExceptionBreakpointsResponse dap_Response
  | ConfigurationDoneResponse dap_Response
  | ContinueResponse dap_Response bool
  | NextResponse dap_Response
  | StepInResponse dap_Response
  | StepOutResponse dap_Response
  | ThreadsResponse dap_Response "dap_Thread list"
  | StackTraceResponse dap_Response "dap_StackFrame list" int
  | ScopesResponse dap_Response "dap_Scope list"
  | VariablesResponse dap_Response "dap_Variable list"
  | ErrorResponse dap_Response errorId string
  | InitializedEvent
  | StoppedEvent StoppedEventBody
  | TerminatedEvent
  | OutputEvent string string

subsection \<open>The session and the world around it\<close>

text \<open>
  An error of the engine or of the system. \<open>proc.ErrProcessExited\<close> is told from
  a pointer to it and from every other error, as the type switches of the server do;
  each carries the text of its \<open>Error()\<close>.
\<close>

datatype error = ErrProcessExited string | ErrProcessExitedPtr string | ErrOther string

fun Error :: "error \<Rightarrow> string" where
  "Error (ErrProcessExited m) = m"
| "Error (ErrProcessExitedPtr m) = m"
| "Error (ErrOther m) = m"

text \<open>A channel is known by its identity; the world records which ones were closed.\<close>

type_synonym chan = nat

record launchAttachArgs =
  stopOnEntry :: bool
  stackTraceDepth :: int
  showGlobalVariables :: bool

definition defaultArgs :: launchAttachArgs where
  "defaultArgs = \<lparr>stopOnEntry = False, stackTraceDepth = 50, showGlobalVariables = False\<rparr>"

record stackFrame =
  goroutineID :: int
  frameIndex :: int

text \<open>The engine a session holds, known by what it was created with.\<close>

record Debugger =
  dbg_WorkingDir :: string
  dbg_ProcessArgs :: "string list"

text \<open>
  What the server does to the world, in the order it does it: the messages written to
  the connection, the commands given to the engine, the builds, the closing of
  channels, of the listener and of the connection.
\<close>

datatype effect =
    Sent message
  | EngineCommand string
  | EngineNew string "string list"
  | EngineDetach bool
  | GoBuild string "string list" string
  | GoTestBuild string "string list" string
  | Removed string
  | ListenerClosed
  | ConnClosed
  | ChanClosed chan

record Server =
  config_ProcessArgs :: "string list"
  config_WorkingDir :: string
  config_AttachPid :: int
  config_DisconnectChan :: "chan option"
  conn :: bool
  stopChan :: chan
  debugger :: "Debugger option"
  binaryToRemove :: string
  stackFrameHandles :: "stackFrame handlesMap"
  variableHandles :: "Variable handlesMap"
  args :: launchAttachArgs
  trace :: "effect list"

text \<open>
  \<open>NewServer\<close>: the listener, the disconnect channel, the attach pid and the fresh
  stop channel are given; no connection, no engine, empty registries, default arguments.
\<close>

definition NewServer :: "chan option \<Rightarrow> int \<Rightarrow> chan \<Rightarrow> Server" where
  "NewServer disconnectChan attachPid stop =
     \<lparr>config_ProcessArgs = [], config_WorkingDir = [], config_AttachPid = attachPid,
      config_DisconnectChan = disconnectChan, conn = False, stopChan = stop,
      debugger = None, binaryToRemove = [],
      stackFrameHandles = newHandlesMap, variableHandles = newHandlesMap,
      args = defaultArgs, trace = []\<rparr>"

definition effect :: "effect \<Rightarrow> Server \<Rightarrow> Server" where
  "effect e s = s\<lparr>trace := trace s @ [e]\<rparr>"

definition send :: "message \<Rightarrow> Server \<Rightarrow> Server" where
  "send m s = effect (Sent m) s"

text \<open>Closing a channel that is closed already panics.\<close>

definition close :: "chan \<Rightarrow> Server \<Rightarrow> (panic + unit) \<times> Server" where
  "close c s =
     (if ChanClosed c \<in> set (trace s) then (Inl (Panic ''close of closed channel''), s)
      else (Inr (), effect (ChanClosed c) s))"

definition sendErrorResponse ::
  "dap_Request \<Rightarrow> errorId \<Rightarrow> string \<Rightarrow> string \<Rightarrow> Server \<Rightarrow> Server" where
  "sendErrorResponse request ident summary details s =
     send (ErrorResponse
             \<lparr>resp_Command = Command request, RequestSeq = Seq request,
              Success = False, Message = summary\<rparr>
             ident (summary @ '': '' @ details)) s"

definition sendInternalErrorResponse :: "int \<Rightarrow> string \<Rightarrow> Server \<Rightarrow> Server" where
  "sendInternalErrorResponse seq details s =
     send (ErrorResponse
             \<lparr>resp_Command = [], RequestSeq = seq, Success = False,
              Message = ''Internal Error''\<rparr>
             InternalError (''Internal Error'' @ '': '' @ details)) s"

definition sendUnsupportedErrorResponse :: "dap_Request \<Rightarrow> Server \<Rightarrow> Server" where
  "sendUnsupportedErrorResponse request s =
     sendErrorResponse request UnsupportedCommand ''Unsupported command''
       (''cannot process '' @ [CHR 0x27] @ Command request @ [CHR 0x27] @ '' request'') s"

definition sendNotYetImplementedErrorResponse :: "dap_Request \<Rightarrow> Server \<Rightarrow> Server" where
  "sendNotYetImplementedErrorResponse request s =
     sendErrorResponse request NotYetImplemented ''Not yet implemented''
       (''cannot process '' @ [CHR 0x27] @ Command request @ [CHR 0x27] @ '' request'') s"

subsection \<open>The engine, the build service and the system\<close>

record Location =
  File :: string
  Line :: int
  Fn :: "string option"

text \<open>\<open>Fn\<close> is the function of the location, kept as its name; \<open>None\<close> is nil.\<close>

record Stackframe =
  Call :: Location

record Goroutine =
  ID :: int
  UserCurrent :: Location

text \<open>
  \<open>api.DebuggerState\<close>: the selected goroutine and the current thread are pointers
  that may be nil; they are kept as the goroutine id each one carries.
\<close>

record DebuggerState =
  Exited :: bool
  SelectedGoroutine :: "int option"
  CurrentThread :: "int option"

record api_Breakpoint =
  abp_ID :: int
  abp_File :: string
  abp_Line :: int
  abp_Cond :: string

record SourceBreakpoint =
  sbp_Line :: int
  sbp_Condition :: string

text \<open>
  A value decoded from JSON into \<open>interface{}\<close>: nil, bool, float64, string, a slice
  or a map. A number is kept as the rational it denotes.
\<close>

datatype json =
    JNull | JBool bool | JNumber rat | JString string
  | JArray "json list" | JObject "(string \<times> json) list"

text \<open>
  The answers of the engine, of the build service and of the system while one request
  is handled. Their code is outside the server; the model takes the answers as given.
  A call that returns a value and an error is a sum, \<open>Inl\<close> the error. The i-th call
  of \<open>CreateBreakpoint\<close> within a request has its own answer.
\<close>

record world =
  externals :: ext
  debugger_New :: "string \<Rightarrow> string list \<Rightarrow> error option"
  debugger_Command :: "string \<Rightarrow> error + DebuggerState"
  debugger_State :: "error + DebuggerState"
  debugger_Detach :: "bool \<Rightarrow> error option"
  debugger_Goroutines :: "error + Goroutine list"
  debugger_Stacktrace :: "int \<Rightarrow> int \<Rightarrow> error + Stackframe list"
  debugger_FunctionArguments :: "int \<Rightarrow> int \<Rightarrow> error + Variable list"
  debugger_LocalVariables :: "int \<Rightarrow> int \<Rightarrow> error + Variable list"
  debugger_CurrentPackage :: "error + string"
  debugger_PackageVariables :: "string \<Rightarrow> error + Variable list"
  debugger_Breakpoints :: "api_Breakpoint list"
  debugger_ClearBreakpoint :: "api_Breakpoint \<Rightarrow> error option"
  debugger_CreateBreakpoint :: "nat \<Rightarrow> api_Breakpoint \<Rightarrow> error + api_Breakpoint"
  gobuild_GoBuild :: "string \<Rightarrow> string list \<Rightarrow> string \<Rightarrow> error option"
  gobuild_GoTestBuild :: "string \<Rightarrow> string list \<Rightarrow> string \<Rightarrow> error option"
  filepath_Abs :: "string \<Rightarrow> error + string"
  filepath_Dir :: "string \<Rightarrow> string"
  filepath_Base :: "string \<Rightarrow> string"
  fmt_v :: "json \<Rightarrow> string"
  fmt_qv :: "json \<Rightarrow> string"

text \<open>
  Modelled from the spec: the names of the engine's commands are constants of package
  \<open>api\<close>, which is not part of the sources at hand (spec 4.4 and 6: continue, step,
  next, step-out, halt). The server only compares them with each other.
\<close>

definition api_Continue :: string where "api_Continue = ''continue''"
definition api_Next :: string where "api_Next = ''next''"
definition api_Step :: string where "api_Step = ''step''"
definition api_StepOut :: string where "api_StepOut = ''stepOut''"
definition api_Halt :: string where "api_Halt = ''halt''"

text \<open>
  Dereferencing a nil pointer panics: a method of the engine called through a nil
  \<open>s.debugger\<close>, in the handlers that do not test it first, and the id of a
  goroutine or of a thread that is nil.
\<close>

definition nilPointer :: panic where
  "nilPointer = Panic ''runtime error: invalid memory address or nil pointer dereference''"

subsection \<open>doCommand\<close>

definition BetterBadAccessError :: string where
  "BetterBadAccessError =
     ''invalid memory address or nil pointer dereference [signal SIGSEGV: segmentation violation]''
     @ [CHR 0x0A]
     @ ''Unable to propogate EXC_BAD_ACCESS signal to target process and panic (see https://github.com/go-delve/delve/issues/852)''"

definition isexited :: "error + DebuggerState \<Rightarrow> bool" where
  "isexited r =
     (case r of
        Inl (ErrProcessExited _) \<Rightarrow> True
      | Inl _ \<Rightarrow> False
      | Inr state \<Rightarrow> Exited state)"

definition resetHandles :: "Server \<Rightarrow> Server" where
  "resetHandles s =
     s\<lparr>stackFrameHandles := reset (stackFrameHandles s),
       variableHandles := reset (variableHandles s)\<rparr>"

text \<open>
  The second half of \<open>doCommand\<close>, after the registries were reset: the stopped event
  is built and sent, with the output event after it when the command failed. Reading
  the id of a goroutine or of a thread that is nil panics before anything is sent.
\<close>

definition sendStopped ::
  "world \<Rightarrow> string \<Rightarrow> error + DebuggerState \<Rightarrow> Server \<Rightarrow> (panic + unit) \<times> Server" where
  "sendStopped w command r s =
     (let stopped = \<lparr>Reason = [], ThreadId = 0, AllThreadsStopped = True, Text = []\<rparr>
      in case r of
           Inr state \<Rightarrow>
             (case SelectedGoroutine state of
                None \<Rightarrow> (Inl nilPointer, s)
              | Some g \<Rightarrow>
                  (Inr (),
                   send (StoppedEvent
                           (stopped\<lparr>ThreadId := g,
                              Reason := (if command = api_Next \<or> command = api_Step
                                            \<or> command = api_StepOut
                                         then ''step'' else ''breakpoint'')\<rparr>)) s))
         | Inl err \<Rightarrow>
             (let text = (if Error err = ''bad access'' then BetterBadAccessError
                          else Error err);
                  stopped1 = stopped\<lparr>Reason := ''runtime error'', Text := text\<rparr>;
                  output = OutputEvent (''ERROR: '' @ text @ [CHR 0x0A]) ''stderr''
              in case debugger_State w of
                   Inl _ \<Rightarrow> (Inr (), send output (send (StoppedEvent stopped1) s))
                 | Inr state \<Rightarrow>
                     (case CurrentThread state of
                        None \<Rightarrow> (Inl nilPointer, s)
                      | Some g \<Rightarrow>
                          (Inr (),
                           send output
                             (send (StoppedEvent (stopped1\<lparr>ThreadId := g\<rparr>)) s)))))"

definition doCommand :: "world \<Rightarrow> string \<Rightarrow> Server \<Rightarrow> (panic + unit) \<times> Server" where
  "doCommand w command s =
     (if debugger s = None then (Inr (), s)
      else
        (let s1 = effect (EngineCommand command) s;
             r = debugger_Command w command
         in if isexited r then (Inr (), send TerminatedEvent s1)
            else sendStopped w command r (resetHandles s1)))"

subsection \<open>The handlers of initialize, configurationDone and the execution requests\<close>

definition onInitializeRequest :: "dap_Request \<Rightarrow> Server \<Rightarrow> Server" where
  "onInitializeRequest request s =
     send (InitializeResponse (newResponse request)
             \<lparr>SupportsConfigurationDoneRequest = True,
              SupportsConditionalBreakpoints = True,
              SupportsSetVariable = False,
              SupportsTerminateRequest = False,
              SupportsRestartRequest = False,
              SupportsFunctionBreakpoints = False,
              SupportsStepBack = False,
              SupportsSetExpression = False,
              SupportsLoadedSourcesRequest = False,
              SupportsReadMemoryRequest = False,
              SupportsDisassembleRequest = False,
              SupportsCancelRequest = False\<rparr>) s"

definition onSetExceptionBreakpointsRequest :: "dap_Request \<Rightarrow> Server \<Rightarrow> Server" where
  "onSetExceptionBreakpointsRequest request s =
     send (SetExceptionBreakpointsResponse (newResponse request)) s"

definition onConfigurationDoneRequest ::
  "world \<Rightarrow> dap_Request \<Rightarrow> Server \<Rightarrow> (panic + unit) \<times> Server" where
  "onConfigurationDoneRequest w request s =
     (let s1 = (if stopOnEntry (args s)
                then send (StoppedEvent
                             \<lparr>Reason = ''entry'', ThreadId = 1, AllThreadsStopped = True,
                              Text = []\<rparr>) s
                else s);
          s2 = send (ConfigurationDoneResponse (newResponse request)) s1
      in if \<not> stopOnEntry (args s2) then doCommand w api_Continue s2 else (Inr (), s2))"

definition onContinueRequest ::
  "world \<Rightarrow> dap_Request \<Rightarrow> Server \<Rightarrow> (panic + unit) \<times> Server" where
  "onContinueRequest w request s =
     doCommand w api_Continue (send (ContinueResponse (newResponse request) True) s)"

definition onNextRequest ::
  "world \<Rightarrow> dap_Request \<Rightarrow> Server \<Rightarrow> (panic + unit) \<times> Server" where
  "onNextRequest w request s =
     doCommand w api_Next (send (NextResponse (newResponse request)) s)"

definition onStepInRequest ::
  "world \<Rightarrow> dap_Request \<Rightarrow> Server \<Rightarrow> (panic + unit) \<times> Server" where
  "onStepInRequest w request s =
     doCommand w api_Step (send (StepInResponse (newResponse request)) s)"

definition onStepOutRequest ::
  "world \<Rightarrow> dap_Request \<Rightarrow> Server \<Rightarrow> (panic + unit) \<times> Server" where
  "onStepOutRequest w request s =
     doCommand w api_StepOut (send (StepOutResponse (newResponse request)) s)"

subsection \<open>Teardown\<close>

definition signalDisconnect :: "Server \<Rightarrow> (panic + unit) \<times> Server" where
  "signalDisconnect s =
     (case (case config_DisconnectChan s of
              None \<Rightarrow> (Inr (), s)
            | Some c \<Rightarrow>
                (case close c s of
                   (Inl p, s') \<Rightarrow> (Inl p, s')
                 | (Inr u, s') \<Rightarrow> (Inr (), s'\<lparr>config_DisconnectChan := None\<rparr>))) of
        (Inl p, s1) \<Rightarrow> (Inl p, s1)
      | (Inr u, s1) \<Rightarrow>
          (Inr (),
           if binaryToRemove s1 \<noteq> [] then effect (Removed (binaryToRemove s1)) s1 else s1))"

text \<open>
  \<open>Stop\<close> runs in the owner's flow. Closing the listener or the connection a second
  time returns an error, which \<open>Stop\<close> ignores; closing the stop channel a second time
  panics.
\<close>

definition Stop :: "Server \<Rightarrow> (panic + unit) \<times> Server" where
  "Stop s =
     (case close (stopChan s) (effect ListenerClosed s) of
        (Inl p, s1) \<Rightarrow> (Inl p, s1)
      | (Inr u, s1) \<Rightarrow>
          (let s2 = (if conn s1 then effect ConnClosed s1 else s1);
               s3 = (if debugger s2 \<noteq> None
                     then effect (EngineDetach (config_AttachPid s2 = 0)) s2 else s2)
           in (Inr (), s3)))"

definition onDisconnectRequest :: "dap_Request \<Rightarrow> Server \<Rightarrow> (panic + unit) \<times> Server" where
  "onDisconnectRequest request s =
     (let s1 = send (DisconnectResponse (newResponse request)) s;
          s2 = (if debugger s1 \<noteq> None
                then effect (EngineDetach (config_AttachPid s1 = 0))
                       (effect (EngineCommand api_Halt) s1)
                else s1)
      in signalDisconnect s2)"

subsection \<open>onLaunchRequest\<close>

definition debugBinary :: string where
  "debugBinary = ''./__debug_bin''"

text \<open>The type assertions of the handler on a value of the arguments map.\<close>

fun as_string :: "json option \<Rightarrow> string option" where
  "as_string (Some (JString str)) = Some str"
| "as_string _ = None"

fun as_bool :: "json option \<Rightarrow> bool option" where
  "as_bool (Some (JBool b)) = Some b"
| "as_bool _ = None"

fun as_float64 :: "json option \<Rightarrow> rat option" where
  "as_float64 (Some (JNumber n)) = Some n"
| "as_float64 _ = None"

text \<open>
  The conversion \<open>int(depth)\<close> of a float64 discards the fraction; the result for a
  number outside int64 is the one of amd64.
\<close>

definition int_of_float64 :: "rat \<Rightarrow> int" where
  "int_of_float64 d =
     (let t = (if 0 \<le> d then \<lfloor>d\<rfloor> else \<lceil>d\<rceil>)
      in if - (2 ^ 63) \<le> t \<and> t < 2 ^ 63 then t else - (2 ^ 63))"

text \<open>The loop over the elements of \<open>args\<close>: the strings, or the first element that is none.\<close>

fun parseArgs :: "json list \<Rightarrow> json + string list" where
  "parseArgs [] = Inr []"
| "parseArgs (JString argParsed # rest) =
     (case parseArgs rest of Inl arg \<Rightarrow> Inl arg | Inr targetArgs \<Rightarrow> Inr (argParsed # targetArgs))"
| "parseArgs (arg # rest) = Inl arg"

definition failedToLaunch :: "dap_Request \<Rightarrow> string \<Rightarrow> Server \<Rightarrow> Server" where
  "failedToLaunch request details s =
     sendErrorResponse request FailedToLaunch ''Failed to launch'' details s"

text \<open>The mode and the output path of a launch, with their defaults.\<close>

definition launchMode :: "(string \<rightharpoonup> json) \<Rightarrow> json" where
  "launchMode arguments =
     (case arguments ''mode'' of
        None \<Rightarrow> JString ''debug''
      | Some mode \<Rightarrow> if mode = JString [] then JString ''debug'' else mode)"

definition launchOutput :: "(string \<rightharpoonup> json) \<Rightarrow> string" where
  "launchOutput arguments =
     (case as_string (arguments ''output'') of
        None \<Rightarrow> debugBinary
      | Some output \<Rightarrow> if output = [] then debugBinary else output)"

text \<open>
  The build of modes debug and test: \<open>Inl\<close> is the session after the handler returned
  early, \<open>Inr\<close> the program to run and the session to go on with.
\<close>

definition launchBuild ::
  "world \<Rightarrow> dap_Request \<Rightarrow> (string \<rightharpoonup> json) \<Rightarrow> string \<Rightarrow> json \<Rightarrow> Server
     \<Rightarrow> Server + string \<times> Server" where
  "launchBuild w request arguments program mode s =
     (if mode = JString ''debug'' \<or> mode = JString ''test'' then
        (let output = launchOutput arguments
         in case filepath_Abs w output of
              Inl err \<Rightarrow> Inl (sendInternalErrorResponse (Seq request) (Error err) s)
            | Inr debugname \<Rightarrow>
                (case (case arguments ''buildFlags'' of
                         None \<Rightarrow> Inr []
                       | Some (JString flags) \<Rightarrow> Inr flags
                       | Some buildFlagsArg \<Rightarrow> Inl buildFlagsArg) of
                   Inl buildFlagsArg \<Rightarrow>
                     Inl (failedToLaunch request
                            ([CHR 0x27] @ ''buildFlags'' @ [CHR 0x27] @ '' attribute ''
                             @ [CHR 0x27] @ fmt_v w buildFlagsArg @ [CHR 0x27]
                             @ '' in debug configuration is not a string.'') s)
                 | Inr buildFlags \<Rightarrow>
                     (let s1 = effect (if mode = JString ''debug''
                                       then GoBuild debugname [program] buildFlags
                                       else GoTestBuild debugname [program] buildFlags) s;
                          err = (if mode = JString ''debug''
                                 then gobuild_GoBuild w debugname [program] buildFlags
                                 else gobuild_GoTestBuild w debugname [program] buildFlags)
                      in case err of
                           Some e \<Rightarrow> Inl (failedToLaunch request (''Build error: '' @ Error e) s1)
                         | None \<Rightarrow> Inr (debugname, s1\<lparr>binaryToRemove := debugname\<rparr>))))
      else Inr (program, s))"

text \<open>
  The engine is created last. \<open>debugger.New\<close> returns the engine and an error; the
  session's engine is assigned what it returns, nil when it fails.
\<close>

definition launchEngine ::
  "world \<Rightarrow> dap_Request \<Rightarrow> string \<Rightarrow> string list \<Rightarrow> Server \<Rightarrow> Server" where
  "launchEngine w request program targetArgs s =
     (let s1 = s\<lparr>config_ProcessArgs := program # targetArgs,
                 config_WorkingDir := filepath_Dir w program\<rparr>;
          s2 = effect (EngineNew (config_WorkingDir s1) (config_ProcessArgs s1)) s1
      in case debugger_New w (config_WorkingDir s1) (config_ProcessArgs s1) of
           Some err \<Rightarrow> failedToLaunch request (Error err) (s2\<lparr>debugger := None\<rparr>)
         | None \<Rightarrow>
             send (LaunchResponse (newResponse request))
               (send InitializedEvent
                  (s2\<lparr>debugger := Some \<lparr>dbg_WorkingDir = config_WorkingDir s1,
                                        dbg_ProcessArgs = config_ProcessArgs s1\<rparr>\<rparr>)))"

definition launchOptions :: "(string \<rightharpoonup> json) \<Rightarrow> launchAttachArgs \<Rightarrow> launchAttachArgs" where
  "launchOptions arguments a =
     (let a1 = (case as_bool (arguments ''stopOnEntry'') of
                  Some stop \<Rightarrow> a\<lparr>stopOnEntry := stop\<rparr> | None \<Rightarrow> a);
          a2 = (case as_float64 (arguments ''stackTraceDepth'') of
                  Some depth \<Rightarrow>
                    if depth > 0 then a1\<lparr>stackTraceDepth := int_of_float64 depth\<rparr> else a1
                | None \<Rightarrow> a1)
      in case as_bool (arguments ''showGlobalVariables'') of
           Some globals \<Rightarrow> a2\<lparr>showGlobalVariables := globals\<rparr> | None \<Rightarrow> a2)"

definition launchStart ::
  "world \<Rightarrow> dap_Request \<Rightarrow> (string \<rightharpoonup> json) \<Rightarrow> string \<Rightarrow> json \<Rightarrow> Server \<Rightarrow> Server" where
  "launchStart w request arguments program mode s =
     (if mode \<noteq> JString ''exec'' \<and> mode \<noteq> JString ''debug'' \<and> mode \<noteq> JString ''test'' then
        failedToLaunch request
          (''Unsupported '' @ [CHR 0x27] @ ''mode'' @ [CHR 0x27] @ '' value '' @ fmt_qv w mode
           @ '' in debug configuration.'') s
      else
        (let s1 = s\<lparr>args := launchOptions arguments (args s)\<rparr>
         in case arguments ''args'' of
              None \<Rightarrow> launchEngine w request program [] s1
            | Some (JArray argsParsed) \<Rightarrow>
                (case parseArgs argsParsed of
                   Inl arg \<Rightarrow>
                     failedToLaunch request
                       (''value '' @ [CHR 0x27] @ fmt_v w arg @ [CHR 0x27] @ '' in ''
                        @ [CHR 0x27] @ ''args'' @ [CHR 0x27]
                        @ '' attribute in debug configuration is not a string.'') s1
                 | Inr targetArgs \<Rightarrow> launchEngine w request program targetArgs s1)
            | Some a \<Rightarrow>
                failedToLaunch request
                  ([CHR 0x27] @ ''args'' @ [CHR 0x27] @ '' attribute '' @ [CHR 0x27]
                   @ fmt_v w a @ [CHR 0x27] @ '' in debug configuration is not an array.'') s1))"

definition onLaunchRequest ::
  "world \<Rightarrow> dap_Request \<Rightarrow> (string \<rightharpoonup> json) \<Rightarrow> Server \<Rightarrow> Server" where
  "onLaunchRequest w request arguments s =
     (case as_string (arguments ''program'') of
        None \<Rightarrow>
          failedToLaunch request ''The program attribute is missing in debug configuration.'' s
      | Some program \<Rightarrow>
          if program = [] then
            failedToLaunch request ''The program attribute is missing in debug configuration.'' s
          else
            (let mode = launchMode arguments
             in case launchBuild w request arguments program mode s of
                  Inl s' \<Rightarrow> s'
                | Inr (program', s1) \<Rightarrow> launchStart w request arguments program' mode s1))"

subsection \<open>onSetBreakpointsRequest and onThreadsRequest\<close>

text \<open>
  Clearing and creating a breakpoint are queries to the engine; their answers are in
  the world, and they leave the session as it is.
\<close>

fun clearExisting :: "world \<Rightarrow> string \<Rightarrow> api_Breakpoint list \<Rightarrow> error option" where
  "clearExisting w path [] = None"
| "clearExisting w path (bp # existing) =
     (if abp_ID bp < 0 then clearExisting w path existing
      else if abp_File bp \<noteq> path then clearExisting w path existing
      else (case debugger_ClearBreakpoint w bp of
              Some err \<Rightarrow> Some err
            | None \<Rightarrow> clearExisting w path existing))"

fun setRequested :: "world \<Rightarrow> string \<Rightarrow> nat \<Rightarrow> SourceBreakpoint list \<Rightarrow> dap_Breakpoint list" where
  "setRequested w path i [] = []"
| "setRequested w path i (want # rest) =
     (case debugger_CreateBreakpoint w i
             \<lparr>abp_ID = 0, abp_File = path, abp_Line = sbp_Line want,
              abp_Cond = sbp_Condition want\<rparr> of
        Inl err \<Rightarrow> \<lparr>bp_Verified = False, bp_Line = sbp_Line want, bp_Message = Error err\<rparr>
      | Inr got \<Rightarrow> \<lparr>bp_Verified = True, bp_Line = abp_Line got, bp_Message = []\<rparr>)
     # setRequested w path (Suc i) rest"

definition onSetBreakpointsRequest ::
  "world \<Rightarrow> dap_Request \<Rightarrow> string \<Rightarrow> SourceBreakpoint list \<Rightarrow> Server
     \<Rightarrow> (panic + unit) \<times> Server" where
  "onSetBreakpointsRequest w request path breakpoints s =
     (if path = [] then
        (Inr (), sendErrorResponse request UnableToSetBreakpoints
                   ''Unable to set or clear breakpoints'' ''empty file path'' s)
      else if debugger s = None then (Inl nilPointer, s)
      else
        (case clearExisting w path (debugger_Breakpoints w) of
           Some err \<Rightarrow>
             (Inr (), sendErrorResponse request UnableToSetBreakpoints
                        ''Unable to set or clear breakpoints'' (Error err) s)
         | None \<Rightarrow>
             (Inr (), send (SetBreakpointsResponse (newResponse request)
                              (setRequested w path 0 breakpoints)) s)))"

definition threadOf :: "Goroutine \<Rightarrow> dap_Thread" where
  "threadOf g =
     (let loc = UserCurrent g
      in \<lparr>th_Id = ID g,
          th_Name = (case Fn loc of
                       Some name \<Rightarrow> name
                     | None \<Rightarrow> File loc @ ''@'' @ fmt_d (Line loc))\<rparr>)"

definition onThreadsRequest :: "world \<Rightarrow> dap_Request \<Rightarrow> Server \<Rightarrow> Server" where
  "onThreadsRequest w request s =
     (if debugger s = None then
        sendErrorResponse request UnableToDisplayThreads ''Unable to display threads''
          ''debugger is nil'' s
      else
        (case debugger_Goroutines w of
           Inl (ErrProcessExitedPtr m) \<Rightarrow> send (ThreadsResponse (newResponse request) []) s
         | Inl err \<Rightarrow>
             sendErrorResponse request UnableToDisplayThreads ''Unable to display threads''
               (Error err) s
         | Inr gs \<Rightarrow>
             send (ThreadsResponse (newResponse request)
                     (if length gs = 0 then [\<lparr>th_Id = 1, th_Name = ''Dummy''\<rparr>]
                      else map threadOf gs)) s))"

subsection \<open>onStackTraceRequest\<close>

text \<open>The loop over the frames, from index \<open>i\<close> on: each frame takes a fresh handle.\<close>

definition noSource :: dap_Source where
  "noSource = \<lparr>src_Name = [], src_Path = []\<rparr>"

fun convertFrames ::
  "world \<Rightarrow> int \<Rightarrow> int \<Rightarrow> Stackframe list \<Rightarrow> stackFrame handlesMap
     \<Rightarrow> dap_StackFrame list \<times> stackFrame handlesMap" where
  "convertFrames w goroutine i [] hs = ([], hs)"
| "convertFrames w goroutine i (frame # frames) hs =
     (let loc = Call frame;
          (uniqueStackFrameID, hs1) = create \<lparr>goroutineID = goroutine, frameIndex = i\<rparr> hs;
          f = \<lparr>sf_Id = uniqueStackFrameID,
               sf_Name = (case Fn loc of None \<Rightarrow> ''???'' | Some name \<Rightarrow> name),
               sf_Source = (if File loc \<noteq> ''<autogenerated>''
                            then \<lparr>src_Name = filepath_Base w (File loc), src_Path = File loc\<rparr>
                            else noSource),
               sf_Line = Line loc,
               sf_Column = 0\<rparr>;
          (rest, hs2) = convertFrames w goroutine (i + 1) frames hs1
      in (f # rest, hs2))"

definition paginate :: "int \<Rightarrow> int \<Rightarrow> 'a list \<Rightarrow> 'a list" where
  "paginate startFrame levels stackFrames =
     (let fs1 = (if startFrame > 0
                 then drop (nat (min startFrame (int (length stackFrames)))) stackFrames
                 else stackFrames)
      in if levels > 0 then take (nat (min levels (int (length fs1)))) fs1 else fs1)"

definition onStackTraceRequest ::
  "world \<Rightarrow> dap_Request \<Rightarrow> int \<Rightarrow> int \<Rightarrow> int \<Rightarrow> Server \<Rightarrow> (panic + unit) \<times> Server" where
  "onStackTraceRequest w request threadId startFrame levels s =
     (if debugger s = None then (Inl nilPointer, s)
      else
        (case debugger_Stacktrace w threadId (stackTraceDepth (args s)) of
           Inl err \<Rightarrow>
             (Inr (), sendErrorResponse request UnableToProduceStackTrace
                        ''Unable to produce stack trace'' (Error err) s)
         | Inr frames \<Rightarrow>
             (let (stackFrames, hs) = convertFrames w threadId 0 frames (stackFrameHandles s)
              in (Inr (),
                  send (StackTraceResponse (newResponse request)
                          (paginate startFrame levels stackFrames) (int (length frames)))
                    (s\<lparr>stackFrameHandles := hs\<rparr>)))))"

subsection \<open>onScopesRequest\<close>

definition strings_TrimPrefix :: "string \<Rightarrow> string \<Rightarrow> string" where
  "strings_TrimPrefix str pre =
     (if take (length pre) str = pre then drop (length pre) str else str)"

definition scopeVariable :: "string \<Rightarrow> Variable list \<Rightarrow> Variable" where
  "scopeVariable name vars = set_Children vars (set_Name name zeroVariable)"

definition onScopesRequest ::
  "world \<Rightarrow> dap_Request \<Rightarrow> int \<Rightarrow> Server \<Rightarrow> (panic + unit) \<times> Server" where
  "onScopesRequest w request frameId s =
     (case get (stackFrameHandles s) frameId of
        None \<Rightarrow>
          (Inr (), sendErrorResponse request UnableToListLocals ''Unable to list locals''
                     (''unknown frame id '' @ fmt_d frameId) s)
      | Some sf \<Rightarrow>
          if debugger s = None then (Inl nilPointer, s)
          else
            (case debugger_FunctionArguments w (goroutineID sf) (frameIndex sf) of
               Inl err \<Rightarrow>
                 (Inr (), sendErrorResponse request UnableToListArgs ''Unable to list args''
                            (Error err) s)
             | Inr arguments \<Rightarrow>
            (case debugger_LocalVariables w (goroutineID sf) (frameIndex sf) of
               Inl err \<Rightarrow>
                 (Inr (), sendErrorResponse request UnableToListLocals ''Unable to list locals''
                            (Error err) s)
             | Inr locals \<Rightarrow>
                 (let argScope = scopeVariable ''Arguments'' arguments;
                      locScope = scopeVariable ''Locals'' locals;
                      (argRef, vh1) = create argScope (variableHandles s);
                      (locRef, vh2) = create locScope vh1;
                      scopes = [\<lparr>sc_Name = Name argScope, sc_VariablesReference = argRef\<rparr>,
                                \<lparr>sc_Name = Name locScope, sc_VariablesReference = locRef\<rparr>];
                      s1 = s\<lparr>variableHandles := vh2\<rparr>
                  in if showGlobalVariables (args s1) then
                       (case debugger_CurrentPackage w of
                          Inl err \<Rightarrow>
                            (Inr (), sendErrorResponse request UnableToListGlobals
                                       ''Unable to list globals'' (Error err) s1)
                        | Inr currPkg \<Rightarrow>
                       (case debugger_PackageVariables w (''^'' @ currPkg @ [CHR 0x5C] @ ''.'') of
                          Inl err \<Rightarrow>
                            (Inr (), sendErrorResponse request UnableToListGlobals
                                       ''Unable to list globals'' (Error err) s1)
                        | Inr globals \<Rightarrow>
                            (let globScope =
                                   scopeVariable (''Globals (package '' @ currPkg @ '')'')
                                     (map (\<lambda>g. set_Name (strings_TrimPrefix (Name g)
                                                            (currPkg @ ''.'')) g) globals);
                                 (globRef, vh3) = create globScope (variableHandles s1)
                             in (Inr (),
                                 send (ScopesResponse (newResponse request)
                                         (scopes @ [\<lparr>sc_Name = Name globScope,
                                                     sc_VariablesReference = globRef\<rparr>]))
                                   (s1\<lparr>variableHandles := vh3\<rparr>)))))
                     else (Inr (), send (ScopesResponse (newResponse request) scopes) s1)))))"

subsection \<open>onVariablesRequest\<close>

text \<open>
  The loop over the children of a map, two at a time, from pair \<open>kvIndex\<close> on. With an
  odd number of children the source reads past the end of the slice after it converted
  the last key, and panics.
\<close>

fun mapChildren ::
  "ext \<Rightarrow> int \<Rightarrow> Variable list \<Rightarrow> Variable handlesMap
     \<Rightarrow> (panic + dap_Variable list) \<times> Variable handlesMap" where
  "mapChildren x kvIndex [] hs = (Inr [], hs)"
| "mapChildren x kvIndex [k] hs =
     (case convertVariable x k hs of
        (Inl p, hs1) \<Rightarrow> (Inl p, hs1)
      | (Inr (key, keyref), hs1) \<Rightarrow> (Inl (Panic ''runtime error: index out of range''), hs1))"
| "mapChildren x kvIndex (k # v # rest) hs =
     (case convertVariable x k hs of
        (Inl p, hs1) \<Rightarrow> (Inl p, hs1)
      | (Inr (key, keyref), hs1) \<Rightarrow>
     (case convertVariable x v hs1 of
        (Inl p, hs2) \<Rightarrow> (Inl p, hs2)
      | (Inr (val, valref), hs2) \<Rightarrow>
          (let entries =
                 (if keyref > 0 \<and> valref > 0 then
                    [\<lparr>var_Name = ''[key '' @ fmt_d kvIndex @ '']'', var_Value = key,
                      var_VariablesReference = keyref\<rparr>,
                     \<lparr>var_Name = ''[val '' @ fmt_d kvIndex @ '']'', var_Value = val,
                      var_VariablesReference = valref\<rparr>]
                  else
                    (let kvvar = \<lparr>var_Name = key, var_Value = val, var_VariablesReference = 0\<rparr>
                     in if keyref \<noteq> 0 then
                          [kvvar\<lparr>var_Name := var_Name kvvar @ ''['' @ fmt_d kvIndex @ '']'',
                                 var_VariablesReference := keyref\<rparr>]
                        else if valref \<noteq> 0 then [kvvar\<lparr>var_VariablesReference := valref\<rparr>]
                        else [kvvar]))
           in case mapChildren x (kvIndex + 1) rest hs2 of
                (Inl p, hs3) \<Rightarrow> (Inl p, hs3)
              | (Inr children, hs3) \<Rightarrow> (Inr (entries @ children), hs3))))"

text \<open>The loop over the children of a slice or an array, named by their index.\<close>

fun indexedChildren ::
  "ext \<Rightarrow> int \<Rightarrow> Variable list \<Rightarrow> Variable handlesMap
     \<Rightarrow> (panic + dap_Variable list) \<times> Variable handlesMap" where
  "indexedChildren x i [] hs = (Inr [], hs)"
| "indexedChildren x i (c # rest) hs =
     (case convertVariable x c hs of
        (Inl p, hs1) \<Rightarrow> (Inl p, hs1)
      | (Inr (val, varref), hs1) \<Rightarrow>
          (case indexedChildren x (i + 1) rest hs1 of
             (Inl p, hs2) \<Rightarrow> (Inl p, hs2)
           | (Inr children, hs2) \<Rightarrow>
               (Inr (\<lparr>var_Name = ''['' @ fmt_d i @ '']'', var_Value = val,
                      var_VariablesReference = varref\<rparr> # children), hs2)))"

text \<open>The loop over the children of any other value, named by their own name.\<close>

fun namedChildren ::
  "ext \<Rightarrow> Variable list \<Rightarrow> Variable handlesMap
     \<Rightarrow> (panic + dap_Variable list) \<times> Variable handlesMap" where
  "namedChildren x [] hs = (Inr [], hs)"
| "namedChildren x (c # rest) hs =
     (case convertVariable x c hs of
        (Inl p, hs1) \<Rightarrow> (Inl p, hs1)
      | (Inr (val, variablesReference), hs1) \<Rightarrow>
          (case namedChildren x rest hs1 of
             (Inl p, hs2) \<Rightarrow> (Inl p, hs2)
           | (Inr children, hs2) \<Rightarrow>
               (Inr (\<lparr>var_Name = Name c, var_Value = val,
                      var_VariablesReference = variablesReference\<rparr> # children), hs2)))"

definition listChildren ::
  "ext \<Rightarrow> Variable \<Rightarrow> Variable handlesMap
     \<Rightarrow> (panic + dap_Variable list) \<times> Variable handlesMap" where
  "listChildren x v hs =
     (if Kind v = reflect_Map then mapChildren x 0 (Children v) hs
      else if Kind v = reflect_Slice \<or> Kind v = reflect_Array
      then indexedChildren x 0 (Children v) hs
      else namedChildren x (Children v) hs)"

definition onVariablesRequest ::
  "world \<Rightarrow> dap_Request \<Rightarrow> int \<Rightarrow> Server \<Rightarrow> (panic + unit) \<times> Server" where
  "onVariablesRequest w request variablesReference s =
     (case get (variableHandles s) variablesReference of
        None \<Rightarrow>
          (Inr (), sendErrorResponse request UnableToLookupVariable ''Unable to lookup variable''
                     (''unknown reference '' @ fmt_d variablesReference) s)
      | Some v \<Rightarrow>
          (case listChildren (externals w) v (variableHandles s) of
             (Inl p, hs) \<Rightarrow> (Inl p, s\<lparr>variableHandles := hs\<rparr>)
           | (Inr children, hs) \<Rightarrow>
               (Inr (), send (VariablesResponse (newResponse request) children)
                          (s\<lparr>variableHandles := hs\<rparr>))))"

subsection \<open>handleRequest and the serve loop\<close>

text \<open>
  The requests, by the handler that \<open>handleRequest\<close> dispatches them to. The requests
  answered through \<open>sendNotYetImplementedErrorResponse\<close> (attach, terminate, restart,
  setFunctionBreakpoints, stepBack, reverseContinue, pause, setVariable, setExpression,
  evaluate, loadedSources, readMemory, disassemble, cancel) are \<open>NotYetImplementedRequest\<close>,
  the ones answered through \<open>sendUnsupportedErrorResponse\<close> (restartFrame, goto, source,
  terminateThreads, stepInTargets, gotoTargets, completions, exceptionInfo,
  dataBreakpointInfo, setDataBreakpoints, breakpointLocations, modules) are
  \<open>UnsupportedRequest\<close>, and a message of any other type is \<open>OtherMessage\<close>, with
  its sequence number and its rendering by the verb \<open>%#v\<close>.
\<close>

datatype request =
    InitializeRequest dap_Request
  | LaunchRequest dap_Request "string \<rightharpoonup> json"
  | DisconnectRequest dap_Request
  | SetBreakpointsRequest dap_Request string "SourceBreakpoint list"
  | SetExceptionBreakpointsRequest dap_Request
  | ConfigurationDoneRequest dap_Request
  | ContinueRequest dap_Request
  | NextRequest dap_Request
  | StepInRequest dap_Request
  | StepOutRequest dap_Request
  | ThreadsRequest dap_Request
  | StackTraceRequest dap_Request int int int
  | ScopesRequest dap_Request int
  | VariablesRequest dap_Request int
  | NotYetImplementedRequest dap_Request
  | UnsupportedRequest dap_Request
  | OtherMessage int string

fun GetSeq :: "request \<Rightarrow> int" where
  "GetSeq (InitializeRequest r) = Seq r"
| "GetSeq (LaunchRequest r a) = Seq r"
| "GetSeq (DisconnectRequest r) = Seq r"
| "GetSeq (SetBreakpointsRequest r p b) = Seq r"
| "GetSeq (SetExceptionBreakpointsRequest r) = Seq r"
| "GetSeq (ConfigurationDoneRequest r) = Seq r"
| "GetSeq (ContinueRequest r) = Seq r"
| "GetSeq (NextRequest r) = Seq r"
| "GetSeq (StepInRequest r) = Seq r"
| "GetSeq (StepOutRequest r) = Seq r"
| "GetSeq (ThreadsRequest r) = Seq r"
| "GetSeq (StackTraceRequest r t f l) = Seq r"
| "GetSeq (ScopesRequest r f) = Seq r"
| "GetSeq (VariablesRequest r v) = Seq r"
| "GetSeq (NotYetImplementedRequest r) = Seq r"
| "GetSeq (UnsupportedRequest r) = Seq r"
| "GetSeq (OtherMessage seq rendering) = seq"

fun dispatch :: "world \<Rightarrow> request \<Rightarrow> Server \<Rightarrow> (panic + unit) \<times> Server" where
  "dispatch w (InitializeRequest r) s = (Inr (), onInitializeRequest r s)"
| "dispatch w (LaunchRequest r a) s = (Inr (), onLaunchRequest w r a s)"
| "dispatch w (DisconnectRequest r) s = onDisconnectRequest r s"
| "dispatch w (SetBreakpointsRequest r p b) s = onSetBreakpointsRequest w r p b s"
| "dispatch w (SetExceptionBreakpointsRequest r) s =
     (Inr (), onSetExceptionBreakpointsRequest r s)"
| "dispatch w (ConfigurationDoneRequest r) s = onConfigurationDoneRequest w r s"
| "dispatch w (ContinueRequest r) s = onContinueRequest w r s"
| "dispatch w (NextRequest r) s = onNextRequest w r s"
| "dispatch w (StepInRequest r) s = onStepInRequest w r s"
| "dispatch w (StepOutRequest r) s = onStepOutRequest w r s"
| "dispatch w (ThreadsRequest r) s = (Inr (), onThreadsRequest w r s)"
| "dispatch w (StackTraceRequest r t f l) s = onStackTraceRequest w r t f l s"
| "dispatch w (ScopesRequest r f) s = onScopesRequest w r f s"
| "dispatch w (VariablesRequest r v) s = onVariablesRequest w r v s"
| "dispatch w (NotYetImplementedRequest r) s =
     (Inr (), sendNotYetImplementedErrorResponse r s)"
| "dispatch w (UnsupportedRequest r) s = (Inr (), sendUnsupportedErrorResponse r s)"
| "dispatch w (OtherMessage seq rendering) s =
     (Inr (), sendInternalErrorResponse seq (''Unable to process '' @ rendering @ [CHR 0x0A]) s)"

text \<open>A panic of a handler is recovered and answered with an internal error.\<close>

definition handleRequest :: "world \<Rightarrow> request \<Rightarrow> Server \<Rightarrow> Server" where
  "handleRequest w request s =
     (case dispatch w request s of
        (Inl (Panic ierr), s') \<Rightarrow> sendInternalErrorResponse (GetSeq request) ierr s'
      | (Inr u, s') \<Rightarrow> s')"

text \<open>
  The requests read from the connection until the read fails, each with the answers of
  the world while it is handled; then the deferred \<open>signalDisconnect\<close>.
\<close>

fun handleAll :: "(world \<times> request) list \<Rightarrow> Server \<Rightarrow> Server" where
  "handleAll [] s = s"
| "handleAll ((w, request) # rest) s = handleAll rest (handleRequest w request s)"

definition serveDAPCodec :: "(world \<times> request) list \<Rightarrow> Server \<Rightarrow> (panic + unit) \<times> Server" where
  "serveDAPCodec requests s = signalDisconnect (handleAll requests s)"

declare decDigits.simps [simp del]
declare hexDigits.simps [simp del]

text \<open>The creations of an engine among the effects.\<close>

fun isEngineNew :: "effect \<Rightarrow> bool" where
  "isEngineNew (EngineNew dir processArgs) = True"
| "isEngineNew _ = False"

definition sameEngine :: "Server \<Rightarrow> Server \<Rightarrow> bool" where
  "sameEngine s s1 \<longleftrightarrow>
     debugger s1 = debugger s
     \<and> filter isEngineNew (trace s1) = filter isEngineNew (trace s)"

text \<open>
  The two outcomes of a conversion on the registry: it is left as it was, and a
  reference returned is zero; or one snapshot was registered, and its handle returned.
\<close>

definition grows ::
  "'a handlesMap \<Rightarrow> (panic + string \<times> int) \<times> 'a handlesMap \<Rightarrow> bool" where
  "grows hs r \<longleftrightarrow>
     (snd r = hs \<and> (\<forall>val ref. fst r = Inr (val, ref) \<longrightarrow> ref = 0))
     \<or> (\<exists>val v'. r = (Inr (val, fst (create v' hs)), snd (create v' hs)))"

subsection \<open>The registries along a session\<close>

text \<open>
  A registry extends another one when it satisfies the invariant and resolves every
  handle of the other one to the same payload. The requests that run a command through
  \<open>doCommand\<close> are the four execution requests and, without stop-on-entry,
  \<open>configurationDone\<close>; a request stops when an engine is attached and the command it
  runs does not end in the exit of the process. A list of requests is quiet when none of
  them stops in the state it is handled in.
\<close>

definition extends :: "'a handlesMap \<Rightarrow> 'a handlesMap \<Rightarrow> bool" where
  "extends hs hs' \<longleftrightarrow>
     handles_ok hs' \<and> (\<forall>h p. get hs h = Some p \<longrightarrow> get hs' h = Some p)"

definition registries_ok :: "Server \<Rightarrow> bool" where
  "registries_ok s \<longleftrightarrow> handles_ok (stackFrameHandles s) \<and> handles_ok (variableHandles s)"

definition keeps :: "Server \<Rightarrow> Server \<Rightarrow> bool" where
  "keeps s s' \<longleftrightarrow>
     extends (stackFrameHandles s) (stackFrameHandles s')
     \<and> extends (variableHandles s) (variableHandles s')"

fun commandOf :: "request \<Rightarrow> Server \<Rightarrow> string option" where
  "commandOf (ConfigurationDoneRequest r) s =
     (if stopOnEntry (args s) then None else Some api_Continue)"
| "commandOf (ContinueRequest r) s = Some api_Continue"
| "commandOf (NextRequest r) s = Some api_Next"
| "commandOf (StepInRequest r) s = Some api_Step"
| "commandOf (StepOutRequest r) s = Some api_StepOut"
| "commandOf _ s = None"

definition stops :: "world \<Rightarrow> request \<Rightarrow> Server \<Rightarrow> bool" where
  "stops w request s \<longleftrightarrow>
     debugger s \<noteq> None
     \<and> (case commandOf request s of
           None \<Rightarrow> False
         | Some command \<Rightarrow> \<not> isexited (debugger_Command w command))"

fun quiet :: "(world \<times> request) list \<Rightarrow> Server \<Rightarrow> bool" where
  "quiet [] s = True"
| "quiet ((w, request) # rest) s =
     (\<not> stops w request s \<and> quiet rest (handleRequest w request s))"

definition sameHandles :: "Server \<Rightarrow> Server \<Rightarrow> bool" where
  "sameHandles s s' \<longleftrightarrow>
     stackFrameHandles s' = stackFrameHandles s \<and> variableHandles s' = variableHandles s"

subsection \<open>Teardown, from both flows\<close>

text \<open>The closings of channels among the effects of a session.\<close>

fun isChanClosed :: "effect \<Rightarrow> bool" where
  "isChanClosed (ChanClosed c) = True"
| "isChanClosed _ = False"

definition closes :: "Server \<Rightarrow> effect list" where
  "closes s = filter isChanClosed (trace s)"

text \<open>
  The calls that tear a session down, from either flow, in the order they happen: the
  owner's \<open>Stop\<close>; a call of \<open>signalDisconnect\<close> (the deferred one of
  \<open>serveDAPCodec\<close>, or the one of \<open>Run\<close> when accept fails); and a request handled
  by the serve flow, a disconnect request among them. A panic ends the run.
\<close>

datatype teardown = CallStop | CallSignalDisconnect | Serve world request

fun teardownAll :: "teardown list \<Rightarrow> Server \<Rightarrow> (panic + unit) \<times> Server" where
  "teardownAll [] s = (Inr (), s)"
| "teardownAll (CallStop # rest) s =
     (case Stop s of (Inl p, s') \<Rightarrow> (Inl p, s') | (Inr u, s') \<Rightarrow> teardownAll rest s')"
| "teardownAll (CallSignalDisconnect # rest) s =
     (case signalDisconnect s of
        (Inl p, s') \<Rightarrow> (Inl p, s') | (Inr u, s') \<Rightarrow> teardownAll rest s')"
| "teardownAll (Serve w request # rest) s = teardownAll rest (handleRequest w request s)"

text \<open>
  The channels of a session: a step leaves them alone, or closes the disconnect channel,
  open until then, and forgets it. The invariant: the disconnect channel the session
  still holds is open and is not the stop channel, and no channel was closed twice.
\<close>

definition sameChans :: "Server \<Rightarrow> Server \<Rightarrow> bool" where
  "sameChans s s' \<longleftrightarrow>
     stopChan s' = stopChan s \<and> config_DisconnectChan s' = config_DisconnectChan s
     \<and> closes s' = closes s"

definition chanStep :: "Server \<Rightarrow> Server \<Rightarrow> bool" where
  "chanStep s s' \<longleftrightarrow>
     sameChans s s'
     \<or> (\<exists>c. config_DisconnectChan s = Some c \<and> ChanClosed c \<notin> set (closes s)
            \<and> stopChan s' = stopChan s \<and> config_DisconnectChan s' = None
            \<and> closes s' = closes s @ [ChanClosed c])"

definition open_ok :: "Server \<Rightarrow> bool" where
  "open_ok s \<longleftrightarrow>
     (\<forall>c. config_DisconnectChan s = Some c
           \<longrightarrow> c \<noteq> stopChan s \<and> ChanClosed c \<notin> set (closes s))
     \<and> distinct (closes s)"

section \<open>Sample inputs\<close>

text \<open>Concrete values at which the theorems below are evaluated.\<close>

definition ext0 :: ext where
  "ext0 =
     \<lparr>PrettyTypeName = (\<lambda>t. case t of None \<Rightarrow> [] | Some n \<Rightarrow> n),
      VariableValueAsString =
        (\<lambda>v. case Value v of Some (intVal i) \<Rightarrow> fmt_d i | _ \<Rightarrow> []),
      TypeString = (\<lambda>v. []),
      fmt_q = (\<lambda>str. [CHR 0x22] @ str @ [CHR 0x22])\<rparr>"

definition sample_nil_slice :: Variable where
  "sample_nil_slice = Variable ''s'' 49152 (Some ''[]int'') reflect_Slice None 0 0 0 [] None"

definition sample_nil_chan :: Variable where
  "sample_nil_chan = Variable ''ch'' 49168 (Some ''chan int'') reflect_Chan None 0 0 0 [] None"

definition sample_complex :: Variable where
  "sample_complex =
     Variable ''c'' 49160 (Some ''complex128'') reflect_Complex128
       (Some (complexVal (floatVal 1) (floatVal 2))) 0 0 0 [] None"

definition sample_string :: Variable where
  "sample_string =
     Variable ''str'' 49176 (Some ''string'') reflect_String (Some (stringVal ''abc'')) 10 0 49200
       [] None"

definition state0 :: DebuggerState where
  "state0 = \<lparr>Exited = False, SelectedGoroutine = Some 1, CurrentThread = Some 1\<rparr>"

definition world0 :: world where
  "world0 =
     \<lparr>externals = ext0,
      debugger_New = (\<lambda>dir processArgs. None),
      debugger_Command = (\<lambda>command. Inr state0),
      debugger_State = Inr state0,
      debugger_Detach = (\<lambda>kill. None),
      debugger_Goroutines = Inr [],
      debugger_Stacktrace = (\<lambda>goroutine depth.
         Inr [\<lparr>Call = \<lparr>File = ''main.go'', Line = 7, Fn = None\<rparr>\<rparr>,
              \<lparr>Call = \<lparr>File = ''<autogenerated>'', Line = 1, Fn = Some ''main.init''\<rparr>\<rparr>]),
      debugger_FunctionArguments = (\<lambda>goroutine frame. Inr []),
      debugger_LocalVariables = (\<lambda>goroutine frame. Inr []),
      debugger_CurrentPackage = Inr ''main'',
      debugger_PackageVariables = (\<lambda>filter. Inr []),
      debugger_Breakpoints = [],
      debugger_ClearBreakpoint = (\<lambda>bp. None),
      debugger_CreateBreakpoint = (\<lambda>i bp. Inr bp),
      gobuild_GoBuild = (\<lambda>debugname pkgs buildFlags. None),
      gobuild_GoTestBuild = (\<lambda>debugname pkgs buildFlags. None),
      filepath_Abs = (\<lambda>path. Inr (''/work/'' @ path)),
      filepath_Dir = (\<lambda>path. ''/work''),
      filepath_Base = (\<lambda>path. path),
      fmt_v = (\<lambda>j. ''?''),
      fmt_qv = (\<lambda>j. ''?'')\<rparr>"

definition server0 :: Server where
  "server0 = (NewServer (Some 3) 0 4)\<lparr>conn := True\<rparr>"

definition request0 :: dap_Request where
  "request0 = \<lparr>Seq = 3, Command = ''launch''\<rparr>"

definition launch_no_program :: "string \<rightharpoonup> json" where
  "launch_no_program = [''mode'' \<mapsto> JString ''exec'']"

definition launch_bad_stopOnEntry :: "string \<rightharpoonup> json" where
  "launch_bad_stopOnEntry =
     [''program'' \<mapsto> JString ''/work/prog'', ''mode'' \<mapsto> JString ''exec'',
      ''stopOnEntry'' \<mapsto> JString ''true'']"

definition launch_bad_args :: "string \<rightharpoonup> json" where
  "launch_bad_args =
     [''program'' \<mapsto> JString ''/work/prog'', ''mode'' \<mapsto> JString ''exec'',
      ''args'' \<mapsto> JArray [JString ''-v'', JNumber 1]]"

definition debugger0 :: Debugger where
  "debugger0 = \<lparr>dbg_WorkingDir = ''/work'', dbg_ProcessArgs = [''/work/prog'']\<rparr>"

definition server1 :: Server where
  "server1 = server0\<lparr>debugger := Some debugger0\<rparr>"

definition request1 :: dap_Request where
  "request1 = \<lparr>Seq = 7, Command = ''stackTrace''\<rparr>"

definition request2 :: dap_Request where
  "request2 = \<lparr>Seq = 5, Command = ''configurationDone''\<rparr>"

definition request3 :: dap_Request where
  "request3 = \<lparr>Seq = 9, Command = ''variables''\<rparr>"

definition sample_int :: "int \<Rightarrow> Variable" where
  "sample_int i = Variable [] 49300 (Some ''int'') reflect_Int (Some (intVal i)) 0 0 0 [] None"

definition sample_str :: "string \<Rightarrow> Variable" where
  "sample_str str =
     Variable [] 49400 (Some ''string'') reflect_String (Some (stringVal str))
       (word_of_nat (length str)) 0 49500 [] None"

definition sample_map :: Variable where
  "sample_map =
     Variable ''m'' 49600 (Some ''map[int]string'') reflect_Map None 2 0 49700
       [sample_int 1, sample_str ''a'', sample_int 2, sample_str ''b''] None"

definition server2 :: Server where
  "server2 = server1\<lparr>variableHandles := snd (create sample_map newHandlesMap)\<rparr>"

definition request4 :: dap_Request where
  "request4 = \<lparr>Seq = 11, Command = ''threads''\<rparr>"

definition launch_exec :: "string \<rightharpoonup> json" where
  "launch_exec = [''program'' \<mapsto> JString ''/work/prog'', ''mode'' \<mapsto> JString ''exec'']"

definition history1 :: "(world \<times> request) list" where
  "history1 =
     [(world0, LaunchRequest request0 launch_exec),
      (world0, StackTraceRequest request1 1 0 0)]"

definition session1 :: Server where
  "session1 = handleAll history1 (NewServer (Some 3) 0 4)"

definition request5 :: dap_Request where
  "request5 = \<lparr>Seq = 13, Command = ''disconnect''\<rparr>"

definition teardown1 :: "teardown list" where
  "teardown1 =
     [Serve world0 (DisconnectRequest request5), CallSignalDisconnect, CallStop,
      CallSignalDisconnect]"

section \<open>What sending and resetting leave alone\<close>

lemma effect_fields [simp]:
  "trace (effect e s) = trace s @ [e]"
  "debugger (effect e s) = debugger s"
  "args (effect e s) = args s"
  "stackFrameHandles (effect e s) = stackFrameHandles s"
  "variableHandles (effect e s) = variableHandles s"
  "config_DisconnectChan (effect e s) = config_DisconnectChan s"
  "config_AttachPid (effect e s) = config_AttachPid s"
  "binaryToRemove (effect e s) = binaryToRemove s"
  "stopChan (effect e s) = stopChan s"
  "conn (effect e s) = conn s"
  by (simp_all add: effect_def)

lemma send_fields [simp]:
  "trace (send m s) = trace s @ [Sent m]"
  "debugger (send m s) = debugger s"
  "args (send m s) = args s"
  "stackFrameHandles (send m s) = stackFrameHandles s"
  "variableHandles (send m s) = variableHandles s"
  "config_DisconnectChan (send m s) = config_DisconnectChan s"
  "config_AttachPid (send m s) = config_AttachPid s"
  "binaryToRemove (send m s) = binaryToRemove s"
  "stopChan (send m s) = stopChan s"
  "conn (send m s) = conn s"
  by (simp_all add: send_def)

lemma resetHandles_fields [simp]:
  "trace (resetHandles s) = trace s"
  "debugger (resetHandles s) = debugger s"
  "args (resetHandles s) = args s"
  "stackFrameHandles (resetHandles s) = reset (stackFrameHandles s)"
  "variableHandles (resetHandles s) = reset (variableHandles s)"
  "config_DisconnectChan (resetHandles s) = config_DisconnectChan s"
  "config_AttachPid (resetHandles s) = config_AttachPid s"
  "binaryToRemove (resetHandles s) = binaryToRemove s"
  "stopChan (resetHandles s) = stopChan s"
  "conn (resetHandles s) = conn s"
  by (simp_all add: resetHandles_def)

lemma sendErrorResponse_fields [simp]:
  "trace (sendErrorResponse request ident summary details s)
     = trace s @ [Sent (ErrorResponse
                          \<lparr>resp_Command = Command request, RequestSeq = Seq request,
                           Success = False, Message = summary\<rparr>
                          ident (summary @ '': '' @ details))]"
  "debugger (sendErrorResponse request ident summary details s) = debugger s"
  "args (sendErrorResponse request ident summary details s) = args s"
  "stackFrameHandles (sendErrorResponse request ident summary details s) = stackFrameHandles s"
  "variableHandles (sendErrorResponse request ident summary details s) = variableHandles s"
  "config_DisconnectChan (sendErrorResponse request ident summary details s)
     = config_DisconnectChan s"
  "stopChan (sendErrorResponse request ident summary details s) = stopChan s"
  by (simp_all add: sendErrorResponse_def)

lemma sendInternalErrorResponse_fields [simp]:
  "trace (sendInternalErrorResponse seq details s)
     = trace s @ [Sent (ErrorResponse
                          \<lparr>resp_Command = [], RequestSeq = seq, Success = False,
                           Message = ''Internal Error''\<rparr>
                          InternalError (''Internal Error'' @ '': '' @ details))]"
  "debugger (sendInternalErrorResponse seq details s) = debugger s"
  "args (sendInternalErrorResponse seq details s) = args s"
  "stackFrameHandles (sendInternalErrorResponse seq details s) = stackFrameHandles s"
  "variableHandles (sendInternalErrorResponse seq details s) = variableHandles s"
  "config_DisconnectChan (sendInternalErrorResponse seq details s) = config_DisconnectChan s"
  "stopChan (sendInternalErrorResponse seq details s) = stopChan s"
  by (simp_all add: sendInternalErrorResponse_def)

section \<open>Properties of convertVariable\<close>

lemma create_eq:
  "create val hs =
     (nextHandle hs,
      hs\<lparr>nextHandle := nextHandle hs + 1, handleToVal := (handleToVal hs)(nextHandle hs \<mapsto> val)\<rparr>)"
  by (simp add: create_def Let_def)

lemma sublist_nil: "sublist ''nil'' (CHR ''n'' # CHR ''i'' # CHR ''l'' # rest)"
  by (rule prefix_imp_sublist) simp

text \<open>
  C2. A snapshot that is a nil slice or map (base address zero), a nil channel (no
  children) or a nil pointer (no type, no children, or a pointee at address zero) is
  converted to a zero child reference and the registry is left as it was; the display
  string of a readable one contains \<open>nil\<close>. A snapshot whose \<open>Unreadable\<close> is set
  is answered before its kind is looked at, with the cause in place of a value.
\<close>

theorem convertVariable_nil:
  assumes "(Kind v = reflect_Slice \<and> Base v = 0) \<or> (Kind v = reflect_Map \<and> Base v = 0)
         \<or> (Kind v = reflect_Chan \<and> Children v = [])
         \<or> (Kind v = reflect_Ptr
             \<and> (DwarfType v = None \<or> Children v = [] \<or> Addr (Children v ! 0) = 0))"
  shows "\<exists>val. convertVariable x v hs = (Inr (val, 0), hs)
               \<and> (Unreadable v = None \<longrightarrow> sublist ''nil'' val)"
proof (cases "Unreadable v")
  case (Some e)
  then show ?thesis by (simp add: convertVariable_def)
next
  case None
  with assms show ?thesis
    by (elim disjE conjE) (simp_all add: convertVariable_def Let_def sublist_nil)
qed

theorem convertVariable_nil_witness:
  "Unreadable sample_nil_slice = None \<and> Kind sample_nil_slice = reflect_Slice
   \<and> Base sample_nil_slice = 0
   \<and> convertVariable ext0 sample_nil_slice newHandlesMap = (Inr (''nil <[]int>'', 0), newHandlesMap)"
  using convertVariable_nil [of sample_nil_slice ext0 newHandlesMap]
  by (simp add: sample_nil_slice_def convertVariable_def ext0_def)

text \<open>
  C10. A snapshot of kind string is never given a handle: the registry is left as it
  was, whatever the children and the length are, and a reference returned is zero. The
  conversion returns whenever the snapshot is unreadable or its value is a string (or
  unknown) constant; on any other value \<open>constant.StringVal\<close> panics, with the registry
  unchanged.
\<close>

theorem convertVariable_string:
  assumes "Kind v = reflect_String"
  shows "snd (convertVariable x v hs) = hs
    \<and> (\<forall>val ref. fst (convertVariable x v hs) = Inr (val, ref) \<longrightarrow> ref = 0)
    \<and> (Unreadable v \<noteq> None \<or> (\<exists>str. constant_StringVal (Value v) = Inr str)
         \<longrightarrow> (\<exists>val. convertVariable x v hs = (Inr (val, 0), hs)))"
proof (cases "Unreadable v")
  case (Some e)
  then show ?thesis by (simp add: convertVariable_def)
next
  case None
  with assms show ?thesis
    by (auto simp add: convertVariable_def Let_def split: sum.splits)
qed

theorem convertVariable_string_witness:
  "Kind sample_string = reflect_String
   \<and> convertVariable ext0 sample_string newHandlesMap
       = (Inr ([CHR 0x22] @ ''abc...+7 more'' @ [CHR 0x22], 0), newHandlesMap)"
  using convertVariable_string [of sample_string ext0 newHandlesMap]
  by (simp add: sample_string_def convertVariable_def ext0_def fmt_d_def Let_def
      decDigits.simps)

text \<open>
  C8, as amended. A snapshot with no children that is unreadable or of a kind other
  than Complex64 and Complex128 is never given a handle, and a reference returned is
  zero; the conversion returns except on a string whose value is no string constant.
  A readable complex value is given its two children by the conversion itself and
  takes a handle (the counterexample).
\<close>

theorem convertVariable_leaf:
  assumes "Children v = []"
    and "Unreadable v \<noteq> None \<or> (Kind v \<noteq> reflect_Complex64 \<and> Kind v \<noteq> reflect_Complex128)"
  shows "snd (convertVariable x v hs) = hs
    \<and> (\<forall>val ref. fst (convertVariable x v hs) = Inr (val, ref) \<longrightarrow> ref = 0)
    \<and> (Unreadable v \<noteq> None \<or> Kind v \<noteq> reflect_String
          \<or> (\<exists>str. constant_StringVal (Value v) = Inr str)
         \<longrightarrow> (\<exists>val. convertVariable x v hs = (Inr (val, 0), hs)))"
proof (cases "Unreadable v")
  case (Some e)
  then show ?thesis by (simp add: convertVariable_def)
next
  case None
  show ?thesis
  proof (cases "Kind v = reflect_String")
    case True
    with None show ?thesis
      by (auto simp add: convertVariable_def Let_def split: sum.splits)
  next
    case False
    with None assms show ?thesis
      by (simp add: convertVariable_def convertDefault_def Let_def)
  qed
qed

theorem convertVariable_leaf_witness:
  "Children sample_nil_chan = [] \<and> Kind sample_nil_chan \<noteq> reflect_Complex64
   \<and> Kind sample_nil_chan \<noteq> reflect_Complex128
   \<and> convertVariable ext0 sample_nil_chan newHandlesMap
       = (Inr (''nil <chan int>'', 0), newHandlesMap)"
  using convertVariable_leaf [of sample_nil_chan ext0 newHandlesMap]
  by (simp add: sample_nil_chan_def convertVariable_def ext0_def)

theorem convertVariable_leaf_counterexample:
  "Children sample_complex = []
   \<and> fst (convertVariable ext0 sample_complex newHandlesMap) = Inr (''<complex128>'', startHandle)
   \<and> startHandle \<noteq> 0
   \<and> get newHandlesMap startHandle = (None :: Variable option)
   \<and> get (snd (convertVariable ext0 sample_complex newHandlesMap)) startHandle \<noteq> None"
  by (simp add: sample_complex_def convertVariable_def convertDefault_def ext0_def Let_def
      create_def newHandlesMap_def startHandle_def zeroVariable_def get_def)

section \<open>Properties of onLaunchRequest\<close>

lemma as_string_not: "(\<forall>str. j \<noteq> JString str) \<Longrightarrow> as_string (Some j) = None"
  by (cases j) simp_all

lemma as_bool_not: "(\<forall>b. j \<noteq> JBool b) \<Longrightarrow> as_bool (Some j) = None"
  by (cases j) auto

lemma as_float64_not: "(\<forall>n. j \<noteq> JNumber n) \<Longrightarrow> as_float64 (Some j) = None"
  by (cases j) simp_all

text \<open>
  C7. A launch whose program is absent, empty or not a string is answered with the
  failed-to-launch error and has no other effect: the session is as before but for that
  one message, so no build is run, no engine is created and no event is sent.
\<close>

theorem onLaunchRequest_no_program:
  assumes "arguments ''program'' = None \<or> arguments ''program'' = Some (JString [])
           \<or> (\<exists>j. arguments ''program'' = Some j \<and> (\<forall>str. j \<noteq> JString str))"
  shows "onLaunchRequest w request arguments s =
           s\<lparr>trace := trace s @
                [Sent (ErrorResponse
                         \<lparr>resp_Command = Command request, RequestSeq = Seq request,
                          Success = False, Message = ''Failed to launch''\<rparr>
                         FailedToLaunch
                         ''Failed to launch: The program attribute is missing in debug configuration.'')]\<rparr>
         \<and> debugger (onLaunchRequest w request arguments s) = debugger s"
  using assms
  by (auto simp: onLaunchRequest_def failedToLaunch_def sendErrorResponse_def send_def effect_def
      as_string_not)

theorem onLaunchRequest_no_program_witness:
  "launch_no_program ''program'' = None
   \<and> debugger (onLaunchRequest world0 request0 launch_no_program server0) = None
   \<and> trace (onLaunchRequest world0 request0 launch_no_program server0) =
       [Sent (ErrorResponse
                \<lparr>resp_Command = ''launch'', RequestSeq = 3, Success = False,
                 Message = ''Failed to launch''\<rparr>
                FailedToLaunch
                ''Failed to launch: The program attribute is missing in debug configuration.'')]"
  using onLaunchRequest_no_program [of launch_no_program world0 request0 server0]
  by (simp add: launch_no_program_def server0_def NewServer_def request0_def)


lemma launchOptions_stopOnEntry:
  "arguments ''stopOnEntry'' = Some j \<Longrightarrow> (\<forall>b. j \<noteq> JBool b) \<Longrightarrow>
   launchOptions (arguments(''stopOnEntry'' := None)) a = launchOptions arguments a"
  by (simp add: launchOptions_def as_bool_not)

lemma launchOptions_stackTraceDepth:
  "arguments ''stackTraceDepth'' = Some j \<Longrightarrow> (\<forall>n. j \<noteq> JNumber n) \<Longrightarrow>
   launchOptions (arguments(''stackTraceDepth'' := None)) a = launchOptions arguments a"
  by (simp add: launchOptions_def as_float64_not)

lemma launchOptions_showGlobalVariables:
  "arguments ''showGlobalVariables'' = Some j \<Longrightarrow> (\<forall>b. j \<noteq> JBool b) \<Longrightarrow>
   launchOptions (arguments(''showGlobalVariables'' := None)) a = launchOptions arguments a"
  by (simp add: launchOptions_def as_bool_not)

lemma launchMode_upd: "k \<noteq> ''mode'' \<Longrightarrow> launchMode (arguments(k := v)) = launchMode arguments"
  by (simp add: launchMode_def)

lemma launchOutput_upd:
  "k \<noteq> ''output'' \<Longrightarrow> launchOutput (arguments(k := v)) = launchOutput arguments"
  by (simp add: launchOutput_def)

lemma launchOptions_buildFlags:
  "launchOptions (arguments(''buildFlags'' := v)) a = launchOptions arguments a"
  by (simp add: launchOptions_def)

lemma launchBuild_upd:
  assumes "k \<noteq> ''output''" "k \<noteq> ''buildFlags''"
  shows "launchBuild w request (arguments(k := v)) program mode s
         = launchBuild w request arguments program mode s"
proof -
  have h1: "(arguments(k := v)) ''buildFlags'' = arguments ''buildFlags''"
    using assms by simp
  have h2: "launchOutput (arguments(k := v)) = launchOutput arguments"
    using assms by (simp add: launchOutput_upd)
  show ?thesis unfolding launchBuild_def h1 h2 by (rule refl)
qed

lemma launchBuild_other_mode:
  "mode \<noteq> JString ''debug'' \<Longrightarrow> mode \<noteq> JString ''test'' \<Longrightarrow>
   launchBuild w request arguments program mode s = Inr (program, s)"
  by (simp add: launchBuild_def)

lemma launchStart_upd:
  assumes "k \<noteq> ''args''"
    and "\<And>a. launchOptions (arguments(k := v)) a = launchOptions arguments a"
  shows "launchStart w request (arguments(k := v)) program mode s
         = launchStart w request arguments program mode s"
proof -
  have h1: "(arguments(k := v)) ''args'' = arguments ''args''"
    using assms(1) by simp
  show ?thesis unfolding launchStart_def h1 assms(2) by (rule refl)
qed

lemma onLaunchRequest_upd:
  assumes "k \<noteq> ''program''" "k \<noteq> ''mode''" "k \<noteq> ''args''"
    and opts: "\<And>a. launchOptions (arguments(k := v)) a = launchOptions arguments a"
    and build: "\<And>program s. launchBuild w request (arguments(k := v)) program (launchMode arguments) s
           = launchBuild w request arguments program (launchMode arguments) s"
  shows "onLaunchRequest w request (arguments(k := v)) s = onLaunchRequest w request arguments s"
proof -
  have h1: "(arguments(k := v)) ''program'' = arguments ''program''"
    using assms(1) by simp
  have h2: "launchMode (arguments(k := v)) = launchMode arguments"
    using assms(2) by (simp add: launchMode_upd)
  have h3: "\<And>program mode s. launchStart w request (arguments(k := v)) program mode s
         = launchStart w request arguments program mode s"
    using assms(3) opts by (rule launchStart_upd)
  show ?thesis unfolding onLaunchRequest_def Let_def h1 h2 h3 build by (rule refl)
qed

lemma onLaunchRequest_ignores_stopOnEntry:
  assumes "arguments ''stopOnEntry'' = Some j" "\<forall>b. j \<noteq> JBool b"
  shows "onLaunchRequest w request arguments s
         = onLaunchRequest w request (arguments(''stopOnEntry'' := None)) s"
  using assms
  by (simp add: onLaunchRequest_upd launchBuild_upd launchOptions_stopOnEntry)

lemma onLaunchRequest_ignores_stackTraceDepth:
  assumes "arguments ''stackTraceDepth'' = Some j" "\<forall>n. j \<noteq> JNumber n"
  shows "onLaunchRequest w request arguments s
         = onLaunchRequest w request (arguments(''stackTraceDepth'' := None)) s"
  using assms
  by (simp add: onLaunchRequest_upd launchBuild_upd launchOptions_stackTraceDepth)

lemma onLaunchRequest_ignores_showGlobalVariables:
  assumes "arguments ''showGlobalVariables'' = Some j" "\<forall>b. j \<noteq> JBool b"
  shows "onLaunchRequest w request arguments s
         = onLaunchRequest w request (arguments(''showGlobalVariables'' := None)) s"
  using assms
  by (simp add: onLaunchRequest_upd launchBuild_upd launchOptions_showGlobalVariables)

lemma onLaunchRequest_ignores_buildFlags:
  assumes "launchMode arguments \<noteq> JString ''debug''" "launchMode arguments \<noteq> JString ''test''"
  shows "onLaunchRequest w request arguments s
         = onLaunchRequest w request (arguments(''buildFlags'' := None)) s"
  using assms
  by (simp add: onLaunchRequest_upd launchBuild_other_mode launchOptions_buildFlags)

lemma onLaunchRequest_bad_buildFlags:
  assumes "launchMode arguments = JString ''debug'' \<or> launchMode arguments = JString ''test''"
    and "arguments ''buildFlags'' = Some j" "\<forall>str. j \<noteq> JString str"
  shows "(\<exists>details. onLaunchRequest w request arguments s = failedToLaunch request details s)
         \<or> (\<exists>err. filepath_Abs w (launchOutput arguments) = Inl err
               \<and> onLaunchRequest w request arguments s
                   = sendInternalErrorResponse (Seq request) (Error err) s)"
proof (cases "as_string (arguments ''program'')")
  case None
  then show ?thesis by (auto simp: onLaunchRequest_def)
next
  case (Some program)
  show ?thesis
  proof (cases "filepath_Abs w (launchOutput arguments)")
    case (Inl err)
    with assms Some show ?thesis
      by (auto simp: onLaunchRequest_def launchBuild_def)
  next
    case (Inr debugname)
    with assms Some show ?thesis
      by (cases j) (auto simp: onLaunchRequest_def launchBuild_def)
  qed
qed

lemma parseArgs_Inr: "parseArgs l = Inr targetArgs \<Longrightarrow> l = map JString targetArgs"
proof (induction l arbitrary: targetArgs)
  case Nil
  then show ?case by simp
next
  case (Cons a l)
  then show ?case by (cases a) (auto split: sum.splits)
qed

lemma parseArgs_bad:
  assumes "\<forall>targetArgs. l \<noteq> map JString targetArgs"
  shows "\<exists>arg. parseArgs l = Inl arg"
proof (cases "parseArgs l")
  case (Inl arg)
  then show ?thesis by simp
next
  case (Inr targetArgs)
  with assms parseArgs_Inr show ?thesis by blast
qed

lemma sameEngine_refl: "sameEngine s s"
  by (simp add: sameEngine_def)

lemma launchStart_bad_args:
  assumes "arguments ''args'' = Some j" "\<forall>targetArgs. j \<noteq> JArray (map JString targetArgs)"
  shows "\<exists>details s1. launchStart w request arguments program mode s
                        = failedToLaunch request details s1 \<and> sameEngine s s1"
proof (cases "mode \<noteq> JString ''exec'' \<and> mode \<noteq> JString ''debug'' \<and> mode \<noteq> JString ''test''")
  case True
  then have "launchStart w request arguments program mode s
             = failedToLaunch request
                 (''Unsupported '' @ [CHR 0x27] @ ''mode'' @ [CHR 0x27] @ '' value '' @ fmt_qv w mode
                   @ '' in debug configuration.'') s"
    by (simp add: launchStart_def)
  then show ?thesis using sameEngine_refl by blast
next
  case False
  have se: "sameEngine s (s\<lparr>args := launchOptions arguments (args s)\<rparr>)"
    by (simp add: sameEngine_def)
  show ?thesis
  proof (cases j)
    case (JArray l)
    with assms(2) have "\<forall>targetArgs. l \<noteq> map JString targetArgs" by simp
    then obtain arg where "parseArgs l = Inl arg" using parseArgs_bad by blast
    with False assms(1) JArray
    have "launchStart w request arguments program mode s
          = failedToLaunch request
                       (''value '' @ [CHR 0x27] @ fmt_v w arg @ [CHR 0x27] @ '' in ''
                        @ [CHR 0x27] @ ''args'' @ [CHR 0x27]
                        @ '' attribute in debug configuration is not a string.'')
              (s\<lparr>args := launchOptions arguments (args s)\<rparr>)"
      by (auto simp: launchStart_def)
    with se show ?thesis by blast
  qed (use False assms(1) se in \<open>auto simp: launchStart_def\<close>)
qed

lemma sameEngine_build:
  "sameEngine s (effect (GoBuild debugname pkgs flags) s)"
  "sameEngine s (effect (GoTestBuild debugname pkgs flags) s)"
  "sameEngine s ((effect (GoBuild debugname pkgs flags) s)\<lparr>binaryToRemove := b\<rparr>)"
  "sameEngine s ((effect (GoTestBuild debugname pkgs flags) s)\<lparr>binaryToRemove := b\<rparr>)"
  by (simp_all add: sameEngine_def effect_def)

lemma launchBuild_Inr:
  "launchBuild w request arguments program mode s = Inr (program', s1) \<Longrightarrow> sameEngine s s1"
  by (auto simp: launchBuild_def Let_def sameEngine_build sameEngine_refl
        split: if_splits sum.splits option.splits json.splits)

lemma launchBuild_Inl:
  "launchBuild w request arguments program mode s = Inl s' \<Longrightarrow>
     (\<exists>details s1. s' = failedToLaunch request details s1 \<and> sameEngine s s1)
     \<or> (\<exists>err. filepath_Abs w (launchOutput arguments) = Inl err
            \<and> s' = sendInternalErrorResponse (Seq request) (Error err) s)"
  by (auto simp: launchBuild_def Let_def
        split: if_splits sum.splits option.splits json.splits
        intro: sameEngine_build sameEngine_refl)

lemma sameEngine_trans: "sameEngine s s1 \<Longrightarrow> sameEngine s1 s2 \<Longrightarrow> sameEngine s s2"
  by (simp add: sameEngine_def)

lemma onLaunchRequest_bad_args:
  assumes "arguments ''args'' = Some j" "\<forall>targetArgs. j \<noteq> JArray (map JString targetArgs)"
  shows "(\<exists>details s1. onLaunchRequest w request arguments s = failedToLaunch request details s1
            \<and> sameEngine s s1)
         \<or> (\<exists>err. filepath_Abs w (launchOutput arguments) = Inl err
               \<and> onLaunchRequest w request arguments s
                   = sendInternalErrorResponse (Seq request) (Error err) s)"
proof (cases "as_string (arguments ''program'')")
  case None
  then show ?thesis using sameEngine_refl by (auto simp: onLaunchRequest_def)
next
  case (Some program)
  show ?thesis
  proof (cases "program = []")
    case True
    with Some show ?thesis using sameEngine_refl by (auto simp: onLaunchRequest_def)
  next
    case False
    show ?thesis
    proof (cases "launchBuild w request arguments program (launchMode arguments) s")
      case (Inl s')
      with Some False have "onLaunchRequest w request arguments s = s'"
        by (simp add: onLaunchRequest_def)
      with launchBuild_Inl[OF Inl] show ?thesis by simp
    next
      case (Inr r)
      obtain program' s1 where r: "r = (program', s1)" by (cases r)
      with Some False Inr
      have eq: "onLaunchRequest w request arguments s
                = launchStart w request arguments program' (launchMode arguments) s1"
        by (simp add: onLaunchRequest_def)
      from Inr r have se: "sameEngine s s1" using launchBuild_Inr by blast
      from assms
      have "\<exists>details s2. launchStart w request arguments program' (launchMode arguments) s1
                = failedToLaunch request details s2 \<and> sameEngine s1 s2"
        by (rule launchStart_bad_args)
      then obtain details s2 where
        "launchStart w request arguments program' (launchMode arguments) s1
           = failedToLaunch request details s2" "sameEngine s1 s2" by blast
      with eq se sameEngine_trans show ?thesis by metis
    qed
  qed
qed


text \<open>
  C3, as amended. A wrong-typed \<open>stopOnEntry\<close>, \<open>stackTraceDepth\<close> or
  \<open>showGlobalVariables\<close> is handled exactly as if the key were absent, and so is a
  wrong-typed \<open>buildFlags\<close> in a mode that builds nothing. A wrong-typed \<open>buildFlags\<close>
  in mode debug or test, and an \<open>args\<close> that is not an array of strings, end the launch
  with an error response and without a new engine: the failed-to-launch error, or the
  internal error when the absolute path of the output cannot be computed.
\<close>

theorem onLaunchRequest_wrong_type:
  "(arguments ''stopOnEntry'' = Some j \<and> (\<forall>b. j \<noteq> JBool b) \<longrightarrow>
      onLaunchRequest w request arguments s
      = onLaunchRequest w request (arguments(''stopOnEntry'' := None)) s)
   \<and> (arguments ''stackTraceDepth'' = Some j \<and> (\<forall>n. j \<noteq> JNumber n) \<longrightarrow>
      onLaunchRequest w request arguments s
      = onLaunchRequest w request (arguments(''stackTraceDepth'' := None)) s)
   \<and> (arguments ''showGlobalVariables'' = Some j \<and> (\<forall>b. j \<noteq> JBool b) \<longrightarrow>
      onLaunchRequest w request arguments s
      = onLaunchRequest w request (arguments(''showGlobalVariables'' := None)) s)
   \<and> (arguments ''buildFlags'' = Some j \<and> (\<forall>str. j \<noteq> JString str)
        \<and> launchMode arguments \<noteq> JString ''debug'' \<and> launchMode arguments \<noteq> JString ''test'' \<longrightarrow>
      onLaunchRequest w request arguments s
      = onLaunchRequest w request (arguments(''buildFlags'' := None)) s)
   \<and> (arguments ''buildFlags'' = Some j \<and> (\<forall>str. j \<noteq> JString str)
        \<and> (launchMode arguments = JString ''debug'' \<or> launchMode arguments = JString ''test'') \<longrightarrow>
      (\<exists>details. onLaunchRequest w request arguments s = failedToLaunch request details s)
      \<or> (\<exists>err. filepath_Abs w (launchOutput arguments) = Inl err
            \<and> onLaunchRequest w request arguments s
                = sendInternalErrorResponse (Seq request) (Error err) s))
   \<and> (arguments ''args'' = Some j \<and> (\<forall>targetArgs. j \<noteq> JArray (map JString targetArgs)) \<longrightarrow>
      (\<exists>details s1. onLaunchRequest w request arguments s = failedToLaunch request details s1
            \<and> sameEngine s s1)
      \<or> (\<exists>err. filepath_Abs w (launchOutput arguments) = Inl err
            \<and> onLaunchRequest w request arguments s
                = sendInternalErrorResponse (Seq request) (Error err) s))"
proof (intro conjI impI)
  assume "arguments ''stopOnEntry'' = Some j \<and> (\<forall>b. j \<noteq> JBool b)"
  then show "onLaunchRequest w request arguments s
      = onLaunchRequest w request (arguments(''stopOnEntry'' := None)) s"
    using onLaunchRequest_ignores_stopOnEntry by blast
next
  assume "arguments ''stackTraceDepth'' = Some j \<and> (\<forall>n. j \<noteq> JNumber n)"
  then show "onLaunchRequest w request arguments s
      = onLaunchRequest w request (arguments(''stackTraceDepth'' := None)) s"
    using onLaunchRequest_ignores_stackTraceDepth by blast
next
  assume "arguments ''showGlobalVariables'' = Some j \<and> (\<forall>b. j \<noteq> JBool b)"
  then show "onLaunchRequest w request arguments s
      = onLaunchRequest w request (arguments(''showGlobalVariables'' := None)) s"
    using onLaunchRequest_ignores_showGlobalVariables by blast
next
  assume "arguments ''buildFlags'' = Some j \<and> (\<forall>str. j \<noteq> JString str)
        \<and> launchMode arguments \<noteq> JString ''debug'' \<and> launchMode arguments \<noteq> JString ''test''"
  then show "onLaunchRequest w request arguments s
      = onLaunchRequest w request (arguments(''buildFlags'' := None)) s"
    using onLaunchRequest_ignores_buildFlags by blast
next
  assume a: "arguments ''buildFlags'' = Some j \<and> (\<forall>str. j \<noteq> JString str)
        \<and> (launchMode arguments = JString ''debug'' \<or> launchMode arguments = JString ''test'')"
  then have m: "launchMode arguments = JString ''debug'' \<or> launchMode arguments = JString ''test''"
    and b: "arguments ''buildFlags'' = Some j" and t: "\<forall>str. j \<noteq> JString str"
    by simp_all
  from m b t
  show "(\<exists>details. onLaunchRequest w request arguments s = failedToLaunch request details s)
      \<or> (\<exists>err. filepath_Abs w (launchOutput arguments) = Inl err
            \<and> onLaunchRequest w request arguments s
                = sendInternalErrorResponse (Seq request) (Error err) s)"
    by (rule onLaunchRequest_bad_buildFlags)
next
  assume "arguments ''args'' = Some j \<and> (\<forall>targetArgs. j \<noteq> JArray (map JString targetArgs))"
  then have b: "arguments ''args'' = Some j"
    and t: "\<forall>targetArgs. j \<noteq> JArray (map JString targetArgs)"
    by simp_all
  from b t
  show "(\<exists>details s1. onLaunchRequest w request arguments s = failedToLaunch request details s1
            \<and> sameEngine s s1)
      \<or> (\<exists>err. filepath_Abs w (launchOutput arguments) = Inl err
            \<and> onLaunchRequest w request arguments s
                = sendInternalErrorResponse (Seq request) (Error err) s)"
    by (rule onLaunchRequest_bad_args)
qed

theorem onLaunchRequest_wrong_type_witness:
  "launch_bad_stopOnEntry ''stopOnEntry'' = Some (JString ''true'')
   \<and> onLaunchRequest world0 request0 launch_bad_stopOnEntry server0
       = onLaunchRequest world0 request0 (launch_bad_stopOnEntry(''stopOnEntry'' := None)) server0
   \<and> launch_bad_args ''args'' = Some (JArray [JString ''-v'', JNumber 1])
   \<and> onLaunchRequest world0 request0 launch_bad_args server0
       = failedToLaunch request0
           (''value '' @ [CHR 0x27] @ ''?'' @ [CHR 0x27] @ '' in '' @ [CHR 0x27] @ ''args''
            @ [CHR 0x27] @ '' attribute in debug configuration is not a string.'') server0"
  using onLaunchRequest_wrong_type
          [of launch_bad_stopOnEntry "JString ''true''" world0 request0 server0]
        onLaunchRequest_wrong_type
          [of launch_bad_args "JArray [JString ''-v'', JNumber 1]" world0 request0 server0]
  by (simp add: launch_bad_stopOnEntry_def launch_bad_args_def onLaunchRequest_def
      launchMode_def launchBuild_def launchStart_def launchOptions_def world0_def
      server0_def NewServer_def)

theorem onLaunchRequest_wrong_type_counterexample:
  "launch_bad_stopOnEntry ''stopOnEntry'' = Some (JString ''true'')
   \<and> trace (onLaunchRequest world0 request0 launch_bad_stopOnEntry server0)
       = [EngineNew ''/work'' [''/work/prog''],
          Sent InitializedEvent,
          Sent (LaunchResponse
                  \<lparr>resp_Command = ''launch'', RequestSeq = 3, Success = True, Message = []\<rparr>)]
   \<and> debugger (onLaunchRequest world0 request0 launch_bad_stopOnEntry server0)
       = Some \<lparr>dbg_WorkingDir = ''/work'', dbg_ProcessArgs = [''/work/prog'']\<rparr>
   \<and> stopOnEntry (args (onLaunchRequest world0 request0 launch_bad_stopOnEntry server0))
       = stopOnEntry defaultArgs"
  by (simp add: launch_bad_stopOnEntry_def onLaunchRequest_def launchMode_def launchBuild_def
      launchStart_def launchOptions_def launchEngine_def world0_def server0_def NewServer_def
      request0_def newResponse_def send_def effect_def defaultArgs_def)

section \<open>Properties of doCommand and onConfigurationDoneRequest\<close>

lemma sendStopped_result:
  "(\<exists>b. AllThreadsStopped b \<and> sendStopped w command r s = (Inr (), send (StoppedEvent b) s))
   \<or> (\<exists>b text. AllThreadsStopped b
         \<and> sendStopped w command r s
             = (Inr (), send (OutputEvent text ''stderr'') (send (StoppedEvent b) s)))
   \<or> sendStopped w command r s = (Inl nilPointer, s)"
proof (cases r)
  case (Inr state)
  show ?thesis
  proof (cases "SelectedGoroutine state")
    case None
    with Inr show ?thesis by (simp add: sendStopped_def)
  next
    case (Some g)
    let ?b = "\<lparr>Reason = (if command = api_Next \<or> command = api_Step \<or> command = api_StepOut
                         then ''step'' else ''breakpoint''),
               ThreadId = g, AllThreadsStopped = True, Text = []\<rparr>"
    from Inr Some have "sendStopped w command r s = (Inr (), send (StoppedEvent ?b) s)"
      by (simp add: sendStopped_def)
    moreover have "AllThreadsStopped ?b" by simp
    ultimately show ?thesis by blast
  qed
next
  case (Inl err)
  let ?text = "if Error err = ''bad access'' then BetterBadAccessError else Error err"
  let ?out = "''ERROR: '' @ ?text @ [CHR 0x0A]"
  show ?thesis
  proof (cases "debugger_State w")
    case a: (Inl e)
    let ?b = "\<lparr>Reason = ''runtime error'', ThreadId = 0, AllThreadsStopped = True,
               Text = ?text\<rparr>"
    from Inl a have "sendStopped w command r s
                     = (Inr (), send (OutputEvent ?out ''stderr'') (send (StoppedEvent ?b) s))"
      by (simp add: sendStopped_def Let_def)
    moreover have "AllThreadsStopped ?b" by simp
    ultimately show ?thesis by blast
  next
    case b: (Inr state)
    show ?thesis
    proof (cases "CurrentThread state")
      case None
      with Inl b show ?thesis by (simp add: sendStopped_def Let_def)
    next
      case (Some g)
      let ?b = "\<lparr>Reason = ''runtime error'', ThreadId = g, AllThreadsStopped = True,
                 Text = ?text\<rparr>"
      from Inl b Some
      have "sendStopped w command r s
            = (Inr (), send (OutputEvent ?out ''stderr'') (send (StoppedEvent ?b) s))"
        by (simp add: sendStopped_def Let_def)
      moreover have "AllThreadsStopped ?b" by simp
      ultimately show ?thesis by blast
    qed
  qed
qed

lemma sendStopped_fields:
  "\<exists>rest. trace (snd (sendStopped w command r s)) = trace s @ rest"
  "debugger (snd (sendStopped w command r s)) = debugger s"
  "args (snd (sendStopped w command r s)) = args s"
  "stackFrameHandles (snd (sendStopped w command r s)) = stackFrameHandles s"
  "variableHandles (snd (sendStopped w command r s)) = variableHandles s"
  "config_DisconnectChan (snd (sendStopped w command r s)) = config_DisconnectChan s"
  "stopChan (snd (sendStopped w command r s)) = stopChan s"
  using sendStopped_result[of w command r s] by auto

lemma doCommand_nil: "debugger s = None \<Longrightarrow> doCommand w command s = (Inr (), s)"
  by (simp add: doCommand_def)

lemma doCommand_exited:
  "debugger s \<noteq> None \<Longrightarrow> isexited (debugger_Command w command) \<Longrightarrow>
   doCommand w command s = (Inr (), send TerminatedEvent (effect (EngineCommand command) s))"
  by (auto simp: doCommand_def)

lemma doCommand_stopped:
  "debugger s \<noteq> None \<Longrightarrow> \<not> isexited (debugger_Command w command) \<Longrightarrow>
   doCommand w command s
     = sendStopped w command (debugger_Command w command)
         (resetHandles (effect (EngineCommand command) s))"
  by (auto simp: doCommand_def)

lemma doCommand_trace:
  assumes "debugger s \<noteq> None"
  shows "\<exists>rest. trace (snd (doCommand w command s)) = trace s @ [EngineCommand command] @ rest"
proof (cases "isexited (debugger_Command w command)")
  case True
  with assms show ?thesis by (simp add: doCommand_exited)
next
  case False
  from sendStopped_fields(1)[of w command "debugger_Command w command"
          "resetHandles (effect (EngineCommand command) s)"]
  show ?thesis using assms False by (simp add: doCommand_stopped)
qed

text \<open>
  C4. With stop-on-entry set, the handler sends the stopped event (reason entry, all
  threads stopped) and then the response, and nothing else: no command goes to the
  engine. Without it, the handler sends the response and then runs \<open>doCommand\<close> with
  the continue command: with an engine attached the command is the next effect after
  the response; with none attached \<open>doCommand\<close> does nothing.
\<close>

theorem onConfigurationDoneRequest_order:
  "(stopOnEntry (args s) \<longrightarrow>
      onConfigurationDoneRequest w request s =
        (Inr (),
         send (ConfigurationDoneResponse (newResponse request))
           (send (StoppedEvent \<lparr>Reason = ''entry'', ThreadId = 1, AllThreadsStopped = True,
                                 Text = []\<rparr>) s))
      \<and> trace (snd (onConfigurationDoneRequest w request s)) =
          trace s @
            [Sent (StoppedEvent \<lparr>Reason = ''entry'', ThreadId = 1, AllThreadsStopped = True,
                                  Text = []\<rparr>),
             Sent (ConfigurationDoneResponse (newResponse request))])
   \<and> (\<not> stopOnEntry (args s) \<longrightarrow>
      onConfigurationDoneRequest w request s
        = doCommand w api_Continue (send (ConfigurationDoneResponse (newResponse request)) s)
      \<and> (debugger s \<noteq> None \<longrightarrow>
           (\<exists>rest. trace (snd (onConfigurationDoneRequest w request s))
                    = trace s @ [Sent (ConfigurationDoneResponse (newResponse request)),
                                 EngineCommand api_Continue] @ rest))
      \<and> (debugger s = None \<longrightarrow>
           onConfigurationDoneRequest w request s
             = (Inr (), send (ConfigurationDoneResponse (newResponse request)) s)))"
proof (intro conjI impI)
  assume e: "stopOnEntry (args s)"
  then show eq1: "onConfigurationDoneRequest w request s =
        (Inr (),
         send (ConfigurationDoneResponse (newResponse request))
           (send (StoppedEvent \<lparr>Reason = ''entry'', ThreadId = 1, AllThreadsStopped = True,
                                 Text = []\<rparr>) s))"
    by (simp add: onConfigurationDoneRequest_def Let_def)
  show "trace (snd (onConfigurationDoneRequest w request s)) =
          trace s @
            [Sent (StoppedEvent \<lparr>Reason = ''entry'', ThreadId = 1, AllThreadsStopped = True,
                                  Text = []\<rparr>),
             Sent (ConfigurationDoneResponse (newResponse request))]"
    by (simp add: eq1)
next
  assume n: "\<not> stopOnEntry (args s)"
  then show eq: "onConfigurationDoneRequest w request s
        = doCommand w api_Continue (send (ConfigurationDoneResponse (newResponse request)) s)"
    by (simp add: onConfigurationDoneRequest_def Let_def)
  {
    assume d: "debugger s \<noteq> None"
    then have "debugger (send (ConfigurationDoneResponse (newResponse request)) s) \<noteq> None"
      by simp
    from doCommand_trace[OF this, of w api_Continue]
    show "\<exists>rest. trace (snd (onConfigurationDoneRequest w request s))
                    = trace s @ [Sent (ConfigurationDoneResponse (newResponse request)),
                                 EngineCommand api_Continue] @ rest"
      by (simp add: eq)
  }
  {
    assume d: "debugger s = None"
    then show "onConfigurationDoneRequest w request s
             = (Inr (), send (ConfigurationDoneResponse (newResponse request)) s)"
      by (simp add: eq doCommand_nil)
  }
qed

theorem onConfigurationDoneRequest_order_witness:
  "stopOnEntry (args (server1\<lparr>args := defaultArgs\<lparr>stopOnEntry := True\<rparr>\<rparr>))
   \<and> trace (snd (onConfigurationDoneRequest world0 request2
                   (server1\<lparr>args := defaultArgs\<lparr>stopOnEntry := True\<rparr>\<rparr>)))
       = [Sent (StoppedEvent \<lparr>Reason = ''entry'', ThreadId = 1, AllThreadsStopped = True,
                              Text = []\<rparr>),
          Sent (ConfigurationDoneResponse
                  \<lparr>resp_Command = ''configurationDone'', RequestSeq = 5, Success = True,
                   Message = []\<rparr>)]
   \<and> \<not> stopOnEntry (args server1) \<and> debugger server1 \<noteq> None
   \<and> trace (snd (onConfigurationDoneRequest world0 request2 server1))
       = [Sent (ConfigurationDoneResponse
                  \<lparr>resp_Command = ''configurationDone'', RequestSeq = 5, Success = True,
                   Message = []\<rparr>),
          EngineCommand api_Continue,
          Sent (StoppedEvent \<lparr>Reason = ''breakpoint'', ThreadId = 1, AllThreadsStopped = True,
                              Text = []\<rparr>)]"
proof -
  have t0: "trace server1 = []" "debugger server1 \<noteq> None" "\<not> stopOnEntry (args server1)"
    by (simp_all add: server1_def server0_def NewServer_def defaultArgs_def)
  have r: "newResponse request2
           = \<lparr>resp_Command = ''configurationDone'', RequestSeq = 5, Success = True,
              Message = []\<rparr>"
    by (simp add: newResponse_def request2_def)
  have c: "debugger_Command world0 api_Continue = Inr state0"
    by (simp add: world0_def)
  have ne: "\<not> isexited (Inr state0)" by (simp add: isexited_def state0_def)
  have k: "api_Continue \<noteq> api_Next" "api_Continue \<noteq> api_Step" "api_Continue \<noteq> api_StepOut"
    by (simp_all add: api_Continue_def api_Next_def api_Step_def api_StepOut_def)
  have d: "doCommand world0 api_Continue (send (ConfigurationDoneResponse (newResponse request2)) server1)
           = sendStopped world0 api_Continue (Inr state0)
               (resetHandles (effect (EngineCommand api_Continue)
                  (send (ConfigurationDoneResponse (newResponse request2)) server1)))"
    using t0 c ne by (simp add: doCommand_stopped)
  show ?thesis
    using onConfigurationDoneRequest_order
            [of "server1\<lparr>args := defaultArgs\<lparr>stopOnEntry := True\<rparr>\<rparr>" world0 request2]
          onConfigurationDoneRequest_order [of server1 world0 request2]
    by (simp add: t0 r d[unfolded r] k sendStopped_def state0_def)
qed

section \<open>Properties of onStackTraceRequest\<close>

lemma convertFrames_length:
  "length (fst (convertFrames w goroutine i frames hs)) = length frames"
  by (induction frames arbitrary: i hs) (simp_all add: Let_def case_prod_beta)

lemma convertFrames_nth:
  "n < length frames \<Longrightarrow>
   sf_Name (fst (convertFrames w goroutine i frames hs) ! n)
     = (case Fn (Call (frames ! n)) of None \<Rightarrow> ''???'' | Some name \<Rightarrow> name)
   \<and> sf_Line (fst (convertFrames w goroutine i frames hs) ! n) = Line (Call (frames ! n))
   \<and> sf_Source (fst (convertFrames w goroutine i frames hs) ! n)
       = (if File (Call (frames ! n)) \<noteq> ''<autogenerated>''
          then \<lparr>src_Name = filepath_Base w (File (Call (frames ! n))),
                src_Path = File (Call (frames ! n))\<rparr>
          else noSource)"
proof (induction frames arbitrary: n i hs)
  case Nil
  then show ?case by simp
next
  case (Cons frame frames)
  show ?case
  proof (cases n)
    case 0
    then show ?thesis by (simp add: Let_def case_prod_beta)
  next
    case (Suc m)
    with Cons.prems have "m < length frames" by simp
    from Cons.IH[OF this] Suc show ?thesis
      by (simp add: Let_def case_prod_beta)
  qed
qed

lemma paginate_subset: "set (paginate startFrame levels xs) \<subseteq> set xs"
proof -
  have "set (take n (drop m xs)) \<subseteq> set xs" for n m
    using set_take_subset set_drop_subset by fast
  moreover have "set (drop m xs) \<subseteq> set xs" for m by (rule set_drop_subset)
  moreover have "set (take n xs) \<subseteq> set xs" for n by (rule set_take_subset)
  ultimately show ?thesis by (simp add: paginate_def Let_def)
qed

text \<open>
  C6, as amended. With an engine attached and a stack trace from it, the frames of the
  response are a slice of the converted frames; the i-th converted frame has the name of
  the function of the i-th frame, or \<open>???\<close> when the function is unresolved, and no
  source when its file is \<open><autogenerated>\<close>, else the file with its base name. The
  fallback \<open>file@line\<close> is the one of the threads request, not of this one (the
  counterexample).
\<close>

theorem onStackTraceRequest_frames:
  assumes "debugger s \<noteq> None"
    and "debugger_Stacktrace w threadId (stackTraceDepth (args s)) = Inr frames"
  shows "\<exists>stackFrames hs.
      onStackTraceRequest w request threadId startFrame levels s
        = (Inr (),
           send (StackTraceResponse (newResponse request)
                   (paginate startFrame levels stackFrames) (int (length frames)))
             (s\<lparr>stackFrameHandles := hs\<rparr>))
    \<and> length stackFrames = length frames
    \<and> (\<forall>i<length frames.
          sf_Name (stackFrames ! i)
            = (case Fn (Call (frames ! i)) of None \<Rightarrow> ''???'' | Some name \<Rightarrow> name)
          \<and> sf_Line (stackFrames ! i) = Line (Call (frames ! i))
          \<and> (File (Call (frames ! i)) = ''<autogenerated>''
                \<longrightarrow> sf_Source (stackFrames ! i) = noSource)
          \<and> (File (Call (frames ! i)) \<noteq> ''<autogenerated>''
                \<longrightarrow> sf_Source (stackFrames ! i)
                     = \<lparr>src_Name = filepath_Base w (File (Call (frames ! i))),
                        src_Path = File (Call (frames ! i))\<rparr>))
    \<and> (\<forall>f \<in> set (paginate startFrame levels stackFrames). f \<in> set stackFrames)"
proof -
  let ?r = "convertFrames w threadId 0 frames (stackFrameHandles s)"
  from assms
  have "onStackTraceRequest w request threadId startFrame levels s
        = (Inr (),
           send (StackTraceResponse (newResponse request)
                   (paginate startFrame levels (fst ?r)) (int (length frames)))
             (s\<lparr>stackFrameHandles := snd ?r\<rparr>))"
    by (auto simp: onStackTraceRequest_def case_prod_beta)
  moreover have "length (fst ?r) = length frames" by (rule convertFrames_length)
  moreover have "\<forall>i<length frames.
          sf_Name (fst ?r ! i)
            = (case Fn (Call (frames ! i)) of None \<Rightarrow> ''???'' | Some name \<Rightarrow> name)
          \<and> sf_Line (fst ?r ! i) = Line (Call (frames ! i))
          \<and> (File (Call (frames ! i)) = ''<autogenerated>''
                \<longrightarrow> sf_Source (fst ?r ! i) = noSource)
          \<and> (File (Call (frames ! i)) \<noteq> ''<autogenerated>''
                \<longrightarrow> sf_Source (fst ?r ! i)
                     = \<lparr>src_Name = filepath_Base w (File (Call (frames ! i))),
                        src_Path = File (Call (frames ! i))\<rparr>)"
    using convertFrames_nth[of _ frames w threadId 0 "stackFrameHandles s"] by simp
  moreover have "\<forall>f \<in> set (paginate startFrame levels (fst ?r)). f \<in> set (fst ?r)"
    using paginate_subset by fast
  ultimately show ?thesis by blast
qed

lemma stackTrace_sample:
  "onStackTraceRequest world0 request1 1 0 0 server1
   = (Inr (),
      send (StackTraceResponse
                  \<lparr>resp_Command = ''stackTrace'', RequestSeq = 7, Success = True, Message = []\<rparr>
                  [\<lparr>sf_Id = 1, sf_Name = ''???'',
                    sf_Source = \<lparr>src_Name = ''main.go'', src_Path = ''main.go''\<rparr>,
                    sf_Line = 7, sf_Column = 0\<rparr>,
                   \<lparr>sf_Id = 2, sf_Name = ''main.init'', sf_Source = noSource,
                    sf_Line = 1, sf_Column = 0\<rparr>]
                  2)
        (server1\<lparr>stackFrameHandles :=
           \<lparr>nextHandle = 3,
            handleToVal = [1 \<mapsto> \<lparr>goroutineID = 1, frameIndex = 0\<rparr>,
                           2 \<mapsto> \<lparr>goroutineID = 1, frameIndex = 1\<rparr>]\<rparr>\<rparr>))"
  by (simp add: onStackTraceRequest_def server1_def server0_def NewServer_def world0_def
      defaultArgs_def create_def newHandlesMap_def startHandle_def paginate_def
      newResponse_def request1_def Let_def)

theorem onStackTraceRequest_frames_witness:
  "debugger server1 \<noteq> None
   \<and> debugger_Stacktrace world0 1 (stackTraceDepth (args server1))
       = Inr [\<lparr>Call = \<lparr>File = ''main.go'', Line = 7, Fn = None\<rparr>\<rparr>,
              \<lparr>Call = \<lparr>File = ''<autogenerated>'', Line = 1, Fn = Some ''main.init''\<rparr>\<rparr>]
   \<and> trace (snd (onStackTraceRequest world0 request1 1 0 0 server1))
       = [Sent (StackTraceResponse
                  \<lparr>resp_Command = ''stackTrace'', RequestSeq = 7, Success = True, Message = []\<rparr>
                  [\<lparr>sf_Id = 1, sf_Name = ''???'',
                    sf_Source = \<lparr>src_Name = ''main.go'', src_Path = ''main.go''\<rparr>,
                    sf_Line = 7, sf_Column = 0\<rparr>,
                   \<lparr>sf_Id = 2, sf_Name = ''main.init'', sf_Source = noSource,
                    sf_Line = 1, sf_Column = 0\<rparr>]
                  2)]"
  using onStackTraceRequest_frames [of server1 world0 1 _ request1 0 0]
  by (simp add: stackTrace_sample) (simp add: server1_def server0_def NewServer_def world0_def)

theorem onStackTraceRequest_frames_counterexample:
  "debugger_Stacktrace world0 1 (stackTraceDepth (args server1))
       = Inr [\<lparr>Call = \<lparr>File = ''main.go'', Line = 7, Fn = None\<rparr>\<rparr>,
              \<lparr>Call = \<lparr>File = ''<autogenerated>'', Line = 1, Fn = Some ''main.init''\<rparr>\<rparr>]
   \<and> trace (snd (onStackTraceRequest world0 request1 1 0 0 server1))
       = [Sent (StackTraceResponse
                  \<lparr>resp_Command = ''stackTrace'', RequestSeq = 7, Success = True, Message = []\<rparr>
                  [\<lparr>sf_Id = 1, sf_Name = ''???'',
                    sf_Source = \<lparr>src_Name = ''main.go'', src_Path = ''main.go''\<rparr>,
                    sf_Line = 7, sf_Column = 0\<rparr>,
                   \<lparr>sf_Id = 2, sf_Name = ''main.init'', sf_Source = noSource,
                    sf_Line = 1, sf_Column = 0\<rparr>]
                  2)]
   \<and> ''main.go'' @ ''@'' @ fmt_d 7 = ''main.go@7''
   \<and> ''???'' \<noteq> ''main.go@7''"
  by (simp add: stackTrace_sample fmt_d_def decDigits.simps)
     (simp add: server1_def server0_def NewServer_def world0_def)

section \<open>Properties of onVariablesRequest\<close>

lemma grows_same: "grows hs (Inr (val, 0), hs)"  "grows hs (Inl p, hs)"
  by (simp_all add: grows_def)

lemma grows_create: "grows hs (case create v' hs of (h, hs') \<Rightarrow> (Inr (val, h), hs'))"
  unfolding grows_def
  by (rule disjI2, rule exI[of _ val], rule exI[of _ v']) (simp split: prod.splits)

lemma grows_default: "grows hs (convertDefault x t v' hs)"
  by (simp add: convertDefault_def Let_def grows_same grows_create)

lemma convertVariable_grows: "grows hs (convertVariable x v hs)"
proof (cases "Unreadable v")
  case (Some e)
  then show ?thesis by (simp add: convertVariable_def grows_same)
next
  case None
  consider "Kind v = reflect_UnsafePointer" | "Kind v = reflect_Ptr" | "Kind v = reflect_Array"
    | "Kind v = reflect_Slice" | "Kind v = reflect_Map" | "Kind v = reflect_String"
    | "Kind v = reflect_Chan" | "Kind v = reflect_Interface"
    | "Kind v = reflect_Complex64" | "Kind v = reflect_Complex128"
    | "Kind v \<noteq> reflect_UnsafePointer" "Kind v \<noteq> reflect_Ptr" "Kind v \<noteq> reflect_Array"
      "Kind v \<noteq> reflect_Slice" "Kind v \<noteq> reflect_Map" "Kind v \<noteq> reflect_String"
      "Kind v \<noteq> reflect_Chan" "Kind v \<noteq> reflect_Interface"
      "Kind v \<noteq> reflect_Complex64" "Kind v \<noteq> reflect_Complex128"
    by blast
  then show ?thesis
  proof cases
    case 1
    with None show ?thesis by (simp add: convertVariable_def Let_def grows_same)
  next
    case 2
    with None show ?thesis by (simp add: convertVariable_def Let_def grows_same grows_create)
  next
    case 3
    with None show ?thesis by (simp add: convertVariable_def Let_def grows_same grows_create)
  next
    case 4
    with None show ?thesis by (simp add: convertVariable_def Let_def grows_same grows_create)
  next
    case 5
    with None show ?thesis by (simp add: convertVariable_def Let_def grows_same grows_create)
  next
    case 6
    with None show ?thesis
      by (simp add: convertVariable_def Let_def grows_same split: sum.splits)
  next
    case 7
    with None show ?thesis by (simp add: convertVariable_def Let_def grows_same grows_create)
  next
    case 8
    with None show ?thesis by (simp add: convertVariable_def Let_def grows_same grows_create)
  next
    case 9
    with None show ?thesis
      by (simp add: convertVariable_def Let_def grows_same grows_default split: sum.splits)
  next
    case 10
    with None show ?thesis
      by (simp add: convertVariable_def Let_def grows_same grows_default split: sum.splits)
  next
    case 11
    with None show ?thesis by (simp add: convertVariable_def grows_default)
  qed
qed

lemma create_positive: "handles_ok hs \<Longrightarrow> fst (create val hs) \<noteq> 0"
  by (simp add: create_eq handles_ok_def startHandle_def)

lemma convertVariable_scalar:
  assumes "handles_ok hs" "fst (convertVariable x c hs) = Inr (val, 0)"
  shows "convertVariable x c hs = (Inr (val, 0), hs)"
proof -
  from convertVariable_grows[of hs x c] assms create_positive[OF assms(1)]
  have "snd (convertVariable x c hs) = hs"
    by (auto simp: grows_def)
  with assms(2) show ?thesis by (simp add: prod_eq_iff)
qed

lemma mapChildren_scalars:
  assumes "handles_ok hs"
  shows "length cs = 2 * N \<Longrightarrow>
     (\<forall>c \<in> set cs. \<exists>val. fst (convertVariable x c hs) = Inr (val, 0)) \<Longrightarrow>
     \<exists>entries. mapChildren x kvIndex cs hs = (Inr entries, hs) \<and> length entries = N
       \<and> (\<forall>i<N. entries ! i =
             \<lparr>var_Name = fst (projr (fst (convertVariable x (cs ! (2 * i)) hs))),
              var_Value = fst (projr (fst (convertVariable x (cs ! (2 * i + 1)) hs))),
              var_VariablesReference = 0\<rparr>)"
proof (induction N arbitrary: cs kvIndex)
  case 0
  then show ?case by simp
next
  case (Suc N)
  then obtain k v rest where cs: "cs = k # v # rest"
    by (cases cs; cases "tl cs") auto
  with Suc.prems have len: "length rest = 2 * N"
    and sc: "\<forall>c \<in> set rest. \<exists>val. fst (convertVariable x c hs) = Inr (val, 0)"
    by simp_all
  from Suc.prems(2) cs obtain key where "fst (convertVariable x k hs) = Inr (key, 0)"
    by auto
  with assms have ck: "convertVariable x k hs = (Inr (key, 0), hs)"
    by (rule convertVariable_scalar)
  from Suc.prems(2) cs obtain val where "fst (convertVariable x v hs) = Inr (val, 0)"
    by auto
  with assms have cv: "convertVariable x v hs = (Inr (val, 0), hs)"
    by (rule convertVariable_scalar)
  from Suc.IH[OF len sc, of "kvIndex + 1"] obtain entries where
    e: "mapChildren x (kvIndex + 1) rest hs = (Inr entries, hs)" "length entries = N"
       "\<forall>i<N. entries ! i =
             \<lparr>var_Name = fst (projr (fst (convertVariable x (rest ! (2 * i)) hs))),
              var_Value = fst (projr (fst (convertVariable x (rest ! (2 * i + 1)) hs))),
              var_VariablesReference = 0\<rparr>"
    by blast
  let ?e0 = "\<lparr>var_Name = key, var_Value = val, var_VariablesReference = 0\<rparr>"
  have m: "mapChildren x kvIndex cs hs = (Inr (?e0 # entries), hs)"
    by (simp add: cs ck cv e(1))
  have "\<forall>i<Suc N. (?e0 # entries) ! i =
             \<lparr>var_Name = fst (projr (fst (convertVariable x (cs ! (2 * i)) hs))),
              var_Value = fst (projr (fst (convertVariable x (cs ! (2 * i + 1)) hs))),
              var_VariablesReference = 0\<rparr>"
  proof (intro allI impI)
    fix i assume "i < Suc N"
    show "(?e0 # entries) ! i =
             \<lparr>var_Name = fst (projr (fst (convertVariable x (cs ! (2 * i)) hs))),
              var_Value = fst (projr (fst (convertVariable x (cs ! (2 * i + 1)) hs))),
              var_VariablesReference = 0\<rparr>"
    proof (cases i)
      case 0
      then show ?thesis by (simp add: cs ck cv)
    next
      case (Suc j)
      with \<open>i < Suc N\<close> have "j < N" by simp
      with e(3) Suc show ?thesis by (simp add: cs)
    qed
  qed
  with m e(2) show ?case by simp
qed

text \<open>
  C5. For a registered map snapshot with 2N children, each converting to reference zero
  (in a registry that satisfies its invariant, where handles are positive), the
  variables handler answers with exactly N entries and leaves the registry as it was;
  the i-th entry has the rendered key as name, the rendered value as value, and
  reference zero.
\<close>

theorem onVariablesRequest_scalar_map:
  assumes "get (variableHandles s) variablesReference = Some v"
    and "Kind v = reflect_Map"
    and "length (Children v) = 2 * N"
    and "handles_ok (variableHandles s)"
    and "\<forall>c \<in> set (Children v).
           \<exists>val. fst (convertVariable (externals w) c (variableHandles s)) = Inr (val, 0)"
  shows "\<exists>entries.
      onVariablesRequest w request variablesReference s
        = (Inr (), send (VariablesResponse (newResponse request) entries) s)
      \<and> length entries = N
      \<and> (\<forall>i<N. entries ! i =
            \<lparr>var_Name = fst (projr (fst (convertVariable (externals w) (Children v ! (2 * i))
                                           (variableHandles s)))),
             var_Value = fst (projr (fst (convertVariable (externals w) (Children v ! (2 * i + 1))
                                            (variableHandles s)))),
             var_VariablesReference = 0\<rparr>)"
proof -
  from mapChildren_scalars[OF assms(4) assms(3) assms(5), of 0] obtain entries where
    e: "mapChildren (externals w) 0 (Children v) (variableHandles s)
          = (Inr entries, variableHandles s)"
       "length entries = N"
       "\<forall>i<N. entries ! i =
            \<lparr>var_Name = fst (projr (fst (convertVariable (externals w) (Children v ! (2 * i))
                                           (variableHandles s)))),
             var_Value = fst (projr (fst (convertVariable (externals w) (Children v ! (2 * i + 1))
                                            (variableHandles s)))),
             var_VariablesReference = 0\<rparr>"
    by blast
  from assms(1,2) e(1)
  have "onVariablesRequest w request variablesReference s
        = (Inr (), send (VariablesResponse (newResponse request) entries) s)"
    by (simp add: onVariablesRequest_def listChildren_def)
  with e(2,3) show ?thesis by blast
qed

lemma sample_int_convert:
  "convertVariable ext0 (sample_int 1) hs = (Inr (''1'', 0), hs)"
  "convertVariable ext0 (sample_int 2) hs = (Inr (''2'', 0), hs)"
  by (simp_all add: convertVariable_def convertDefault_def sample_int_def ext0_def fmt_d_def
      decDigits.simps)

lemma sample_str_convert:
  "convertVariable ext0 (sample_str str) hs = (Inr ([CHR 0x22] @ str @ [CHR 0x22], 0), hs)"
  by (simp add: convertVariable_def sample_str_def ext0_def)

lemma server2_handles:
  "variableHandles server2 = \<lparr>nextHandle = 2, handleToVal = [1 \<mapsto> sample_map]\<rparr>"
  by (simp add: server2_def server1_def server0_def NewServer_def create_eq newHandlesMap_def
      startHandle_def)

theorem onVariablesRequest_scalar_map_witness:
  "get (variableHandles server2) 1 = Some sample_map
   \<and> Kind sample_map = reflect_Map
   \<and> length (Children sample_map) = 2 * 2
   \<and> handles_ok (variableHandles server2)
   \<and> onVariablesRequest world0 request3 1 server2
       = (Inr (),
          send (VariablesResponse
                  \<lparr>resp_Command = ''variables'', RequestSeq = 9, Success = True, Message = []\<rparr>
                  [\<lparr>var_Name = ''1'', var_Value = [CHR 0x22] @ ''a'' @ [CHR 0x22],
                    var_VariablesReference = 0\<rparr>,
                   \<lparr>var_Name = ''2'', var_Value = [CHR 0x22] @ ''b'' @ [CHR 0x22],
                    var_VariablesReference = 0\<rparr>]) server2)"
proof -
  have g: "get (variableHandles server2) 1 = Some sample_map"
    by (simp add: server2_handles get_def)
  have k: "Kind sample_map = reflect_Map" "length (Children sample_map) = 2 * 2"
    "Children sample_map = [sample_int 1, sample_str ''a'', sample_int 2, sample_str ''b'']"
    by (simp_all add: sample_map_def)
  have ok: "handles_ok (variableHandles server2)"
    by (simp add: server2_handles handles_ok_def startHandle_def)
  have sc: "\<forall>c \<in> set (Children sample_map).
           \<exists>val. fst (convertVariable (externals world0) c (variableHandles server2)) = Inr (val, 0)"
    by (simp add: k(3) sample_int_convert sample_str_convert world0_def)
  from onVariablesRequest_scalar_map [OF g k(1) k(2) ok sc, of request3]
  obtain entries where
    e: "onVariablesRequest world0 request3 1 server2
        = (Inr (), send (VariablesResponse (newResponse request3) entries) server2)"
       "length entries = 2"
       "\<forall>i<2. entries ! i =
            \<lparr>var_Name = fst (projr (fst (convertVariable (externals world0)
                         (Children sample_map ! (2 * i)) (variableHandles server2)))),
             var_Value = fst (projr (fst (convertVariable (externals world0)
                         (Children sample_map ! (2 * i + 1)) (variableHandles server2)))),
             var_VariablesReference = 0\<rparr>"
    by blast
  from e(3) have e0: "entries ! 0 = \<lparr>var_Name = ''1'', var_Value = [CHR 0x22] @ ''a'' @ [CHR 0x22],
                    var_VariablesReference = 0\<rparr>"
    by (simp add: k(3) world0_def sample_int_convert sample_str_convert)
  from e(3) have "entries ! 1 = \<lparr>var_Name = fst (projr (fst (convertVariable (externals world0)
                         (Children sample_map ! (2 * 1)) (variableHandles server2)))),
             var_Value = fst (projr (fst (convertVariable (externals world0)
                         (Children sample_map ! (2 * 1 + 1)) (variableHandles server2)))),
             var_VariablesReference = 0\<rparr>"
    by simp
  then have e1: "entries ! 1 = \<lparr>var_Name = ''2'', var_Value = [CHR 0x22] @ ''b'' @ [CHR 0x22],
                    var_VariablesReference = 0\<rparr>"
    by (simp add: k(3) world0_def sample_int_convert sample_str_convert)
  from e(2) obtain a b where ab: "entries = [a, b]"
    by (cases entries; cases "tl entries") auto
  from e0 e1 have "a = \<lparr>var_Name = ''1'', var_Value = [CHR 0x22] @ ''a'' @ [CHR 0x22],
                    var_VariablesReference = 0\<rparr>"
    and "b = \<lparr>var_Name = ''2'', var_Value = [CHR 0x22] @ ''b'' @ [CHR 0x22],
                    var_VariablesReference = 0\<rparr>"
    by (simp_all add: ab)
  with ab have "entries =
                  [\<lparr>var_Name = ''1'', var_Value = [CHR 0x22] @ ''a'' @ [CHR 0x22],
                    var_VariablesReference = 0\<rparr>,
                   \<lparr>var_Name = ''2'', var_Value = [CHR 0x22] @ ''b'' @ [CHR 0x22],
                    var_VariablesReference = 0\<rparr>]"
    by simp
  with e(1) g k ok show ?thesis
    by (simp add: newResponse_def request3_def)
qed

section \<open>The handles between two stops\<close>

lemma extends_refl: "handles_ok hs \<Longrightarrow> extends hs hs"
  by (simp add: extends_def)

lemma extends_trans: "extends a b \<Longrightarrow> extends b c \<Longrightarrow> extends a c"
  by (simp add: extends_def)

lemma extends_ok: "extends a b \<Longrightarrow> handles_ok b"
  by (simp add: extends_def)

lemma extends_create: "handles_ok hs \<Longrightarrow> extends hs (snd (create val hs))"
  by (auto simp: extends_def handles_ok_def create_eq get_def)

lemma handles_ok_new: "handles_ok newHandlesMap"
  by (simp add: handles_ok_def newHandlesMap_def)

lemma handles_ok_reset: "handles_ok (reset hs)"
  by (simp add: handles_ok_def reset_def)

lemma get_reset: "get (reset hs) h = None"
  by (simp add: get_def reset_def)

lemma extends_grows:
  assumes "handles_ok hs" "grows hs r"
  shows "extends hs (snd r)"
  using assms extends_create[OF assms(1)] extends_refl[OF assms(1)]
  by (auto simp: grows_def)

lemma extends_convertVariable:
  "handles_ok hs \<Longrightarrow> extends hs (snd (convertVariable x v hs))"
  using extends_grows convertVariable_grows by blast

lemma extends_mapChildren:
  "handles_ok hs \<Longrightarrow> extends hs (snd (mapChildren x kvIndex cs hs))"
proof (induction cs arbitrary: kvIndex hs rule: induct_list012)
  case 1
  then show ?case by (simp add: extends_refl)
next
  case (2 k)
  from extends_convertVariable[OF 2, of x k] show ?case
    by (auto split: prod.splits sum.splits)
next
  case (3 k v rest)
  let ?r1 = "convertVariable x k hs"
  let ?r2 = "convertVariable x v (snd ?r1)"
  have e1: "extends hs (snd ?r1)" using 3(3) by (rule extends_convertVariable)
  then have e2: "extends (snd ?r1) (snd ?r2)"
    using extends_convertVariable extends_ok by blast
  show ?case
  proof (cases "fst ?r1")
    case (Inl p)
    with e1 show ?thesis by (simp add: case_prod_beta)
  next
    case k: (Inr kr)
    show ?thesis
    proof (cases "fst ?r2")
      case (Inl p)
      with k e1 e2 extends_trans show ?thesis
        by (cases kr) (auto simp: case_prod_beta split: prod.splits)
    next
      case v: (Inr vr)
      have "handles_ok (snd ?r2)" using e2 by (rule extends_ok)
      then have e3: "extends (snd ?r2) (snd (mapChildren x (kvIndex + 1) rest (snd ?r2)))"
        by (rule 3(1))
      have "snd (mapChildren x kvIndex (k # v # rest) hs)
            = snd (mapChildren x (kvIndex + 1) rest (snd ?r2))"
        using k v
        by (simp add: case_prod_beta Let_def split: sum.splits)
      with e1 e2 e3 extends_trans show ?thesis by metis
    qed
  qed
qed

lemma extends_indexedChildren:
  "handles_ok hs \<Longrightarrow> extends hs (snd (indexedChildren x i cs hs))"
proof (induction cs arbitrary: i hs)
  case Nil
  then show ?case by (simp add: extends_refl)
next
  case (Cons c rest)
  let ?r1 = "convertVariable x c hs"
  have e1: "extends hs (snd ?r1)" using Cons.prems by (rule extends_convertVariable)
  show ?case
  proof (cases "fst ?r1")
    case (Inl p)
    with e1 show ?thesis by (simp add: case_prod_beta)
  next
    case (Inr r)
    have "handles_ok (snd ?r1)" using e1 by (rule extends_ok)
    then have e2: "extends (snd ?r1) (snd (indexedChildren x (i + 1) rest (snd ?r1)))"
      by (rule Cons.IH)
    have "snd (indexedChildren x i (c # rest) hs)
          = snd (indexedChildren x (i + 1) rest (snd ?r1))"
      using Inr by (simp add: case_prod_beta split: sum.splits)
    with e1 e2 extends_trans show ?thesis by metis
  qed
qed

lemma extends_namedChildren:
  "handles_ok hs \<Longrightarrow> extends hs (snd (namedChildren x cs hs))"
proof (induction cs arbitrary: hs)
  case Nil
  then show ?case by (simp add: extends_refl)
next
  case (Cons c rest)
  let ?r1 = "convertVariable x c hs"
  have e1: "extends hs (snd ?r1)" using Cons.prems by (rule extends_convertVariable)
  show ?case
  proof (cases "fst ?r1")
    case (Inl p)
    with e1 show ?thesis by (simp add: case_prod_beta)
  next
    case (Inr r)
    have "handles_ok (snd ?r1)" using e1 by (rule extends_ok)
    then have e2: "extends (snd ?r1) (snd (namedChildren x rest (snd ?r1)))"
      by (rule Cons.IH)
    have "snd (namedChildren x (c # rest) hs) = snd (namedChildren x rest (snd ?r1))"
      using Inr by (simp add: case_prod_beta split: sum.splits)
    with e1 e2 extends_trans show ?thesis by metis
  qed
qed

lemma extends_listChildren:
  "handles_ok hs \<Longrightarrow> extends hs (snd (listChildren x v hs))"
  by (simp add: listChildren_def extends_mapChildren extends_indexedChildren
      extends_namedChildren)

lemma extends_convertFrames:
  "handles_ok hs \<Longrightarrow> extends hs (snd (convertFrames w goroutine i frames hs))"
proof (induction frames arbitrary: i hs)
  case Nil
  then show ?case by (simp add: extends_refl)
next
  case (Cons frame frames)
  let ?hs1 = "snd (create \<lparr>goroutineID = goroutine, frameIndex = i\<rparr> hs)"
  have e1: "extends hs ?hs1" using Cons.prems by (rule extends_create)
  then have "handles_ok ?hs1" by (rule extends_ok)
  then have e2: "extends ?hs1 (snd (convertFrames w goroutine (i + 1) frames ?hs1))"
    by (rule Cons.IH)
  have "snd (convertFrames w goroutine i (frame # frames) hs)
        = snd (convertFrames w goroutine (i + 1) frames ?hs1)"
    by (simp add: case_prod_beta Let_def)
  with e1 e2 extends_trans show ?case by metis
qed

lemma sameHandles_refl [simp]: "sameHandles s s"
  by (simp add: sameHandles_def)

lemma sameHandles_trans: "sameHandles a b \<Longrightarrow> sameHandles b c \<Longrightarrow> sameHandles a c"
  by (simp add: sameHandles_def)

lemma sameHandles_steps [simp]:
  "sameHandles s (effect e s')  = sameHandles s s'"
  "sameHandles s (send m s') = sameHandles s s'"
  "sameHandles s (sendErrorResponse request ident summary details s') = sameHandles s s'"
  "sameHandles s (sendInternalErrorResponse seq details s') = sameHandles s s'"
  "sameHandles s (failedToLaunch request details s') = sameHandles s s'"
  "sameHandles s (sendUnsupportedErrorResponse request s') = sameHandles s s'"
  "sameHandles s (sendNotYetImplementedErrorResponse request s') = sameHandles s s'"
  "sameHandles s (s'\<lparr>binaryToRemove := b\<rparr>) = sameHandles s s'"
  "sameHandles s (s'\<lparr>args := a\<rparr>) = sameHandles s s'"
  "sameHandles s (s'\<lparr>debugger := d\<rparr>) = sameHandles s s'"
  "sameHandles s (s'\<lparr>config_DisconnectChan := c\<rparr>) = sameHandles s s'"
  "sameHandles s (s'\<lparr>config_ProcessArgs := pa, config_WorkingDir := wd\<rparr>) = sameHandles s s'"
  by (simp_all add: sameHandles_def failedToLaunch_def sendUnsupportedErrorResponse_def
      sendNotYetImplementedErrorResponse_def)

lemma sameHandles_launchBuild:
  "launchBuild w request arguments program mode s = Inl s' \<Longrightarrow> sameHandles s s'"
  "launchBuild w request arguments program mode s = Inr (program', s1) \<Longrightarrow> sameHandles s s1"
  by (auto simp: launchBuild_def Let_def
        split: if_splits sum.splits option.splits json.splits)

lemma sameHandles_launchEngine: "sameHandles s (launchEngine w request program targetArgs s)"
  by (simp add: launchEngine_def Let_def split: option.splits)

lemma sameHandles_launchStart:
  "sameHandles s (launchStart w request arguments program mode s)"
proof -
  have "sameHandles s (launchEngine w request program targetArgs
                         (s\<lparr>args := launchOptions arguments (args s)\<rparr>))" for targetArgs
    using sameHandles_launchEngine[of "s\<lparr>args := launchOptions arguments (args s)\<rparr>"]
    by (simp add: sameHandles_def)
  then show ?thesis
    by (simp add: launchStart_def Let_def split: option.splits json.splits sum.splits)
qed

lemma sameHandles_onLaunchRequest: "sameHandles s (onLaunchRequest w request arguments s)"
proof (cases "as_string (arguments ''program'')")
  case None
  then show ?thesis by (simp add: onLaunchRequest_def)
next
  case (Some program)
  show ?thesis
  proof (cases "program = []")
    case True
    with Some show ?thesis by (simp add: onLaunchRequest_def)
  next
    case False
    show ?thesis
    proof (cases "launchBuild w request arguments program (launchMode arguments) s")
      case (Inl s')
      with Some False sameHandles_launchBuild(1)[OF Inl] show ?thesis
        by (simp add: onLaunchRequest_def)
    next
      case (Inr r)
      obtain program' s1 where r: "r = (program', s1)" by (cases r)
      from Inr r have "sameHandles s s1" using sameHandles_launchBuild(2) by blast
      moreover have "sameHandles s1 (launchStart w request arguments program' (launchMode arguments) s1)"
        by (rule sameHandles_launchStart)
      ultimately show ?thesis using Some False Inr r
        by (simp add: onLaunchRequest_def sameHandles_def)
    qed
  qed
qed

lemma sameHandles_close: "sameHandles s (snd (close c s))"
  by (simp add: close_def)

lemma sameHandles_signalDisconnect: "sameHandles s (snd (signalDisconnect s))"
  by (auto simp: signalDisconnect_def close_def split: option.splits)

lemma sameHandles_onDisconnectRequest: "sameHandles s (snd (onDisconnectRequest request s))"
proof -
  let ?s2 = "(if debugger (send (DisconnectResponse (newResponse request)) s) \<noteq> None
                then effect (EngineDetach (config_AttachPid (send (DisconnectResponse (newResponse request)) s) = 0))
                       (effect (EngineCommand api_Halt) (send (DisconnectResponse (newResponse request)) s))
                else send (DisconnectResponse (newResponse request)) s)"
  have "sameHandles s ?s2" by simp
  moreover have "sameHandles ?s2 (snd (signalDisconnect ?s2))"
    by (rule sameHandles_signalDisconnect)
  ultimately show ?thesis
    unfolding onDisconnectRequest_def Let_def by (rule sameHandles_trans)
qed

lemma sameHandles_onSetBreakpointsRequest:
  "sameHandles s (snd (onSetBreakpointsRequest w request path breakpoints s))"
  by (simp add: onSetBreakpointsRequest_def split: option.splits)

lemma sameHandles_onThreadsRequest: "sameHandles s (onThreadsRequest w request s)"
  by (simp add: onThreadsRequest_def split: sum.splits error.splits)

lemma sameHandles_sendStopped: "sameHandles s (snd (sendStopped w command r s))"
  using sendStopped_fields(4,5)[of w command r s] by (simp add: sameHandles_def)

lemma keeps_sameHandles: "registries_ok s \<Longrightarrow> sameHandles s s' \<Longrightarrow> keeps s s'"
  by (simp add: keeps_def sameHandles_def registries_ok_def extends_refl)

lemma doCommand_quiet:
  assumes "debugger s = None \<or> isexited (debugger_Command w command)"
  shows "sameHandles s (snd (doCommand w command s))"
proof (cases "debugger s = None")
  case True
  then show ?thesis by (simp add: doCommand_nil)
next
  case False
  with assms show ?thesis by (simp add: doCommand_exited)
qed

lemma doCommand_resets:
  assumes "debugger s \<noteq> None" "\<not> isexited (debugger_Command w command)"
  shows "stackFrameHandles (snd (doCommand w command s)) = reset (stackFrameHandles s)"
    and "variableHandles (snd (doCommand w command s)) = reset (variableHandles s)"
  using assms by (simp_all add: doCommand_stopped sendStopped_fields)

lemma keeps_onStackTraceRequest:
  assumes "registries_ok s"
  shows "keeps s (snd (onStackTraceRequest w request threadId startFrame levels s))"
proof -
  from assms have ok: "handles_ok (stackFrameHandles s)" "handles_ok (variableHandles s)"
    by (simp_all add: registries_ok_def)
  have "extends (stackFrameHandles s) (snd (convertFrames w threadId 0 frames (stackFrameHandles s)))"
    for frames using ok(1) by (rule extends_convertFrames)
  with ok show ?thesis
    by (simp add: onStackTraceRequest_def keeps_def extends_refl case_prod_beta
        split: sum.splits)
qed

lemma keeps_onVariablesRequest:
  assumes "registries_ok s"
  shows "keeps s (snd (onVariablesRequest w request variablesReference s))"
proof -
  from assms have ok: "handles_ok (stackFrameHandles s)" "handles_ok (variableHandles s)"
    by (simp_all add: registries_ok_def)
  have "extends (variableHandles s) (snd (listChildren (externals w) v (variableHandles s)))"
    for v using ok(2) by (rule extends_listChildren)
  with ok show ?thesis
    by (simp add: onVariablesRequest_def keeps_def extends_refl case_prod_beta
        split: sum.splits option.splits)
qed

lemma extends_create2:
  assumes "handles_ok hs"
  shows "extends hs (snd (create b (snd (create a hs))))"
proof -
  have e1: "extends hs (snd (create a hs))" using assms by (rule extends_create)
  then have "handles_ok (snd (create a hs))" by (rule extends_ok)
  then have e2: "extends (snd (create a hs)) (snd (create b (snd (create a hs))))"
    by (rule extends_create)
  from e1 e2 show ?thesis by (rule extends_trans)
qed

lemma extends_create3:
  assumes "handles_ok hs"
  shows "extends hs (snd (create c (snd (create b (snd (create a hs))))))"
proof -
  have e1: "extends hs (snd (create b (snd (create a hs))))"
    using assms by (rule extends_create2)
  then have "handles_ok (snd (create b (snd (create a hs))))" by (rule extends_ok)
  then have e2: "extends (snd (create b (snd (create a hs))))
                   (snd (create c (snd (create b (snd (create a hs))))))"
    by (rule extends_create)
  from e1 e2 show ?thesis by (rule extends_trans)
qed

lemma keeps_onScopesRequest:
  assumes "registries_ok s"
  shows "keeps s (snd (onScopesRequest w request frameId s))"
proof -
  from assms have ok: "handles_ok (stackFrameHandles s)" "handles_ok (variableHandles s)"
    by (simp_all add: registries_ok_def)
  note e = extends_refl[OF ok(1)] extends_refl[OF ok(2)]
    extends_create2[OF ok(2)] extends_create3[OF ok(2)]
  show ?thesis
  proof (cases "get (stackFrameHandles s) frameId")
    case None
    then show ?thesis by (simp add: onScopesRequest_def keeps_def e)
  next
    case (Some sf)
    show ?thesis
    proof (cases "debugger s = None")
      case True
      with Some show ?thesis by (simp add: onScopesRequest_def keeps_def e)
    next
      case dbg: False
      show ?thesis
      proof (cases "debugger_FunctionArguments w (goroutineID sf) (frameIndex sf)")
        case (Inl err)
        with Some dbg show ?thesis by (simp add: onScopesRequest_def keeps_def e)
      next
        case a: (Inr arguments)
        show ?thesis
        proof (cases "debugger_LocalVariables w (goroutineID sf) (frameIndex sf)")
          case (Inl err)
          with Some dbg a show ?thesis by (simp add: onScopesRequest_def keeps_def e)
        next
          case l: (Inr locals)
          show ?thesis
          proof (cases "showGlobalVariables (args s)")
            case False
            with Some dbg a l show ?thesis
              by (simp add: onScopesRequest_def keeps_def e case_prod_beta Let_def)
          next
            case g: True
            show ?thesis
            proof (cases "debugger_CurrentPackage w")
              case (Inl err)
              with Some dbg a l g show ?thesis
                by (simp add: onScopesRequest_def keeps_def e case_prod_beta Let_def)
            next
              case p: (Inr currPkg)
              show ?thesis
              proof (cases "debugger_PackageVariables w (''^'' @ currPkg @ [CHR 0x5C] @ ''.'')")
                case (Inl err)
                with Some dbg a l g p show ?thesis
                  by (simp add: onScopesRequest_def keeps_def e case_prod_beta Let_def)
              next
                case (Inr globals)
                with Some dbg a l g p show ?thesis
                  by (simp add: onScopesRequest_def keeps_def e case_prod_beta Let_def)
              qed
            qed
          qed
        qed
      qed
    qed
  qed
qed

lemma quiet_command:
  assumes "\<not> stops w request s" "commandOf request s = Some command"
  shows "debugger s = None \<or> isexited (debugger_Command w command)"
  using assms by (auto simp: stops_def)

lemma sameHandles_command:
  assumes "debugger s = None \<or> isexited (debugger_Command w command)"
  shows "sameHandles s (snd (doCommand w command (send m s)))"
proof -
  from assms have "debugger (send m s) = None \<or> isexited (debugger_Command w command)"
    by simp
  then have "sameHandles (send m s) (snd (doCommand w command (send m s)))"
    by (rule doCommand_quiet)
  then show ?thesis by (simp add: sameHandles_def)
qed

lemma dispatch_quiet:
  assumes "registries_ok s" "\<not> stops w request s"
  shows "keeps s (snd (dispatch w request s))"
proof (cases request)
  case (InitializeRequest r)
  then show ?thesis using assms(1)
    by (simp add: onInitializeRequest_def keeps_sameHandles)
next
  case (LaunchRequest r a)
  then show ?thesis using assms(1) sameHandles_onLaunchRequest
    by (simp add: keeps_sameHandles)
next
  case (DisconnectRequest r)
  then show ?thesis using assms(1) sameHandles_onDisconnectRequest
    by (simp add: keeps_sameHandles)
next
  case (SetBreakpointsRequest r p b)
  then show ?thesis using assms(1) sameHandles_onSetBreakpointsRequest
    by (simp add: keeps_sameHandles)
next
  case (SetExceptionBreakpointsRequest r)
  then show ?thesis using assms(1)
    by (simp add: onSetExceptionBreakpointsRequest_def keeps_sameHandles)
next
  case (ConfigurationDoneRequest r)
  show ?thesis
  proof (cases "stopOnEntry (args s)")
    case True
    with ConfigurationDoneRequest assms(1) show ?thesis
      by (simp add: onConfigurationDoneRequest_def Let_def keeps_sameHandles)
  next
    case False
    with ConfigurationDoneRequest assms(2)
    have "debugger s = None \<or> isexited (debugger_Command w api_Continue)"
      by (intro quiet_command[of w request s]) simp_all
    from sameHandles_command[OF this] False ConfigurationDoneRequest assms(1)
    show ?thesis
      by (simp add: onConfigurationDoneRequest_def Let_def keeps_sameHandles)
  qed
next
  case (ContinueRequest r)
  with assms(2) have "debugger s = None \<or> isexited (debugger_Command w api_Continue)"
    by (intro quiet_command[of w request s]) simp_all
  from sameHandles_command[OF this] ContinueRequest assms(1) show ?thesis
    by (simp add: onContinueRequest_def keeps_sameHandles)
next
  case (NextRequest r)
  with assms(2) have "debugger s = None \<or> isexited (debugger_Command w api_Next)"
    by (intro quiet_command[of w request s]) simp_all
  from sameHandles_command[OF this] NextRequest assms(1) show ?thesis
    by (simp add: onNextRequest_def keeps_sameHandles)
next
  case (StepInRequest r)
  with assms(2) have "debugger s = None \<or> isexited (debugger_Command w api_Step)"
    by (intro quiet_command[of w request s]) simp_all
  from sameHandles_command[OF this] StepInRequest assms(1) show ?thesis
    by (simp add: onStepInRequest_def keeps_sameHandles)
next
  case (StepOutRequest r)
  with assms(2) have "debugger s = None \<or> isexited (debugger_Command w api_StepOut)"
    by (intro quiet_command[of w request s]) simp_all
  from sameHandles_command[OF this] StepOutRequest assms(1) show ?thesis
    by (simp add: onStepOutRequest_def keeps_sameHandles)
next
  case (ThreadsRequest r)
  then show ?thesis using assms(1) sameHandles_onThreadsRequest
    by (simp add: keeps_sameHandles)
next
  case (StackTraceRequest r t f l)
  then show ?thesis using assms(1) by (simp add: keeps_onStackTraceRequest)
next
  case (ScopesRequest r f)
  then show ?thesis using assms(1) by (simp add: keeps_onScopesRequest)
next
  case (VariablesRequest r v)
  then show ?thesis using assms(1) by (simp add: keeps_onVariablesRequest)
next
  case (NotYetImplementedRequest r)
  then show ?thesis using assms(1) by (simp add: keeps_sameHandles)
next
  case (UnsupportedRequest r)
  then show ?thesis using assms(1) by (simp add: keeps_sameHandles)
next
  case (OtherMessage seq rendering)
  then show ?thesis using assms(1) by (simp add: keeps_sameHandles)
qed

lemma resets_command:
  assumes "debugger s \<noteq> None" "\<not> isexited (debugger_Command w command)"
  shows "stackFrameHandles (snd (doCommand w command (send m s))) = reset (stackFrameHandles s)
       \<and> variableHandles (snd (doCommand w command (send m s))) = reset (variableHandles s)"
proof -
  from assms(1) have "debugger (send m s) \<noteq> None" by simp
  from doCommand_resets[OF this assms(2)] show ?thesis by simp
qed

lemma dispatch_stops:
  assumes "stops w request s"
  shows "stackFrameHandles (snd (dispatch w request s)) = reset (stackFrameHandles s)
       \<and> variableHandles (snd (dispatch w request s)) = reset (variableHandles s)"
proof -
  from assms obtain command where c: "commandOf request s = Some command"
    and d: "debugger s \<noteq> None" and e: "\<not> isexited (debugger_Command w command)"
    by (auto simp: stops_def split: option.splits)
  note r = resets_command[OF d e]
  from c show ?thesis
  proof (cases request)
    case (ConfigurationDoneRequest r')
    with c have "\<not> stopOnEntry (args s)" "command = api_Continue"
      by (simp_all split: if_splits)
    with ConfigurationDoneRequest r show ?thesis
      by (simp add: onConfigurationDoneRequest_def Let_def)
  next
    case (ContinueRequest r')
    with c r show ?thesis by (auto simp: onContinueRequest_def)
  next
    case (NextRequest r')
    with c r show ?thesis by (auto simp: onNextRequest_def)
  next
    case (StepInRequest r')
    with c r show ?thesis by (auto simp: onStepInRequest_def)
  next
    case (StepOutRequest r')
    with c r show ?thesis by (auto simp: onStepOutRequest_def)
  qed simp_all
qed

lemma handleRequest_handles:
  "stackFrameHandles (handleRequest w request s) = stackFrameHandles (snd (dispatch w request s))"
  "variableHandles (handleRequest w request s) = variableHandles (snd (dispatch w request s))"
  by (simp_all add: handleRequest_def split: prod.splits sum.splits panic.splits)

lemma handleRequest_quiet:
  assumes "registries_ok s" "\<not> stops w request s"
  shows "keeps s (handleRequest w request s)"
  using dispatch_quiet[OF assms] by (simp add: keeps_def handleRequest_handles)

lemma handleRequest_stops:
  assumes "stops w request s"
  shows "get (stackFrameHandles (handleRequest w request s)) h = None"
    and "get (variableHandles (handleRequest w request s)) h = None"
  using dispatch_stops[OF assms] by (simp_all add: handleRequest_handles get_reset)

lemma registries_ok_handleRequest:
  assumes "registries_ok s"
  shows "registries_ok (handleRequest w request s)"
proof (cases "stops w request s")
  case True
  from dispatch_stops[OF this] show ?thesis
    by (simp add: registries_ok_def handleRequest_handles handles_ok_reset)
next
  case False
  from handleRequest_quiet[OF assms this] show ?thesis
    by (simp add: keeps_def registries_ok_def extends_def)
qed

lemma registries_ok_NewServer: "registries_ok (NewServer disconnectChan attachPid stop)"
  by (simp add: registries_ok_def NewServer_def handles_ok_new)

lemma registries_ok_handleAll:
  "registries_ok s \<Longrightarrow> registries_ok (handleAll requests s)"
proof (induction requests arbitrary: s)
  case Nil
  then show ?case by simp
next
  case (Cons a requests)
  obtain w request where a: "a = (w, request)" by (cases a)
  from Cons.prems have "registries_ok (handleRequest w request s)"
    by (rule registries_ok_handleRequest)
  then show ?case using Cons.IH a by simp
qed

lemma keeps_get:
  assumes "keeps s s'"
  shows "get (stackFrameHandles s) h = Some p \<Longrightarrow> get (stackFrameHandles s') h = Some p"
    and "get (variableHandles s) h = Some q \<Longrightarrow> get (variableHandles s') h = Some q"
  using assms by (simp_all add: keeps_def extends_def)

lemma quiet_handleAll:
  "registries_ok s \<Longrightarrow> quiet later s \<Longrightarrow>
     (get (stackFrameHandles s) h = Some p
        \<longrightarrow> get (stackFrameHandles (handleAll later s)) h = Some p)
     \<and> (get (variableHandles s) h = Some q
        \<longrightarrow> get (variableHandles (handleAll later s)) h = Some q)"
proof (induction later arbitrary: s)
  case Nil
  then show ?case by simp
next
  case (Cons a later)
  obtain w request where a: "a = (w, request)" by (cases a)
  with Cons.prems have q: "\<not> stops w request s" "quiet later (handleRequest w request s)"
    by simp_all
  have ok: "registries_ok (handleRequest w request s)"
    using Cons.prems(1) by (rule registries_ok_handleRequest)
  have k: "keeps s (handleRequest w request s)"
    using Cons.prems(1) q(1) by (rule handleRequest_quiet)
  from Cons.IH[OF ok q(2)] keeps_get[OF k] a show ?case by simp
qed

text \<open>
  C1. In every state of a session (reached from \<open>NewServer\<close> by handling requests):
  a command run through \<open>doCommand\<close> with an engine attached that does not end in the
  exit of the process leaves both registries empty, and the stopped event (with the
  output event after it when the command failed) is sent from a state whose registries
  are empty already; if the goroutine or thread to report is nil, the handler panics
  after the reset and before any event. A request that stops leaves both registries
  empty. Along any quiet list of requests every handle of either registry keeps
  resolving to its payload.
\<close>

theorem handles_valid_until_stop:
  assumes "s = handleAll history (NewServer disconnectChan attachPid stop)"
  shows
    "(debugger s \<noteq> None \<and> \<not> isexited (debugger_Command w command) \<longrightarrow>
        (\<exists>s2. (\<forall>h. get (stackFrameHandles s2) h = None \<and> get (variableHandles s2) h = None)
           \<and> ((\<exists>b. AllThreadsStopped b
                  \<and> doCommand w command s = (Inr (), send (StoppedEvent b) s2))
               \<or> (\<exists>b text. AllThreadsStopped b
                  \<and> doCommand w command s
                      = (Inr (), send (OutputEvent text ''stderr'') (send (StoppedEvent b) s2)))
               \<or> doCommand w command s = (Inl nilPointer, s2)))
        \<and> (\<forall>h. get (stackFrameHandles (snd (doCommand w command s))) h = None
               \<and> get (variableHandles (snd (doCommand w command s))) h = None))
     \<and> (stops w request s \<longrightarrow>
        (\<forall>h. get (stackFrameHandles (handleRequest w request s)) h = None
            \<and> get (variableHandles (handleRequest w request s)) h = None))
     \<and> (quiet later s \<longrightarrow>
        (\<forall>h p. get (stackFrameHandles s) h = Some p
              \<longrightarrow> get (stackFrameHandles (handleAll later s)) h = Some p)
        \<and> (\<forall>h p. get (variableHandles s) h = Some p
              \<longrightarrow> get (variableHandles (handleAll later s)) h = Some p))"
proof (intro conjI impI)
  assume a: "debugger s \<noteq> None \<and> \<not> isexited (debugger_Command w command)"
  let ?s2 = "resetHandles (effect (EngineCommand command) s)"
  from a have d: "doCommand w command s = sendStopped w command (debugger_Command w command) ?s2"
    by (simp add: doCommand_stopped)
  have c: "\<forall>h. get (stackFrameHandles ?s2) h = None \<and> get (variableHandles ?s2) h = None"
    by (simp add: get_reset)
  from sendStopped_result[of w command "debugger_Command w command" ?s2] c
  show "\<exists>s2. (\<forall>h. get (stackFrameHandles s2) h = None \<and> get (variableHandles s2) h = None)
           \<and> ((\<exists>b. AllThreadsStopped b
                  \<and> doCommand w command s = (Inr (), send (StoppedEvent b) s2))
               \<or> (\<exists>b text. AllThreadsStopped b
                  \<and> doCommand w command s
                      = (Inr (), send (OutputEvent text ''stderr'') (send (StoppedEvent b) s2)))
               \<or> doCommand w command s = (Inl nilPointer, s2))"
    unfolding d by blast
  from a show "\<forall>h. get (stackFrameHandles (snd (doCommand w command s))) h = None
               \<and> get (variableHandles (snd (doCommand w command s))) h = None"
    by (simp add: doCommand_resets get_reset)
next
  assume "stops w request s"
  then show "\<forall>h. get (stackFrameHandles (handleRequest w request s)) h = None
            \<and> get (variableHandles (handleRequest w request s)) h = None"
    by (simp add: handleRequest_stops)
next
  have ok: "registries_ok s"
    unfolding assms using registries_ok_NewServer by (rule registries_ok_handleAll)
  assume q: "quiet later s"
  from quiet_handleAll[OF ok q]
  show "\<forall>h p. get (stackFrameHandles s) h = Some p
              \<longrightarrow> get (stackFrameHandles (handleAll later s)) h = Some p"
    by blast
  from quiet_handleAll[OF ok q]
  show "\<forall>h p. get (variableHandles s) h = Some p
              \<longrightarrow> get (variableHandles (handleAll later s)) h = Some p"
    by blast
qed

lemma launched1:
  "debugger (onLaunchRequest world0 request0 launch_exec (NewServer (Some 3) 0 4)) = Some debugger0"
  "args (onLaunchRequest world0 request0 launch_exec (NewServer (Some 3) 0 4)) = defaultArgs"
  "stackFrameHandles (onLaunchRequest world0 request0 launch_exec (NewServer (Some 3) 0 4))
     = newHandlesMap"
  by (simp_all add: launch_exec_def onLaunchRequest_def launchMode_def launchBuild_def
      launchStart_def launchOptions_def launchEngine_def world0_def NewServer_def debugger0_def)

lemma session1_fields:
  "debugger session1 = Some debugger0"
  "stackFrameHandles session1
     = \<lparr>nextHandle = 3,
        handleToVal = [1 \<mapsto> \<lparr>goroutineID = 1, frameIndex = 0\<rparr>,
                       2 \<mapsto> \<lparr>goroutineID = 1, frameIndex = 1\<rparr>]\<rparr>"
proof -
  let ?a = "onLaunchRequest world0 request0 launch_exec (NewServer (Some 3) 0 4)"
  have st: "debugger_Stacktrace world0 1 (stackTraceDepth defaultArgs)
            = Inr [\<lparr>Call = \<lparr>File = ''main.go'', Line = 7, Fn = None\<rparr>\<rparr>,
                   \<lparr>Call = \<lparr>File = ''<autogenerated>'', Line = 1, Fn = Some ''main.init''\<rparr>\<rparr>]"
    by (simp add: world0_def)
  have s1: "session1 = handleRequest world0 (StackTraceRequest request1 1 0 0) ?a"
    by (simp add: session1_def history1_def handleRequest_def)
  have o: "snd (onStackTraceRequest world0 request1 1 0 0 ?a)
           = handleRequest world0 (StackTraceRequest request1 1 0 0) ?a"
    by (simp add: handleRequest_def onStackTraceRequest_def launched1 st case_prod_beta)
  show "debugger session1 = Some debugger0"
    unfolding s1 o[symmetric]
    by (simp add: onStackTraceRequest_def launched1 st case_prod_beta)
  show "stackFrameHandles session1
     = \<lparr>nextHandle = 3,
        handleToVal = [1 \<mapsto> \<lparr>goroutineID = 1, frameIndex = 0\<rparr>,
                       2 \<mapsto> \<lparr>goroutineID = 1, frameIndex = 1\<rparr>]\<rparr>"
    unfolding s1 o[symmetric]
    by (simp add: onStackTraceRequest_def launched1 st case_prod_beta create_eq
        newHandlesMap_def startHandle_def)
qed

theorem handles_valid_until_stop_witness:
  "session1 = handleAll history1 (NewServer (Some 3) 0 4)
   \<and> debugger session1 \<noteq> None \<and> \<not> isexited (debugger_Command world0 api_Next)
   \<and> get (stackFrameHandles session1) 1 = Some \<lparr>goroutineID = 1, frameIndex = 0\<rparr>
   \<and> get (stackFrameHandles (snd (doCommand world0 api_Next session1))) 1 = None
   \<and> stops world0 (NextRequest request4) session1
   \<and> get (stackFrameHandles (handleRequest world0 (NextRequest request4) session1)) 1 = None
   \<and> quiet [(world0, ThreadsRequest request4)] session1
   \<and> get (stackFrameHandles (handleAll [(world0, ThreadsRequest request4)] session1)) 1
       = Some \<lparr>goroutineID = 1, frameIndex = 0\<rparr>"
proof -
  have ne: "\<not> isexited (debugger_Command world0 api_Next)"
    by (simp add: world0_def isexited_def state0_def)
  have g: "get (stackFrameHandles session1) 1 = Some \<lparr>goroutineID = 1, frameIndex = 0\<rparr>"
    by (simp add: session1_fields get_def)
  have st: "stops world0 (NextRequest request4) session1"
    by (simp add: stops_def session1_fields ne)
  have q: "quiet [(world0, ThreadsRequest request4)] session1"
    by (simp add: stops_def)
  have d: "debugger session1 \<noteq> None" by (simp add: session1_fields)
  note t = handles_valid_until_stop
             [OF session1_def, of world0 api_Next "NextRequest request4"
                "[(world0, ThreadsRequest request4)]"]
  from t d ne
  have p1: "get (stackFrameHandles (snd (doCommand world0 api_Next session1))) 1 = None"
    by blast
  from t st
  have p2: "get (stackFrameHandles (handleRequest world0 (NextRequest request4) session1)) 1
            = None"
    by blast
  from t q g
  have p3: "get (stackFrameHandles (handleAll [(world0, ThreadsRequest request4)] session1)) 1
            = Some \<lparr>goroutineID = 1, frameIndex = 0\<rparr>"
    by blast
  from session1_def d ne g p1 st p2 q p3 show ?thesis by blast
qed

section \<open>Teardown\<close>

lemma closed_iff: "ChanClosed c \<in> set (trace s) \<longleftrightarrow> ChanClosed c \<in> set (closes s)"
  by (simp add: closes_def)

lemma sameChans_refl [simp]: "sameChans s s"
  by (simp add: sameChans_def)

lemma sameChans_trans: "sameChans a b \<Longrightarrow> sameChans b c \<Longrightarrow> sameChans a c"
  by (simp add: sameChans_def)

lemma closes_effect:
  "closes (effect e s) = (if isChanClosed e then closes s @ [e] else closes s)"
  by (simp add: closes_def)

lemma closes_send [simp]: "closes (send m s) = closes s"
  by (simp add: closes_def)

lemma closes_updates [simp]:
  "closes (s\<lparr>binaryToRemove := b\<rparr>) = closes s"
  "closes (s\<lparr>args := a\<rparr>) = closes s"
  "closes (s\<lparr>debugger := d\<rparr>) = closes s"
  "closes (s\<lparr>config_DisconnectChan := c\<rparr>) = closes s"
  "closes (s\<lparr>config_ProcessArgs := pa, config_WorkingDir := wd\<rparr>) = closes s"
  "closes (s\<lparr>stackFrameHandles := fh\<rparr>) = closes s"
  "closes (s\<lparr>variableHandles := vh\<rparr>) = closes s"
  "closes (resetHandles s) = closes s"
  "closes (sendErrorResponse request ident summary details s) = closes s"
  "closes (sendInternalErrorResponse seq details s) = closes s"
  by (simp_all add: closes_def)

lemma sameChans_steps [simp]:
  "\<not> isChanClosed e \<Longrightarrow> sameChans s (effect e s')  = sameChans s s'"
  "sameChans s (send m s') = sameChans s s'"
  "sameChans s (sendErrorResponse request ident summary details s') = sameChans s s'"
  "sameChans s (sendInternalErrorResponse seq details s') = sameChans s s'"
  "sameChans s (failedToLaunch request details s') = sameChans s s'"
  "sameChans s (sendUnsupportedErrorResponse request s') = sameChans s s'"
  "sameChans s (sendNotYetImplementedErrorResponse request s') = sameChans s s'"
  "sameChans s (s'\<lparr>binaryToRemove := b\<rparr>) = sameChans s s'"
  "sameChans s (s'\<lparr>args := a\<rparr>) = sameChans s s'"
  "sameChans s (s'\<lparr>debugger := d\<rparr>) = sameChans s s'"
  "sameChans s (s'\<lparr>config_ProcessArgs := pa, config_WorkingDir := wd\<rparr>) = sameChans s s'"
  "sameChans s (s'\<lparr>stackFrameHandles := fh\<rparr>) = sameChans s s'"
  "sameChans s (s'\<lparr>variableHandles := vh\<rparr>) = sameChans s s'"
  "sameChans s (resetHandles s') = sameChans s s'"
  by (simp_all add: sameChans_def failedToLaunch_def sendUnsupportedErrorResponse_def
      sendNotYetImplementedErrorResponse_def closes_effect)

lemma sameChans_launchBuild:
  "launchBuild w request arguments program mode s = Inl s' \<Longrightarrow> sameChans s s'"
  "launchBuild w request arguments program mode s = Inr (program', s1) \<Longrightarrow> sameChans s s1"
  by (auto simp: launchBuild_def Let_def
        split: if_splits sum.splits option.splits json.splits)

lemma sameChans_launchEngine: "sameChans s (launchEngine w request program targetArgs s)"
  by (simp add: launchEngine_def Let_def split: option.splits)

lemma sameChans_launchStart:
  "sameChans s (launchStart w request arguments program mode s)"
proof -
  have "sameChans s (launchEngine w request program targetArgs
                         (s\<lparr>args := launchOptions arguments (args s)\<rparr>))" for targetArgs
    using sameChans_launchEngine[of "s\<lparr>args := launchOptions arguments (args s)\<rparr>"]
    by (simp add: sameChans_def)
  then show ?thesis
    by (simp add: launchStart_def Let_def split: option.splits json.splits sum.splits)
qed

lemma sameChans_onLaunchRequest: "sameChans s (onLaunchRequest w request arguments s)"
proof (cases "as_string (arguments ''program'')")
  case None
  then show ?thesis by (simp add: onLaunchRequest_def)
next
  case (Some program)
  show ?thesis
  proof (cases "program = []")
    case True
    with Some show ?thesis by (simp add: onLaunchRequest_def)
  next
    case False
    show ?thesis
    proof (cases "launchBuild w request arguments program (launchMode arguments) s")
      case (Inl s')
      with Some False sameChans_launchBuild(1)[OF Inl] show ?thesis
        by (simp add: onLaunchRequest_def)
    next
      case (Inr r)
      obtain program' s1 where r: "r = (program', s1)" by (cases r)
      from Inr r have "sameChans s s1" using sameChans_launchBuild(2) by blast
      moreover have "sameChans s1 (launchStart w request arguments program' (launchMode arguments) s1)"
        by (rule sameChans_launchStart)
      ultimately show ?thesis using Some False Inr r
        by (simp add: onLaunchRequest_def sameChans_def)
    qed
  qed
qed

lemma sameChans_onSetBreakpointsRequest:
  "sameChans s (snd (onSetBreakpointsRequest w request path breakpoints s))"
  by (simp add: onSetBreakpointsRequest_def split: option.splits)

lemma sameChans_onThreadsRequest: "sameChans s (onThreadsRequest w request s)"
  by (simp add: onThreadsRequest_def split: sum.splits error.splits)

lemma sameChans_sendStopped: "sameChans s (snd (sendStopped w command r s))"
  using sendStopped_result[of w command r s] by auto

lemma sameChans_doCommand: "sameChans s (snd (doCommand w command s))"
proof (cases "debugger s = None")
  case True
  then show ?thesis by (simp add: doCommand_nil)
next
  case False
  show ?thesis
  proof (cases "isexited (debugger_Command w command)")
    case True
    with False show ?thesis by (simp add: doCommand_exited)
  next
    case e: False
    have "sameChans s (resetHandles (effect (EngineCommand command) s))" by simp
    moreover have "sameChans (resetHandles (effect (EngineCommand command) s))
            (snd (sendStopped w command (debugger_Command w command)
                   (resetHandles (effect (EngineCommand command) s))))"
      by (rule sameChans_sendStopped)
    ultimately show ?thesis using False e
      by (simp add: doCommand_stopped sameChans_def)
  qed
qed

lemma sameChans_doCommand_send: "sameChans s (snd (doCommand w command (send m s)))"
  using sameChans_doCommand[of "send m s" w command] by (simp add: sameChans_def)

lemma sameChans_onStackTraceRequest:
  "sameChans s (snd (onStackTraceRequest w request threadId startFrame levels s))"
  by (simp add: onStackTraceRequest_def case_prod_beta split: sum.splits)

lemma sameChans_onVariablesRequest:
  "sameChans s (snd (onVariablesRequest w request variablesReference s))"
  by (simp add: onVariablesRequest_def case_prod_beta split: sum.splits option.splits)

lemma sameChans_onScopesRequest: "sameChans s (snd (onScopesRequest w request frameId s))"
proof (cases "get (stackFrameHandles s) frameId")
  case None
  then show ?thesis by (simp add: onScopesRequest_def)
next
  case (Some sf)
  show ?thesis
  proof (cases "debugger s = None")
    case True
    with Some show ?thesis by (simp add: onScopesRequest_def)
  next
    case dbg: False
    show ?thesis
    proof (cases "debugger_FunctionArguments w (goroutineID sf) (frameIndex sf)")
      case (Inl err)
      with Some dbg show ?thesis by (simp add: onScopesRequest_def)
    next
      case a: (Inr arguments)
      show ?thesis
      proof (cases "debugger_LocalVariables w (goroutineID sf) (frameIndex sf)")
        case (Inl err)
        with Some dbg a show ?thesis by (simp add: onScopesRequest_def)
      next
        case l: (Inr locals)
        show ?thesis
        proof (cases "showGlobalVariables (args s)")
          case False
          with Some dbg a l show ?thesis
            by (simp add: onScopesRequest_def case_prod_beta Let_def)
        next
          case g: True
          show ?thesis
          proof (cases "debugger_CurrentPackage w")
            case (Inl err)
            with Some dbg a l g show ?thesis
              by (simp add: onScopesRequest_def case_prod_beta Let_def)
          next
            case p: (Inr currPkg)
            show ?thesis
            proof (cases "debugger_PackageVariables w (''^'' @ currPkg @ [CHR 0x5C] @ ''.'')")
              case (Inl err)
              with Some dbg a l g p show ?thesis
                by (simp add: onScopesRequest_def case_prod_beta Let_def)
            next
              case (Inr globals)
              with Some dbg a l g p show ?thesis
                by (simp add: onScopesRequest_def case_prod_beta Let_def)
            qed
          qed
        qed
      qed
    qed
  qed
qed

lemma chanStep_same: "sameChans s s' \<Longrightarrow> chanStep s s'"
  by (simp add: chanStep_def)

lemma chanStep_after: "sameChans s s1 \<Longrightarrow> chanStep s1 s2 \<Longrightarrow> chanStep s s2"
  by (auto simp: chanStep_def sameChans_def)

lemma chanStep_before: "chanStep s s1 \<Longrightarrow> sameChans s1 s2 \<Longrightarrow> chanStep s s2"
  by (auto simp: chanStep_def sameChans_def)

lemma signalDisconnect_nil:
  "config_DisconnectChan s = None \<Longrightarrow>
   signalDisconnect s
     = (Inr (), if binaryToRemove s \<noteq> [] then effect (Removed (binaryToRemove s)) s else s)"
  by (simp add: signalDisconnect_def)

lemma signalDisconnect_closed:
  "config_DisconnectChan s = Some c \<Longrightarrow> ChanClosed c \<in> set (trace s) \<Longrightarrow>
   signalDisconnect s = (Inl (Panic ''close of closed channel''), s)"
  by (simp add: signalDisconnect_def close_def)

lemma signalDisconnect_open:
  "config_DisconnectChan s = Some c \<Longrightarrow> ChanClosed c \<notin> set (trace s) \<Longrightarrow>
   signalDisconnect s
     = (Inr (),
        if binaryToRemove s \<noteq> []
        then effect (Removed (binaryToRemove s))
               ((effect (ChanClosed c) s)\<lparr>config_DisconnectChan := None\<rparr>)
        else (effect (ChanClosed c) s)\<lparr>config_DisconnectChan := None\<rparr>)"
  by (simp add: signalDisconnect_def close_def effect_def)

lemma chanStep_signalDisconnect: "chanStep s (snd (signalDisconnect s))"
proof (cases "config_DisconnectChan s")
  case None
  then show ?thesis
    by (simp add: signalDisconnect_nil chanStep_def)
next
  case (Some c)
  show ?thesis
  proof (cases "ChanClosed c \<in> set (trace s)")
    case True
    with Some show ?thesis by (simp add: signalDisconnect_closed chanStep_def)
  next
    case False
    with Some show ?thesis
      by (simp add: signalDisconnect_open chanStep_def closed_iff closes_effect sameChans_def)
  qed
qed

lemma signalDisconnect_ok:
  assumes "open_ok s"
  shows "fst (signalDisconnect s) = Inr ()"
proof (cases "config_DisconnectChan s")
  case None
  then show ?thesis by (simp add: signalDisconnect_nil)
next
  case (Some c)
  with assms have "ChanClosed c \<notin> set (trace s)" by (simp add: open_ok_def closed_iff)
  with Some show ?thesis by (simp add: signalDisconnect_open)
qed

lemma chanStep_onDisconnectRequest: "chanStep s (snd (onDisconnectRequest request s))"
proof -
  let ?s2 = "(if debugger (send (DisconnectResponse (newResponse request)) s) \<noteq> None
                then effect (EngineDetach (config_AttachPid (send (DisconnectResponse (newResponse request)) s) = 0))
                       (effect (EngineCommand api_Halt) (send (DisconnectResponse (newResponse request)) s))
                else send (DisconnectResponse (newResponse request)) s)"
  have "sameChans s ?s2" by simp
  moreover have "chanStep ?s2 (snd (signalDisconnect ?s2))"
    by (rule chanStep_signalDisconnect)
  ultimately show ?thesis
    unfolding onDisconnectRequest_def Let_def by (rule chanStep_after)
qed

lemma chanStep_dispatch: "chanStep s (snd (dispatch w request s))"
proof (cases request)
  case (InitializeRequest r)
  then show ?thesis by (simp add: onInitializeRequest_def chanStep_same)
next
  case (LaunchRequest r a)
  then show ?thesis using sameChans_onLaunchRequest by (simp add: chanStep_same)
next
  case (DisconnectRequest r)
  then show ?thesis by (simp add: chanStep_onDisconnectRequest)
next
  case (SetBreakpointsRequest r p b)
  then show ?thesis using sameChans_onSetBreakpointsRequest by (simp add: chanStep_same)
next
  case (SetExceptionBreakpointsRequest r)
  then show ?thesis by (simp add: onSetExceptionBreakpointsRequest_def chanStep_same)
next
  case (ConfigurationDoneRequest r)
  have "sameChans s (snd (doCommand w api_Continue
          (send (ConfigurationDoneResponse (newResponse r)) s)))"
    by (rule sameChans_doCommand_send)
  with ConfigurationDoneRequest show ?thesis
    by (simp add: onConfigurationDoneRequest_def Let_def chanStep_same)
next
  case (ContinueRequest r)
  then show ?thesis by (simp add: onContinueRequest_def sameChans_doCommand_send chanStep_same)
next
  case (NextRequest r)
  then show ?thesis by (simp add: onNextRequest_def sameChans_doCommand_send chanStep_same)
next
  case (StepInRequest r)
  then show ?thesis by (simp add: onStepInRequest_def sameChans_doCommand_send chanStep_same)
next
  case (StepOutRequest r)
  then show ?thesis by (simp add: onStepOutRequest_def sameChans_doCommand_send chanStep_same)
next
  case (ThreadsRequest r)
  then show ?thesis using sameChans_onThreadsRequest by (simp add: chanStep_same)
next
  case (StackTraceRequest r t f l)
  then show ?thesis by (simp add: sameChans_onStackTraceRequest chanStep_same)
next
  case (ScopesRequest r f)
  then show ?thesis by (simp add: sameChans_onScopesRequest chanStep_same)
next
  case (VariablesRequest r v)
  then show ?thesis by (simp add: sameChans_onVariablesRequest chanStep_same)
next
  case (NotYetImplementedRequest r)
  then show ?thesis by (simp add: chanStep_same)
next
  case (UnsupportedRequest r)
  then show ?thesis by (simp add: chanStep_same)
next
  case (OtherMessage seq rendering)
  then show ?thesis by (simp add: chanStep_same)
qed

lemma chanStep_handleRequest: "chanStep s (handleRequest w request s)"
proof -
  have "sameChans (snd (dispatch w request s)) (handleRequest w request s)"
    by (simp add: handleRequest_def split: prod.splits sum.splits panic.splits)
  with chanStep_dispatch show ?thesis by (rule chanStep_before)
qed

lemma open_ok_step:
  assumes "open_ok s" "chanStep s s'"
  shows "open_ok s'"
    and "ChanClosed (stopChan s') \<in> set (closes s') \<longleftrightarrow> ChanClosed (stopChan s) \<in> set (closes s)"
proof -
  from assms(2) consider
      (same) "sameChans s s'"
    | (closed) c where "config_DisconnectChan s = Some c" "ChanClosed c \<notin> set (closes s)"
        "stopChan s' = stopChan s" "config_DisconnectChan s' = None"
        "closes s' = closes s @ [ChanClosed c]"
    by (auto simp: chanStep_def)
  then have "open_ok s'
    \<and> (ChanClosed (stopChan s') \<in> set (closes s') \<longleftrightarrow> ChanClosed (stopChan s) \<in> set (closes s))"
  proof cases
    case same
    with assms(1) show ?thesis by (simp add: open_ok_def sameChans_def)
  next
    case closed
    from assms(1) closed(1) have "c \<noteq> stopChan s" by (simp add: open_ok_def)
    with assms(1) closed show ?thesis by (auto simp: open_ok_def)
  qed
  then show "open_ok s'"
    and "ChanClosed (stopChan s') \<in> set (closes s') \<longleftrightarrow> ChanClosed (stopChan s) \<in> set (closes s)"
    by simp_all
qed

lemma Stop_open:
  assumes "ChanClosed (stopChan s) \<notin> set (closes s)"
  shows "fst (Stop s) = Inr ()"
    and "stopChan (snd (Stop s)) = stopChan s"
    and "config_DisconnectChan (snd (Stop s)) = config_DisconnectChan s"
    and "closes (snd (Stop s)) = closes s @ [ChanClosed (stopChan s)]"
  using assms by (simp_all add: Stop_def close_def Let_def closed_iff[symmetric] closes_effect)

lemma Stop_closed:
  assumes "ChanClosed (stopChan s) \<in> set (closes s)"
  shows "fst (Stop s) = Inl (Panic ''close of closed channel'')"
  using assms by (simp add: Stop_def close_def closed_iff[symmetric])

lemma open_ok_Stop:
  assumes "open_ok s" "ChanClosed (stopChan s) \<notin> set (closes s)"
  shows "open_ok (snd (Stop s))"
    and "ChanClosed (stopChan (snd (Stop s))) \<in> set (closes (snd (Stop s)))"
proof -
  note st = Stop_open[OF assms(2)]
  from assms show "open_ok (snd (Stop s))"
    by (simp add: open_ok_def st)
  show "ChanClosed (stopChan (snd (Stop s))) \<in> set (closes (snd (Stop s)))"
    by (simp add: st)
qed

lemma teardown_no_Stop:
  "open_ok s \<Longrightarrow> count_list ops CallStop = 0 \<Longrightarrow>
   fst (teardownAll ops s) = Inr () \<and> open_ok (snd (teardownAll ops s))"
proof (induction ops arbitrary: s)
  case Nil
  then show ?case by simp
next
  case (Cons op ops)
  show ?case
  proof (cases op)
    case CallStop
    with Cons.prems show ?thesis by simp
  next
    case CallSignalDisconnect
    from Cons.prems(1) have f: "fst (signalDisconnect s) = Inr ()" by (rule signalDisconnect_ok)
    have "open_ok (snd (signalDisconnect s))"
      using Cons.prems(1) chanStep_signalDisconnect by (rule open_ok_step(1))
    moreover from Cons.prems(2) CallSignalDisconnect have "count_list ops CallStop = 0" by simp
    ultimately have "fst (teardownAll ops (snd (signalDisconnect s))) = Inr ()
                     \<and> open_ok (snd (teardownAll ops (snd (signalDisconnect s))))"
      by (rule Cons.IH)
    with f CallSignalDisconnect show ?thesis
      by (simp add: case_prod_beta split: sum.splits)
  next
    case (Serve w request)
    have "open_ok (handleRequest w request s)"
      using Cons.prems(1) chanStep_handleRequest by (rule open_ok_step(1))
    moreover from Cons.prems(2) Serve have "count_list ops CallStop = 0" by simp
    ultimately have "fst (teardownAll ops (handleRequest w request s)) = Inr ()
                     \<and> open_ok (snd (teardownAll ops (handleRequest w request s)))"
      by (rule Cons.IH)
    with Serve show ?thesis by simp
  qed
qed

lemma teardown_one_Stop:
  "open_ok s \<Longrightarrow> ChanClosed (stopChan s) \<notin> set (closes s) \<Longrightarrow> count_list ops CallStop \<le> 1 \<Longrightarrow>
   fst (teardownAll ops s) = Inr () \<and> open_ok (snd (teardownAll ops s))"
proof (induction ops arbitrary: s)
  case Nil
  then show ?case by simp
next
  case (Cons op ops)
  show ?case
  proof (cases op)
    case CallStop
    from Cons.prems(2) have f: "fst (Stop s) = Inr ()" by (rule Stop_open(1))
    have "open_ok (snd (Stop s))" using Cons.prems(1,2) by (rule open_ok_Stop(1))
    moreover from Cons.prems(3) CallStop have "count_list ops CallStop = 0" by simp
    ultimately have "fst (teardownAll ops (snd (Stop s))) = Inr ()
                     \<and> open_ok (snd (teardownAll ops (snd (Stop s))))"
      by (rule teardown_no_Stop)
    with f CallStop show ?thesis by (simp add: case_prod_beta split: sum.splits)
  next
    case CallSignalDisconnect
    from Cons.prems(1) have f: "fst (signalDisconnect s) = Inr ()" by (rule signalDisconnect_ok)
    note st = open_ok_step[OF Cons.prems(1) chanStep_signalDisconnect]
    from Cons.prems(3) CallSignalDisconnect have "count_list ops CallStop \<le> 1" by simp
    with st Cons.prems(2)
    have "fst (teardownAll ops (snd (signalDisconnect s))) = Inr ()
          \<and> open_ok (snd (teardownAll ops (snd (signalDisconnect s))))"
      by (intro Cons.IH) simp_all
    with f CallSignalDisconnect show ?thesis
      by (simp add: case_prod_beta split: sum.splits)
  next
    case (Serve w request)
    note st = open_ok_step[OF Cons.prems(1) chanStep_handleRequest[of s w request]]
    from Cons.prems(3) Serve have "count_list ops CallStop \<le> 1" by simp
    with st Cons.prems(2)
    have "fst (teardownAll ops (handleRequest w request s)) = Inr ()
          \<and> open_ok (snd (teardownAll ops (handleRequest w request s)))"
      by (intro Cons.IH) simp_all
    with Serve show ?thesis by simp
  qed
qed

lemma teardown_Stop_again:
  "open_ok s \<Longrightarrow> ChanClosed (stopChan s) \<in> set (closes s) \<Longrightarrow> 1 \<le> count_list ops CallStop \<Longrightarrow>
   fst (teardownAll ops s) = Inl (Panic ''close of closed channel'')"
proof (induction ops arbitrary: s)
  case Nil
  then show ?case by simp
next
  case (Cons op ops)
  show ?case
  proof (cases op)
    case CallStop
    from Cons.prems(2) have "fst (Stop s) = Inl (Panic ''close of closed channel'')"
      by (rule Stop_closed)
    with CallStop show ?thesis by (simp add: case_prod_beta split: sum.splits)
  next
    case CallSignalDisconnect
    from Cons.prems(1) have f: "fst (signalDisconnect s) = Inr ()" by (rule signalDisconnect_ok)
    note st = open_ok_step[OF Cons.prems(1) chanStep_signalDisconnect]
    from Cons.prems(3) CallSignalDisconnect have "1 \<le> count_list ops CallStop" by simp
    with st Cons.prems(2)
    have "fst (teardownAll ops (snd (signalDisconnect s))) = Inl (Panic ''close of closed channel'')"
      by (intro Cons.IH) simp_all
    with f CallSignalDisconnect show ?thesis
      by (simp add: case_prod_beta split: sum.splits)
  next
    case (Serve w request)
    note st = open_ok_step[OF Cons.prems(1) chanStep_handleRequest[of s w request]]
    from Cons.prems(3) Serve have "1 \<le> count_list ops CallStop" by simp
    with st Cons.prems(2)
    have "fst (teardownAll ops (handleRequest w request s)) = Inl (Panic ''close of closed channel'')"
      by (intro Cons.IH) simp_all
    with Serve show ?thesis by simp
  qed
qed

lemma teardown_two_Stops:
  "open_ok s \<Longrightarrow> ChanClosed (stopChan s) \<notin> set (closes s) \<Longrightarrow> 2 \<le> count_list ops CallStop \<Longrightarrow>
   fst (teardownAll ops s) = Inl (Panic ''close of closed channel'')"
proof (induction ops arbitrary: s)
  case Nil
  then show ?case by simp
next
  case (Cons op ops)
  show ?case
  proof (cases op)
    case CallStop
    from Cons.prems(2) have f: "fst (Stop s) = Inr ()" by (rule Stop_open(1))
    note st = open_ok_Stop[OF Cons.prems(1,2)]
    from Cons.prems(3) CallStop have "1 \<le> count_list ops CallStop" by simp
    with st have "fst (teardownAll ops (snd (Stop s))) = Inl (Panic ''close of closed channel'')"
      by (intro teardown_Stop_again) simp_all
    with f CallStop show ?thesis by (simp add: case_prod_beta split: sum.splits)
  next
    case CallSignalDisconnect
    from Cons.prems(1) have f: "fst (signalDisconnect s) = Inr ()" by (rule signalDisconnect_ok)
    note st = open_ok_step[OF Cons.prems(1) chanStep_signalDisconnect]
    from Cons.prems(3) CallSignalDisconnect have "2 \<le> count_list ops CallStop" by simp
    with st Cons.prems(2)
    have "fst (teardownAll ops (snd (signalDisconnect s))) = Inl (Panic ''close of closed channel'')"
      by (intro Cons.IH) simp_all
    with f CallSignalDisconnect show ?thesis
      by (simp add: case_prod_beta split: sum.splits)
  next
    case (Serve w request)
    note st = open_ok_step[OF Cons.prems(1) chanStep_handleRequest[of s w request]]
    from Cons.prems(3) Serve have "2 \<le> count_list ops CallStop" by simp
    with st Cons.prems(2)
    have "fst (teardownAll ops (handleRequest w request s)) = Inl (Panic ''close of closed channel'')"
      by (intro Cons.IH) simp_all
    with Serve show ?thesis by simp
  qed
qed

lemma count_list_distinct: "distinct xs \<Longrightarrow> count_list xs x \<le> 1"
  by (induction xs) (auto simp: count_list_0_iff)

lemma count_closes: "count_list (trace s) (ChanClosed c) = count_list (closes s) (ChanClosed c)"
proof -
  have "count_list (filter isChanClosed xs) (ChanClosed c) = count_list xs (ChanClosed c)" for xs
    by (induction xs) auto
  then show ?thesis by (simp add: closes_def)
qed

lemma open_ok_closed_once: "open_ok s \<Longrightarrow> count_list (trace s) (ChanClosed c) \<le> 1"
  using count_list_distinct[of "closes s" "ChanClosed c"]
  by (simp add: count_closes open_ok_def)

lemma open_ok_NewServer:
  assumes "disconnectChan \<noteq> Some stop"
  shows "open_ok ((NewServer disconnectChan attachPid stop)\<lparr>conn := accepted\<rparr>)"
    and "ChanClosed (stopChan ((NewServer disconnectChan attachPid stop)\<lparr>conn := accepted\<rparr>))
           \<notin> set (closes ((NewServer disconnectChan attachPid stop)\<lparr>conn := accepted\<rparr>))"
  using assms by (auto simp: open_ok_def NewServer_def closes_def)

text \<open>
  C9, as amended. From a new session whose disconnect channel is not its stop channel,
  any sequence of calls of \<open>signalDisconnect\<close>, of requests handled (disconnect
  requests included) and of at most one call of \<open>Stop\<close>, in any order, runs without a
  panic, and no channel is closed more than once. With a second call of \<open>Stop\<close> the
  sequence panics: \<open>Stop\<close> closes the stop channel unguarded, and must not be called
  more than once.
\<close>

theorem teardown_idempotent:
  assumes "disconnectChan \<noteq> Some stop"
    and "s = (NewServer disconnectChan attachPid stop)\<lparr>conn := accepted\<rparr>"
  shows "(count_list ops CallStop \<le> 1 \<longrightarrow>
            fst (teardownAll ops s) = Inr ()
            \<and> (\<forall>c. count_list (trace (snd (teardownAll ops s))) (ChanClosed c) \<le> 1))
       \<and> (2 \<le> count_list ops CallStop \<longrightarrow>
            fst (teardownAll ops s) = Inl (Panic ''close of closed channel''))"
proof (intro conjI impI)
  note ok = open_ok_NewServer[OF assms(1), where attachPid = attachPid
                and accepted = accepted, folded assms(2)]
  {
    assume "count_list ops CallStop \<le> 1"
    with ok have r: "fst (teardownAll ops s) = Inr () \<and> open_ok (snd (teardownAll ops s))"
      by (intro teardown_one_Stop)
    then show "fst (teardownAll ops s) = Inr ()" by simp
    from r show "\<forall>c. count_list (trace (snd (teardownAll ops s))) (ChanClosed c) \<le> 1"
      using open_ok_closed_once by blast
  }
  {
    assume "2 \<le> count_list ops CallStop"
    with ok show "fst (teardownAll ops s) = Inl (Panic ''close of closed channel'')"
      by (intro teardown_two_Stops)
  }
qed

lemma teardown1_run:
  "teardownAll teardown1 server0
   = (Inr (),
      server0\<lparr>config_DisconnectChan := None,
              trace := [Sent (DisconnectResponse
                                \<lparr>resp_Command = ''disconnect'', RequestSeq = 13,
                                 Success = True, Message = []\<rparr>),
                        ChanClosed 3, ListenerClosed, ChanClosed 4, ConnClosed]\<rparr>)"
  by (simp add: teardown1_def server0_def NewServer_def handleRequest_def
      onDisconnectRequest_def signalDisconnect_def close_def Stop_def send_def effect_def
      newResponse_def request5_def Let_def)

theorem teardown_idempotent_witness:
  "Some 3 \<noteq> Some (4::chan) \<and> server0 = (NewServer (Some 3) 0 4)\<lparr>conn := True\<rparr>
   \<and> count_list teardown1 CallStop \<le> 1
   \<and> fst (teardownAll teardown1 server0) = Inr ()
   \<and> trace (snd (teardownAll teardown1 server0))
       = [Sent (DisconnectResponse
                  \<lparr>resp_Command = ''disconnect'', RequestSeq = 13, Success = True,
                   Message = []\<rparr>),
          ChanClosed 3, ListenerClosed, ChanClosed 4, ConnClosed]
   \<and> count_list (trace (snd (teardownAll teardown1 server0))) (ChanClosed 3) \<le> 1"
  using teardown_idempotent [where disconnectChan = "Some 3" and stop = 4 and s = server0
          and attachPid = 0 and accepted = True and ops = teardown1]
  by (simp add: teardown1_run) (simp add: server0_def teardown1_def)

theorem teardown_idempotent_counterexample:
  "fst (Stop server0) = Inr ()
   \<and> fst (Stop (snd (Stop server0))) = Inl (Panic ''close of closed channel'')
   \<and> fst (teardownAll [CallStop, CallStop] server0) = Inl (Panic ''close of closed channel'')"
  by (simp add: server0_def NewServer_def Stop_def close_def effect_def Let_def)

end
